(* ===== verification/Prelude.thy ===== *)
theory Prelude
  imports
    Complex_Main
    "HOL-Library.Multiset"
    "HOL-Library.AList"
    "HOL-Library.Char_ord"
    "HOL-Library.List_Lexorder"
    "HOL-Library.Product_Lexorder"
begin

text \<open>
  The parts of Python and its standard library that the KernelQ control plane uses, and the
  generic lemmas the component theories share.

  \<^item> A Python \<open>str\<close> is a \<^typ>\<open>string\<close>, one \<^typ>\<open>char\<close> per code point; the code points beyond
    255 have no \<^typ>\<open>char\<close>, so the model speaks of strings over the first 256 code points.
    \<open>str.strip\<close>, blank checks, string order (code point order) and decimal printing are defined
    here.
  \<^item> A raised exception is an \<open>Inl\<close> of the sum type \<open>exc + 'a\<close>.
  \<^item> A \<open>dict\<close> is an association list in insertion order with distinct keys: \<open>d.get(k)\<close> is
    \<open>map_of d k\<close> and \<open>d[k] = v\<close> is \<open>AList.update k v d\<close> (an existing key keeps its place, a new
    one goes to the end), as Python documents.
  \<^item> A Python \<open>int\<close> is unbounded; \<open>bool\<close> is a subclass of it, which matters where the code
    checks \<open>isinstance(x, int)\<close> and then prints \<open>x\<close>.
\<close>

named_theorems py_defs \<open>definitions of the Python helpers\<close>
named_theorems key_simps \<open>facts about printed keys\<close>
named_theorems wf_intros \<open>every operation keeps its component's invariant\<close>

section \<open>Exceptions\<close>

datatype exc =
    ValueError string
  | RuntimeError string
  | TypeError string
  | KeyError string
  | IndexError
  | ZeroDivisionError
  | AssertionError
  | UniqueViolation
  | PsycopgError string
  | KafkaError string
  | AttributeError string
  | CalledProcessError int

type_synonym 'a result = "exc + 'a"

definition bind_res :: "'a result \<Rightarrow> ('a \<Rightarrow> 'b result) \<Rightarrow> 'b result" where
  "bind_res r f = (case r of Inl e \<Rightarrow> Inl e | Inr x \<Rightarrow> f x)"

lemma bind_res_simps [simp]:
  "bind_res (Inl e) f = Inl e"
  "bind_res (Inr x) f = f x"
  by (simp_all add: bind_res_def)

lemma bind_res_eq_Inr:
  "bind_res r f = Inr y \<longleftrightarrow> (\<exists>x. r = Inr x \<and> f x = Inr y)"
  by (cases r) simp_all

lemma bind_res_eq_Inl:
  "bind_res r f = Inl e \<longleftrightarrow> r = Inl e \<or> (\<exists>x. r = Inr x \<and> f x = Inl e)"
  by (cases r) simp_all

section \<open>Strings\<close>

text \<open>\<open>str.isspace\<close> on one code point below 256.\<close>

definition py_isspace :: "char \<Rightarrow> bool" where
  "py_isspace c =
     (let n = of_char c :: nat in (9 \<le> n \<and> n \<le> 13) \<or> (28 \<le> n \<and> n \<le> 32) \<or> n = 133 \<or> n = 160)"

definition py_strip :: "string \<Rightarrow> string" where
  "py_strip s = rev (dropWhile py_isspace (rev (dropWhile py_isspace s)))"

text \<open>The test \<open>not s.strip()\<close> the code uses to refuse blank strings.\<close>

definition is_blank :: "string \<Rightarrow> bool" where
  "is_blank s = (py_strip s = [])"

lemma is_blank_iff: "is_blank s \<longleftrightarrow> (\<forall>c \<in> set s. py_isspace c)"
proof
  assume "is_blank s"
  then have "\<forall>c \<in> set (dropWhile py_isspace s). py_isspace c"
    by (simp add: is_blank_def py_strip_def)
  then have "dropWhile py_isspace s = []"
    by (metis hd_dropWhile hd_in_set)
  then show "\<forall>c \<in> set s. py_isspace c"
    by (simp add: dropWhile_eq_Nil_conv)
next
  assume "\<forall>c \<in> set s. py_isspace c"
  then have "dropWhile py_isspace s = []" by (simp add: dropWhile_eq_Nil_conv)
  then have "py_strip s = []" unfolding py_strip_def by (metis dropWhile.simps(1) rev.simps(1))
  then show "is_blank s" by (simp add: is_blank_def)
qed

lemma is_blank_Nil [simp]: "is_blank []"
  by (simp add: is_blank_iff)

lemma not_blank_ne [simp]: "\<not> is_blank s \<Longrightarrow> s \<noteq> []"
  by auto

lemma dropWhile_hd_not: "dropWhile P xs = [] \<or> \<not> P (hd (dropWhile P xs))"
  by (induction xs) auto

lemma hd_rev_dropWhile_rev:
  "dropWhile P (rev ys) \<noteq> [] \<Longrightarrow> hd (rev (dropWhile P (rev ys))) = hd ys"
proof -
  assume ne: "dropWhile P (rev ys) \<noteq> []"
  have "ys = rev (dropWhile P (rev ys)) @ rev (takeWhile P (rev ys))"
    by (metis rev_append rev_rev_ident takeWhile_dropWhile_id)
  with ne show ?thesis by (metis Nil_is_rev_conv hd_append2)
qed

lemma py_strip_idem [simp]: "py_strip (py_strip s) = py_strip s"
proof (cases "py_strip s = []")
  case True
  have "py_strip [] = []" by (simp add: py_strip_def)
  with True show ?thesis by simp
next
  case False
  let ?t = "dropWhile py_isspace s"
  let ?u = "dropWhile py_isspace (rev ?t)"
  from False have ne: "?u \<noteq> []" by (simp add: py_strip_def)
  then have t: "?t \<noteq> []" by (metis dropWhile.simps(1) rev.simps(1))
  have "hd (rev ?u) = hd ?t" using ne by (rule hd_rev_dropWhile_rev)
  with t have "\<not> py_isspace (hd (rev ?u))"
    using dropWhile_hd_not [of py_isspace s] by auto
  then have 1: "dropWhile py_isspace (rev ?u) = rev ?u"
    using ne by (cases "rev ?u") auto
  have "\<not> py_isspace (hd ?u)"
    using ne dropWhile_hd_not [of py_isspace "rev ?t"] by auto
  then have 2: "dropWhile py_isspace ?u = ?u"
    using ne by (cases ?u) auto
  show ?thesis using 1 2 by (simp add: py_strip_def)
qed

lemma py_strip_blank [simp]: "is_blank (py_strip s) = is_blank s"
  by (simp add: is_blank_def)

text \<open>\<open>sep.join(parts)\<close>.\<close>

fun py_join :: "string \<Rightarrow> string list \<Rightarrow> string" where
  "py_join sep [] = []"
| "py_join sep [x] = x"
| "py_join sep (x # y # xs) = x @ sep @ py_join sep (y # xs)"

lemma join_chars: "c \<in> set (py_join sep xs) \<Longrightarrow> c \<in> set sep \<or> (\<exists>x \<in> set xs. c \<in> set x)"
  by (induction sep xs rule: py_join.induct) auto

lemma join_chars_iff: "xs \<noteq> [] \<Longrightarrow> c \<notin> set sep \<Longrightarrow> c \<in> set (py_join sep xs) \<longleftrightarrow> (\<exists>x \<in> set xs. c \<in> set x)"
  by (induction sep xs rule: py_join.induct) auto

text \<open>Every part of a joined list is in the result, after the separator unless it is the first.\<close>

lemma join_part: "x \<in> set xs \<Longrightarrow> \<exists>a b. py_join sep (y # xs) = a @ sep @ x @ b"
proof (induction xs arbitrary: y)
  case (Cons z xs)
  show ?case
  proof (cases "x = z")
    case True
    then show ?thesis by (cases xs) (auto intro: exI [of _ y])
  next
    case False
    then obtain a b where "py_join sep (z # xs) = a @ sep @ x @ b" using Cons.IH [of z] Cons.prems by auto
    then have "py_join sep (y # z # xs) = (y @ sep @ a) @ sep @ x @ b" by simp
    then show ?thesis by blast
  qed
qed simp

text \<open>
  \<open>repr\<close> of a string: single quotes unless the string holds a single and no double quote,
  backslash escapes for the quote, the backslash, tab, newline and carriage return, and
  hexadecimal escapes for the code points below 256 that are not printable.
\<close>

definition hex_digit :: "nat \<Rightarrow> char" where
  "hex_digit n = (if n < 10 then char_of (48 + n) else char_of (87 + n))"

definition repr_char :: "char \<Rightarrow> char \<Rightarrow> string" where
  "repr_char q c =
     (let n = of_char c :: nat in
      if c = q \<or> c = CHR 0x5C then [CHR 0x5C, c]
      else if n = 9 then [CHR 0x5C, CHR ''t'']
      else if n = 10 then [CHR 0x5C, CHR ''n'']
      else if n = 13 then [CHR 0x5C, CHR ''r'']
      else if n < 32 \<or> (127 \<le> n \<and> n \<le> 160) \<or> n = 173
        then [CHR 0x5C, CHR ''x'', hex_digit (n div 16), hex_digit (n mod 16)]
      else [c])"

definition py_repr :: "string \<Rightarrow> string" where
  "py_repr s =
     (let q = (if CHR 0x27 \<in> set s \<and> CHR 0x22 \<notin> set s then CHR 0x22 else CHR 0x27)
      in q # concat (map (repr_char q) s) @ [q])"

definition py_repr_list :: "string list \<Rightarrow> string" where
  "py_repr_list xs = ''['' @ py_join '', '' (map py_repr xs) @ '']''"

section \<open>Integers and their decimal form\<close>

definition digit_char :: "nat \<Rightarrow> char" where
  "digit_char d = char_of (48 + d)"

definition digit_val :: "char \<Rightarrow> nat" where
  "digit_val c = of_char c - 48"

definition is_digit :: "char \<Rightarrow> bool" where
  "is_digit c = (48 \<le> (of_char c :: nat) \<and> (of_char c :: nat) \<le> 57)"

fun str_nat :: "nat \<Rightarrow> string" where
  "str_nat n = (if n < 10 then [digit_char n] else str_nat (n div 10) @ [digit_char (n mod 10)])"

declare str_nat.simps [simp del]

definition str_int :: "int \<Rightarrow> string" where
  "str_int i = (if i < 0 then CHR ''-'' # str_nat (nat (- i)) else str_nat (nat i))"

definition read_nat :: "string \<Rightarrow> nat" where
  "read_nat s = foldl (\<lambda>a c. 10 * a + digit_val c) 0 s"

lemma of_char_digit_char: "d < 10 \<Longrightarrow> (of_char (digit_char d) :: nat) = 48 + d"
  by (simp add: digit_char_def)

lemma digit_char_props [key_simps]:
  "d < 10 \<Longrightarrow> digit_val (digit_char d) = d"
  "d < 10 \<Longrightarrow> is_digit (digit_char d)"
  by (simp_all add: digit_val_def is_digit_def of_char_digit_char)

lemma str_nat_not_Nil [simp]: "str_nat n \<noteq> []"
  by (subst str_nat.simps) simp

lemma str_nat_digits: "c \<in> set (str_nat n) \<Longrightarrow> is_digit c"
proof (induction n rule: str_nat.induct)
  case (1 n)
  show ?case
  proof (cases "n < 10")
    case True
    with "1.prems" show ?thesis by (simp add: str_nat.simps [of n] digit_char_props)
  next
    case False
    with "1.prems" have "c \<in> set (str_nat (n div 10)) \<or> c = digit_char (n mod 10)"
      by (auto simp: str_nat.simps [of n])
    with "1.IH" False show ?thesis by (auto simp: digit_char_props)
  qed
qed

lemma read_str_nat [simp]: "read_nat (str_nat n) = n"
proof (induction n rule: str_nat.induct)
  case (1 n)
  show ?case
  proof (cases "n < 10")
    case True
    then show ?thesis by (simp add: str_nat.simps [of n] read_nat_def digit_char_props)
  next
    case False
    with "1.IH" show ?thesis
      by (simp add: str_nat.simps [of n] read_nat_def digit_char_props)
  qed
qed

lemma str_nat_inject [simp]: "str_nat m = str_nat n \<longleftrightarrow> m = n"
  by (metis read_str_nat)

lemma hd_str_nat: "is_digit (hd (str_nat n))"
  by (rule str_nat_digits [of _ n]) simp

lemma str_nat_no_char: "\<not> is_digit c \<Longrightarrow> c \<notin> set (str_nat n)"
  using str_nat_digits by blast

lemma minus_not_digit [simp]: "\<not> is_digit CHR ''-''"
  by (simp add: is_digit_def)

lemma colon_not_digit [simp]: "\<not> is_digit CHR '':''"
  by (simp add: is_digit_def)

lemma str_int_inject [simp]: "str_int i = str_int j \<longleftrightarrow> i = j"
proof
  assume eq: "str_int i = str_int j"
  have hd_no: "hd (str_nat n) \<noteq> CHR ''-''" for n
    using hd_str_nat [of n] by (metis minus_not_digit)
  show "i = j"
  proof (cases "i < 0 \<longleftrightarrow> j < 0")
    case True
    with eq show ?thesis by (auto simp: str_int_def split: if_splits)
  next
    case False
    then have "hd (str_int i) \<noteq> hd (str_int j)"
      using hd_no by (metis list.sel(1) str_int_def)
    with eq show ?thesis by simp
  qed
qed simp

lemma str_int_no_colon [simp, key_simps]: "CHR '':'' \<notin> set (str_int i)"
  by (simp add: str_int_def str_nat_no_char)

text \<open>
  A value that passes \<open>isinstance(x, int)\<close>: an \<open>int\<close> or a \<open>bool\<close>. Comparisons see its
  integer, an f-string prints a \<open>bool\<close> by name.
\<close>

datatype py_int = PyInt int | PyBool bool

fun int_of :: "py_int \<Rightarrow> int" where
  "int_of (PyInt i) = i"
| "int_of (PyBool b) = (if b then 1 else 0)"

fun str_py_int :: "py_int \<Rightarrow> string" where
  "str_py_int (PyInt i) = str_int i"
| "str_py_int (PyBool b) = (if b then ''True'' else ''False'')"

lemma hd_str_int: "hd (str_int i) = CHR ''-'' \<or> is_digit (hd (str_int i))"
  by (simp add: str_int_def hd_str_nat)

lemma str_int_ne_bool [simp]:
  "str_int i \<noteq> ''True''" "str_int i \<noteq> ''False''" "''True'' \<noteq> str_int i" "''False'' \<noteq> str_int i"
proof -
  have "hd (str_int i) \<noteq> CHR ''T''" "hd (str_int i) \<noteq> CHR ''F''"
    using hd_str_int [of i] by (auto simp: is_digit_def)
  then show "str_int i \<noteq> ''True''" "str_int i \<noteq> ''False''" "''True'' \<noteq> str_int i" "''False'' \<noteq> str_int i"
    by (metis list.sel(1))+
qed

lemma str_py_int_inject [simp]: "str_py_int a = str_py_int b \<longleftrightarrow> a = b"
  by (cases a; cases b) (auto split: if_splits)

lemma str_py_int_no_colon [simp, key_simps]: "CHR '':'' \<notin> set (str_py_int a)"
  by (cases a) (auto simp: str_int_no_colon)

section \<open>Splitting at the last separator\<close>

lemma append_sep_inject:
  assumes "a @ c # b = a' @ c # b'" and "c \<notin> set b" and "c \<notin> set b'"
  shows "a = a' \<and> b = b'"
proof -
  have tw: "takeWhile (\<lambda>x. x \<noteq> c) (rev y @ c # rev x) = rev y" if "c \<notin> set y" for x y
    using that by (subst takeWhile_append2) auto
  have "rev b @ c # rev a = rev b' @ c # rev a'"
    using arg_cong [OF assms(1), of rev] by simp
  then have "rev b = rev b'"
    using tw [OF assms(2), of a] tw [OF assms(3), of a'] by metis
  then show ?thesis using assms(1) by simp
qed

section \<open>Dictionaries in insertion order\<close>

type_synonym ('k, 'v) dict = "('k \<times> 'v) list"

definition dict_keys :: "('k, 'v) dict \<Rightarrow> 'k list" where
  "dict_keys d = map fst d"

definition dict_get :: "('k, 'v) dict \<Rightarrow> 'k \<Rightarrow> 'v option" where
  "dict_get d k = map_of d k"

definition dict_set :: "'k \<Rightarrow> 'v \<Rightarrow> ('k, 'v) dict \<Rightarrow> ('k, 'v) dict" where
  "dict_set k v d = AList.update k v d"

definition dict_wf :: "('k, 'v) dict \<Rightarrow> bool" where
  "dict_wf d = distinct (dict_keys d)"

lemma dict_get_set [simp]:
  "dict_get (dict_set k v d) k' = (if k' = k then Some v else dict_get d k')"
  by (simp add: dict_get_def dict_set_def update_conv')

lemma dict_wf_set [simp, intro]: "dict_wf d \<Longrightarrow> dict_wf (dict_set k v d)"
  by (simp add: dict_wf_def dict_keys_def dict_set_def distinct_update)

lemma dict_get_eq_None: "dict_get d k = None \<longleftrightarrow> k \<notin> set (dict_keys d)"
  by (simp add: dict_get_def dict_keys_def map_of_eq_None_iff)

lemma dict_keys_set_same: "k \<in> set (dict_keys d) \<Longrightarrow> dict_keys (dict_set k v d) = dict_keys d"
  by (simp add: dict_keys_def dict_set_def update_keys)

lemma dict_set_split:
  assumes "dict_get d k = Some v"
  obtains ps qs where "d = ps @ (k, v) # qs" and "k \<notin> set (dict_keys ps)"
    and "\<And>w. dict_set k w d = ps @ (k, w) # qs"
proof -
  have "\<exists>ps qs. d = ps @ (k, v) # qs \<and> k \<notin> set (dict_keys ps) \<and>
      (\<forall>w. dict_set k w d = ps @ (k, w) # qs)"
    using assms
  proof (induction d)
    case Nil
    then show ?case by (simp add: dict_get_def)
  next
    case (Cons p d)
    show ?case
    proof (cases "fst p = k")
      case True
      with Cons.prems show ?thesis
        by (intro exI [of _ "[]"] exI [of _ d]) (cases p, auto simp: dict_get_def dict_set_def dict_keys_def)
    next
      case False
      with Cons.prems have "dict_get d k = Some v" by (cases p) (simp add: dict_get_def)
      then obtain ps qs where "d = ps @ (k, v) # qs" "k \<notin> set (dict_keys ps)"
        "\<forall>w. dict_set k w d = ps @ (k, w) # qs" using Cons.IH by blast
      with False show ?thesis
        by (intro exI [of _ "p # ps"] exI [of _ qs]) (cases p, auto simp: dict_set_def dict_keys_def)
    qed
  qed
  then show ?thesis using that by blast
qed

text \<open>The sum over the values of a dict changes by the difference at the updated key.\<close>

lemma dict_sum_set:
  assumes "dict_get d k = Some v"
  shows "(\<Sum>(k', x) \<leftarrow> dict_set k w d. f x) + f v = (\<Sum>(k', x) \<leftarrow> d. f x) + (f w :: 'b :: comm_monoid_add)"
proof -
  obtain ps qs where "d = ps @ (k, v) # qs" "dict_set k w d = ps @ (k, w) # qs"
    using dict_set_split [OF assms] by metis
  then show ?thesis by (simp add: ac_simps)
qed

section \<open>Lists\<close>

lemma sort_key_filter_mset [simp]: "mset (sort_key f xs) = mset xs"
  by simp

lemma drop_nth_tl: "i < length xs \<Longrightarrow> take i xs @ drop (Suc i) xs = take i xs @ tl (drop i xs)"
  by (simp add: drop_Suc drop_tl)

lemma find_Some_mem: "find P xs = Some x \<Longrightarrow> x \<in> set xs \<and> P x"
  by (auto simp: find_Some_iff)

text \<open>\<open>list.pop(i)\<close>: the element and the list without it.\<close>

definition list_pop :: "nat \<Rightarrow> 'a list \<Rightarrow> 'a \<times> 'a list" where
  "list_pop i xs = (xs ! i, take i xs @ drop (Suc i) xs)"

lemma list_pop_mset:
  "i < length xs \<Longrightarrow> mset xs = add_mset (fst (list_pop i xs)) (mset (snd (list_pop i xs)))"
proof -
  assume "i < length xs"
  then have "mset xs = mset (take i xs @ xs ! i # drop (Suc i) xs)"
    by (simp add: id_take_nth_drop [symmetric])
  then show ?thesis by (simp add: list_pop_def)
qed

lemma list_pop_length [simp]:
  "i < length xs \<Longrightarrow> length (snd (list_pop i xs)) = length xs - 1"
  by (simp add: list_pop_def)

end
