(* ===== verification/Queue_Interface.thy ===== *)
theory Queue_Interface
  imports Prelude
begin

text \<open>
  The contracts of the in-memory job queues. A client submits jobs and takes jobs in any order:
  \<open>run_queue\<close> runs such a sequence over any implementation and records what was admitted and
  what came out. \<open>queue_contract\<close> is what every queue promises (the invariant is kept, \<open>peek\<close>
  agrees with \<open>dequeue\<close>); \<open>fifo_contract\<close> adds the order of the jobs of a class,
  \<open>counted_contract\<close> that no job is lost or duplicated and \<open>bounded_contract\<close> a capacity. The
  schedulers' theories interpret them on their own operations.
\<close>

datatype 'a queue_op = Submit 'a | Take

fun run_queue ::
    "('q \<Rightarrow> 'a \<Rightarrow> bool \<times> 'q) \<Rightarrow> ('q \<Rightarrow> 'a option \<times> 'q) \<Rightarrow> 'a queue_op list \<Rightarrow> 'q
     \<Rightarrow> 'a list \<times> 'a list \<times> 'q" where
  "run_queue enq deq [] q = ([], [], q)"
| "run_queue enq deq (Submit x # ops) q =
     (case enq q x of (ok, q1) \<Rightarrow>
        (case run_queue enq deq ops q1 of (ins, outs, q2) \<Rightarrow>
           (if ok then x # ins else ins, outs, q2)))"
| "run_queue enq deq (Take # ops) q =
     (case deq q of (out, q1) \<Rightarrow>
        (case run_queue enq deq ops q1 of (ins, outs, q2) \<Rightarrow>
           (ins, (case out of None \<Rightarrow> outs | Some x \<Rightarrow> x # outs), q2)))"

text \<open>A run keeps every predicate that both operations keep.\<close>

lemma run_queue_keeps:
  assumes "\<And>q x. P q \<Longrightarrow> P (snd (enq q x))" and "\<And>q. P q \<Longrightarrow> P (snd (deq q))"
  shows "run_queue enq deq ops q = (ins, outs, q') \<Longrightarrow> P q \<Longrightarrow> P q'"
proof (induction ops arbitrary: q ins outs)
  case (Cons op ops)
  show ?case
  proof (cases op)
    case (Submit x)
    obtain ins1 outs1 q2 where r: "run_queue enq deq ops (snd (enq q x)) = (ins1, outs1, q2)"
      by (metis prod_cases3)
    then have "q2 = q'" using Cons.prems(1) Submit by (auto split: prod.splits)
    then show ?thesis using Cons.IH r assms(1) [OF Cons.prems(2)] by blast
  next
    case Take
    obtain ins1 outs1 q2 where r: "run_queue enq deq ops (snd (deq q)) = (ins1, outs1, q2)"
      by (metis prod_cases3)
    then have "q2 = q'" using Cons.prems(1) Take by (auto split: prod.splits)
    then show ?thesis using Cons.IH r assms(2) [OF Cons.prems(2)] by blast
  qed
qed simp

locale queue_contract =
  fixes enq :: "'q \<Rightarrow> 'a \<Rightarrow> bool \<times> 'q"
    and deq :: "'q \<Rightarrow> 'a option \<times> 'q"
    and peek :: "'q \<Rightarrow> 'a option"
    and invar :: "'q \<Rightarrow> bool"
  assumes enq_invar: "invar q \<Longrightarrow> enq q x = (ok, q') \<Longrightarrow> invar q'"
    and deq_invar: "invar q \<Longrightarrow> deq q = (out, q') \<Longrightarrow> invar q'"
    and peek_result: "invar q \<Longrightarrow> peek q = fst (deq q)"
begin

lemma run_invar: "run_queue enq deq ops q = (ins, outs, q') \<Longrightarrow> invar q \<Longrightarrow> invar q'"
  by (rule run_queue_keeps [of invar enq deq ops q ins outs q']) (metis enq_invar deq_invar prod.collapse)+

end

text \<open>
  The jobs fall into classes (the tenants of a scheduler, or a single class), and the order is
  kept within each class.
\<close>

locale fifo_contract = queue_contract enq deq peek invar
  for enq :: "'q \<Rightarrow> 'a \<Rightarrow> bool \<times> 'q" and deq :: "'q \<Rightarrow> 'a option \<times> 'q"
    and peek :: "'q \<Rightarrow> 'a option" and invar :: "'q \<Rightarrow> bool" +
  fixes items :: "'q \<Rightarrow> 'c \<Rightarrow> 'a list" and class_of :: "'a \<Rightarrow> 'c"
  assumes enq_items: "invar q \<Longrightarrow> enq q x = (ok, q') \<Longrightarrow>
      items q' c = (if ok \<and> c = class_of x then items q c @ [x] else items q c)"
    and deq_None: "invar q \<Longrightarrow> deq q = (None, q') \<Longrightarrow> q' = q \<and> items q c = []"
    and deq_Some: "invar q \<Longrightarrow> deq q = (Some x, q') \<Longrightarrow>
      items q c = (if c = class_of x then x # items q' c else items q' c)"
begin

text \<open>
  Within each class, what comes out followed by what is left is what was there followed by what
  went in.
\<close>

lemma run_order:
  "run_queue enq deq ops q = (ins, outs, q') \<Longrightarrow> invar q \<Longrightarrow>
   items q c @ filter (\<lambda>x. class_of x = c) ins = filter (\<lambda>x. class_of x = c) outs @ items q' c"
proof (induction ops arbitrary: q ins outs q')
  case Nil
  then show ?case by simp
next
  case (Cons op ops)
  show ?case
  proof (cases op)
    case (Submit x)
    obtain ok q1 where e: "enq q x = (ok, q1)" by fastforce
    obtain ins1 outs1 q2 where r: "run_queue enq deq ops q1 = (ins1, outs1, q2)"
      by (metis prod_cases3)
    have o: "ins = (if ok then x # ins1 else ins1)" "outs = outs1" "q' = q2"
      using Cons.prems(1) Submit e r by auto
    show ?thesis
      using Cons.IH [OF r enq_invar [OF Cons.prems(2) e]] enq_items [OF Cons.prems(2) e, of c] o
      by (auto split: if_splits)
  next
    case Take
    obtain out q1 where d: "deq q = (out, q1)" by fastforce
    obtain ins1 outs1 q2 where r: "run_queue enq deq ops q1 = (ins1, outs1, q2)"
      by (metis prod_cases3)
    have o: "ins = ins1" "outs = (case out of None \<Rightarrow> outs1 | Some x \<Rightarrow> x # outs1)" "q' = q2"
      using Cons.prems(1) Take d r by auto
    note ih = Cons.IH [OF r deq_invar [OF Cons.prems(2) d]]
    show ?thesis
    proof (cases out)
      case None
      with d ih o show ?thesis using deq_None [OF Cons.prems(2), of q1 c] by simp
    next
      case (Some x)
      with d ih o show ?thesis using deq_Some [OF Cons.prems(2), of x q1 c] by auto
    qed
  qed
qed

lemma deq_None_iff: "invar q \<Longrightarrow> fst (deq q) = None \<longleftrightarrow> (\<forall>c. items q c = [])"
proof -
  assume inv: "invar q"
  obtain out q' where d: "deq q = (out, q')" by fastforce
  show ?thesis
  proof (cases out)
    case None
    with d show ?thesis using deq_None [OF inv, of q'] by simp
  next
    case (Some x)
    with d have "items q (class_of x) \<noteq> []" using deq_Some [OF inv, of x q' "class_of x"] by simp
    with d Some show ?thesis by auto
  qed
qed

end

text \<open>No job is lost or duplicated: what went in and did not come out is still there.\<close>

locale counted_contract = queue_contract enq deq peek invar
  for enq :: "'q \<Rightarrow> 'a \<Rightarrow> bool \<times> 'q" and deq :: "'q \<Rightarrow> 'a option \<times> 'q"
    and peek :: "'q \<Rightarrow> 'a option" and invar :: "'q \<Rightarrow> bool" +
  fixes contents :: "'q \<Rightarrow> 'a multiset"
  assumes enq_contents: "invar q \<Longrightarrow> enq q x = (ok, q') \<Longrightarrow>
      contents q' = (if ok then add_mset x (contents q) else contents q)"
    and deq_contents: "invar q \<Longrightarrow> deq q = (out, q') \<Longrightarrow>
      contents q = (case out of None \<Rightarrow> contents q' | Some x \<Rightarrow> add_mset x (contents q'))"
begin

lemma run_contents:
  "run_queue enq deq ops q = (ins, outs, q') \<Longrightarrow> invar q \<Longrightarrow> contents q + mset ins = mset outs + contents q'"
proof (induction ops arbitrary: q ins outs)
  case (Cons op ops)
  show ?case
  proof (cases op)
    case (Submit x)
    obtain ok q1 where e: "enq q x = (ok, q1)" by fastforce
    obtain ins1 outs1 q2 where r: "run_queue enq deq ops q1 = (ins1, outs1, q2)" by (metis prod_cases3)
    have o: "ins = (if ok then x # ins1 else ins1)" "outs = outs1" "q' = q2"
      using Cons.prems(1) Submit e r by auto
    show ?thesis
      using Cons.IH [of q1 ins1 outs1] r o enq_invar [OF Cons.prems(2) e] enq_contents [OF Cons.prems(2) e]
      by (cases ok) simp_all
  next
    case Take
    obtain out q1 where d: "deq q = (out, q1)" by fastforce
    obtain ins1 outs1 q2 where r: "run_queue enq deq ops q1 = (ins1, outs1, q2)" by (metis prod_cases3)
    have o: "ins = ins1" "outs = (case out of None \<Rightarrow> outs1 | Some x \<Rightarrow> x # outs1)" "q' = q2"
      using Cons.prems(1) Take d r by auto
    show ?thesis
      using Cons.IH [of q1 ins1 outs1] r o deq_invar [OF Cons.prems(2) d] deq_contents [OF Cons.prems(2) d]
      by (cases out) simp_all
  qed
qed simp

lemma run_count:
  assumes "run_queue enq deq ops q = (ins, outs, q')" "invar q"
  shows "size (contents q) + length ins = length outs + size (contents q')"
  using arg_cong [OF run_contents [OF assms], of size] by simp

end

locale bounded_contract = counted_contract enq deq peek invar contents
  for enq :: "'q \<Rightarrow> 'a \<Rightarrow> bool \<times> 'q" and deq :: "'q \<Rightarrow> 'a option \<times> 'q"
    and peek :: "'q \<Rightarrow> 'a option" and invar :: "'q \<Rightarrow> bool" and contents :: "'q \<Rightarrow> 'a multiset" +
  fixes capacity :: "'q \<Rightarrow> int"
  assumes invar_capacity: "invar q \<Longrightarrow> int (size (contents q)) \<le> capacity q"
    and enq_capacity: "invar q \<Longrightarrow> enq q x = (ok, q') \<Longrightarrow> capacity q' = capacity q"
    and deq_capacity: "invar q \<Longrightarrow> deq q = (out, q') \<Longrightarrow> capacity q' = capacity q"
begin

lemma run_capacity:
  assumes "run_queue enq deq ops q = (ins, outs, q')" "invar q" shows "capacity q' = capacity q"
proof -
  have "invar q' \<and> capacity q' = capacity q"
    by (rule run_queue_keeps [of "\<lambda>p. invar p \<and> capacity p = capacity q", OF _ _ assms(1)])
      (use assms(2) in \<open>auto, (metis enq_invar deq_invar enq_capacity deq_capacity prod.collapse)+\<close>)
  then show ?thesis by simp
qed

lemma run_bounded:
  "run_queue enq deq ops q = (ins, outs, q') \<Longrightarrow> invar q \<Longrightarrow> int (size (contents q')) \<le> capacity q"
  using run_invar run_capacity invar_capacity by metis

end

end
