(* ===== verification/Scheduler_Fifo.thy ===== *)
theory Scheduler_Fifo
  imports Queue_Interface
begin

text \<open>
  \<open>FIFOScheduler\<close> of \<open>kernelq/scheduler_fifo.py\<close>: a \<open>deque\<close> of jobs, appended on the right and
  popped from the left.
\<close>

record fifo_job =
  fj_job_id :: string
  fj_created_at :: int

record fifo_scheduler =
  fs_queue :: "fifo_job list"

definition fifo_init :: fifo_scheduler where
  "fifo_init = \<lparr>fs_queue = []\<rparr>"

definition fifo_enqueue :: "fifo_scheduler \<Rightarrow> fifo_job \<Rightarrow> fifo_scheduler" where
  "fifo_enqueue s job = s\<lparr>fs_queue := fs_queue s @ [job]\<rparr>"

definition fifo_dequeue :: "fifo_scheduler \<Rightarrow> fifo_job option \<times> fifo_scheduler" where
  "fifo_dequeue s =
     (case fs_queue s of
        [] \<Rightarrow> (None, s)
      | job # rest \<Rightarrow> (Some job, s\<lparr>fs_queue := rest\<rparr>))"

definition fifo_size :: "fifo_scheduler \<Rightarrow> int" where
  "fifo_size s = int (length (fs_queue s))"

definition fifo_peek :: "fifo_scheduler \<Rightarrow> fifo_job option" where
  "fifo_peek s = (case fs_queue s of [] \<Rightarrow> None | job # _ \<Rightarrow> Some job)"

lemmas fifo_defs = fifo_enqueue_def fifo_dequeue_def fifo_size_def fifo_peek_def

interpretation fifo: fifo_contract "\<lambda>s job. (True, fifo_enqueue s job)" fifo_dequeue fifo_peek
  "\<lambda>_. True" "\<lambda>s _. fs_queue s" "\<lambda>_. ()"
  by unfold_locales (auto simp: fifo_defs split: list.splits)

text \<open>
  Jobs leave \<open>FIFOScheduler\<close> in exactly the order they were enqueued: for any interleaving
  of \<open>enqueue\<close> and \<open>dequeue\<close> calls on a new scheduler, the jobs returned so far followed by the
  jobs still queued are the jobs enqueued, in order; \<open>size\<close> counts the latter.
\<close>

theorem fifo_order:
  assumes "run_queue (\<lambda>s job. (True, fifo_enqueue s job)) fifo_dequeue ops fifo_init = (ins, outs, s)"
  shows "ins = outs @ fs_queue s \<and> fifo_size s = int (length ins) - int (length outs)"
  using fifo.run_order [OF assms, of "()"] by (simp add: fifo_init_def fifo_size_def)

theorem fifo_order_witness:
  "let a = \<lparr>fj_job_id = ''a'', fj_created_at = 1\<rparr>; b = \<lparr>fj_job_id = ''b'', fj_created_at = 2\<rparr>;
       (ins, outs, s) =
         run_queue (\<lambda>s job. (True, fifo_enqueue s job)) fifo_dequeue [Submit a, Submit b, Take] fifo_init
   in ins = [a, b] \<and> outs = [a] \<and> ins = outs @ fs_queue s"
proof -
  let ?a = "\<lparr>fj_job_id = ''a'', fj_created_at = 1\<rparr>" and ?b = "\<lparr>fj_job_id = ''b'', fj_created_at = 2\<rparr>"
  have r: "run_queue (\<lambda>s job. (True, fifo_enqueue s job)) fifo_dequeue
      [Submit ?a, Submit ?b, Take] fifo_init = ([?a, ?b], [?a], \<lparr>fs_queue = [?b]\<rparr>)"
    by (simp add: fifo_defs fifo_init_def)
  show ?thesis using fifo_order [OF r] r by simp
qed

end
