(* ===== verification/Enqueue_Result.thy ===== *)
theory Enqueue_Result
  imports Prelude
begin

text \<open>
  The typed outcomes of \<open>kernelq/enqueue_result.py\<close>: the status enum, the result record, its
  three class-method constructors (each with the default message the source gives) and
  \<open>is_accepted\<close>.
\<close>

datatype enqueue_status = ACCEPTED | REJECTED_FULL | REJECTED_INVALID

fun enqueue_status_value :: "enqueue_status \<Rightarrow> string" where
  "enqueue_status_value ACCEPTED = ''accepted''"
| "enqueue_status_value REJECTED_FULL = ''rejected_full''"
| "enqueue_status_value REJECTED_INVALID = ''rejected_invalid''"

record enqueue_result =
  er_status :: enqueue_status
  er_message :: string

definition is_accepted :: "enqueue_result \<Rightarrow> bool" where
  "is_accepted r = (er_status r = ACCEPTED)"

text \<open>\<open>None\<close> is a call without a message: the default applies.\<close>

definition er_accepted :: "string option \<Rightarrow> enqueue_result" where
  "er_accepted message =
     \<lparr>er_status = ACCEPTED, er_message = (case message of None \<Rightarrow> ''accepted'' | Some m \<Rightarrow> m)\<rparr>"

definition er_rejected_full :: "string option \<Rightarrow> enqueue_result" where
  "er_rejected_full message =
     \<lparr>er_status = REJECTED_FULL, er_message = (case message of None \<Rightarrow> ''queue is full'' | Some m \<Rightarrow> m)\<rparr>"

definition er_rejected_invalid :: "string option \<Rightarrow> enqueue_result" where
  "er_rejected_invalid message =
     \<lparr>er_status = REJECTED_INVALID, er_message = (case message of None \<Rightarrow> ''invalid job'' | Some m \<Rightarrow> m)\<rparr>"

lemma er_status_simps [simp]:
  "er_status (er_accepted m) = ACCEPTED"
  "er_status (er_rejected_full m) = REJECTED_FULL"
  "er_status (er_rejected_invalid m) = REJECTED_INVALID"
  by (simp_all add: er_accepted_def er_rejected_full_def er_rejected_invalid_def)

lemma is_accepted_simps [simp]:
  "is_accepted (er_accepted m)"
  "\<not> is_accepted (er_rejected_full m)"
  "\<not> is_accepted (er_rejected_invalid m)"
  by (simp_all add: is_accepted_def)

end
