(* ===== verification/Bounded_Queue.thy ===== *)
theory Bounded_Queue
  imports Queue_Interface Enqueue_Result
begin

text \<open>
  \<open>BoundedQueue\<close> of \<open>kernelq/bounded_queue.py\<close>: a FIFO queue with a hard capacity and typed
  admission results.
\<close>

record bq_job =
  bj_job_id :: string
  bj_created_at :: int

record bounded_queue =
  bq_capacity :: int
  bq_items :: "bq_job list"

definition bounded_init :: "int \<Rightarrow> bounded_queue result" where
  "bounded_init capacity =
     (if capacity \<le> 0 then Inl (ValueError (''capacity must be positive, got '' @ str_int capacity))
      else Inr \<lparr>bq_capacity = capacity, bq_items = []\<rparr>)"

definition bounded_enqueue :: "bounded_queue \<Rightarrow> bq_job \<Rightarrow> enqueue_result \<times> bounded_queue" where
  "bounded_enqueue q job =
     (if is_blank (bj_job_id job) then (er_rejected_invalid None, q)
      else if int (length (bq_items q)) \<ge> bq_capacity q then (er_rejected_full None, q)
      else (er_accepted None, q\<lparr>bq_items := bq_items q @ [job]\<rparr>))"

definition bounded_dequeue :: "bounded_queue \<Rightarrow> bq_job option \<times> bounded_queue" where
  "bounded_dequeue q =
     (case bq_items q of
        [] \<Rightarrow> (None, q)
      | job # rest \<Rightarrow> (Some job, q\<lparr>bq_items := rest\<rparr>))"

definition bounded_peek :: "bounded_queue \<Rightarrow> bq_job option" where
  "bounded_peek q = (case bq_items q of [] \<Rightarrow> None | job # _ \<Rightarrow> Some job)"

definition bounded_size :: "bounded_queue \<Rightarrow> int" where
  "bounded_size q = int (length (bq_items q))"

definition bounded_is_full :: "bounded_queue \<Rightarrow> bool" where
  "bounded_is_full q = (int (length (bq_items q)) \<ge> bq_capacity q)"

definition bounded_remaining_capacity :: "bounded_queue \<Rightarrow> int" where
  "bounded_remaining_capacity q = bq_capacity q - int (length (bq_items q))"

definition bounded_stats :: "bounded_queue \<Rightarrow> (string, py_int) dict" where
  "bounded_stats q =
     [(''capacity'', PyInt (bq_capacity q)),
      (''size'', PyInt (bounded_size q)),
      (''remaining_capacity'', PyInt (bounded_remaining_capacity q)),
      (''is_full'', PyBool (bounded_is_full q))]"

lemmas bounded_defs = bounded_enqueue_def bounded_dequeue_def bounded_peek_def bounded_size_def
  bounded_is_full_def bounded_remaining_capacity_def

definition bounded_inv :: "bounded_queue \<Rightarrow> bool" where
  "bounded_inv q =
     (0 < bq_capacity q \<and> int (length (bq_items q)) \<le> bq_capacity q \<and>
      (\<forall>job \<in> set (bq_items q). \<not> is_blank (bj_job_id job)))"

text \<open>The Boolean view of \<open>enqueue\<close> that a client of the queue contract sees.\<close>

definition bounded_admit :: "bounded_queue \<Rightarrow> bq_job \<Rightarrow> bool \<times> bounded_queue" where
  "bounded_admit q job = (case bounded_enqueue q job of (r, q') \<Rightarrow> (is_accepted r, q'))"

lemma bounded_init_inv [wf_intros]: "bounded_init n = Inr q \<Longrightarrow> bounded_inv q"
  by (auto simp: bounded_init_def bounded_inv_def split: if_splits)

lemma bounded_enqueue_inv [wf_intros]: "bounded_inv q \<Longrightarrow> bounded_inv (snd (bounded_enqueue q job))"
  by (auto simp: bounded_enqueue_def bounded_inv_def)

lemma bounded_dequeue_inv [wf_intros]: "bounded_inv q \<Longrightarrow> bounded_inv (snd (bounded_dequeue q))"
  by (auto simp: bounded_dequeue_def bounded_inv_def split: list.splits)

interpretation bounded: bounded_contract bounded_admit bounded_dequeue bounded_peek bounded_inv
  "mset \<circ> bq_items" bq_capacity
  by unfold_locales
    (auto simp: bounded_admit_def bounded_inv_def bounded_defs split: prod.splits list.splits if_splits)

interpretation bounded_fifo: fifo_contract bounded_admit bounded_dequeue bounded_peek bounded_inv
  "\<lambda>q _. bq_items q" "\<lambda>_. ()"
  by unfold_locales
    (auto simp: bounded_admit_def bounded_inv_def bounded_defs split: prod.splits list.splits if_splits)

lemma bounded_enqueue_status:
  "er_status (fst (bounded_enqueue q job)) =
     (if is_blank (bj_job_id job) then REJECTED_INVALID
      else if bounded_is_full q then REJECTED_FULL else ACCEPTED)"
  by (simp add: bounded_defs)

text \<open>
  Under any sequence of \<open>enqueue\<close> and \<open>dequeue\<close> calls, a \<open>BoundedQueue\<close> built with a positive
  capacity never holds more than \<open>capacity\<close> jobs, returns the jobs it accepted in the order it
  accepted them, and its \<open>remaining_capacity\<close> and \<open>is_full\<close> agree: full exactly when no capacity
  remains.
\<close>

theorem bounded_queue_correct:
  assumes "bounded_init n = Inr q0"
    and "run_queue bounded_admit bounded_dequeue ops q0 = (ins, outs, q)"
  shows "ins = outs @ bq_items q \<and> bounded_size q \<le> n \<and> 0 \<le> bounded_remaining_capacity q \<and>
     (bounded_is_full q \<longleftrightarrow> bounded_remaining_capacity q = 0)"
proof -
  have inv: "bounded_inv q0" using assms(1) by (rule bounded_init_inv)
  have q0: "bq_items q0 = []" "bq_capacity q0 = n"
    using assms(1) by (auto simp: bounded_init_def split: if_splits)
  have "bounded_size q \<le> n" "bq_capacity q = n"
    using bounded.run_bounded [OF assms(2) inv] bounded.run_capacity [OF assms(2) inv] q0
    by (auto simp: bounded_size_def)
  moreover have "ins = outs @ bq_items q"
    using bounded_fifo.run_order [OF assms(2) inv, of "()"] q0 by simp
  ultimately show ?thesis by (auto simp: bounded_defs)
qed

theorem bounded_queue_correct_witness:
  "let a = \<lparr>bj_job_id = ''a'', bj_created_at = 1\<rparr>; b = \<lparr>bj_job_id = ''b'', bj_created_at = 2\<rparr>;
       q0 = \<lparr>bq_capacity = 1, bq_items = []\<rparr>;
       (ins, outs, q) = run_queue bounded_admit bounded_dequeue [Submit a, Submit b] q0
   in bounded_init 1 = Inr q0 \<and> ins = [a] \<and> bounded_size q \<le> 1 \<and> bounded_is_full q"
proof -
  let ?a = "\<lparr>bj_job_id = ''a'', bj_created_at = 1\<rparr>" and ?b = "\<lparr>bj_job_id = ''b'', bj_created_at = 2\<rparr>"
  let ?e = "\<lparr>bq_capacity = 1, bq_items = []\<rparr>" and ?q = "\<lparr>bq_capacity = 1, bq_items = [?a]\<rparr>"
  have i: "bounded_init 1 = Inr ?e" by (simp add: bounded_init_def)
  have r: "run_queue bounded_admit bounded_dequeue [Submit ?a, Submit ?b] ?e = ([?a], [], ?q)"
    by (simp add: bounded_admit_def bounded_defs is_blank_iff py_isspace_def)
  show ?thesis using bounded_queue_correct [OF i r] i r by (simp add: bounded_defs)
qed

text \<open>
  The three outcomes of \<open>BoundedQueue.enqueue\<close>: a blank \<open>job_id\<close> is rejected as invalid even
  when the queue is full, a full queue rejects a valid job, every other job is accepted and goes
  to the back; a rejection leaves the queue as it was.
\<close>

theorem bounded_enqueue_outcomes:
  "(case bounded_enqueue q job of (r, q') \<Rightarrow>
     er_status r = (if is_blank (bj_job_id job) then REJECTED_INVALID
       else if bounded_is_full q then REJECTED_FULL else ACCEPTED) \<and>
     bq_items q' = (if is_accepted r then bq_items q @ [job] else bq_items q) \<and>
     bq_capacity q' = bq_capacity q)"
  by (simp add: bounded_defs is_accepted_def)

end
