(* ===== verification/Heapq.thy ===== *)
theory Heapq
  imports Prelude
begin

text \<open>
  The binary heap of Python's standard module \<open>heapq\<close>, which \<open>PriorityScheduler\<close> keeps its jobs
  in: \<open>heappush\<close> and \<open>heappop\<close> with their helpers \<open>_siftdown\<close> and \<open>_siftup\<close>, over a list and a
  comparison \<open>lt\<close>. \<open>heappop\<close> lets the hole left by the root sink to a leaf, always following the
  smaller child, puts the last element there and lets it rise again.

  The locale \<open>heap_order\<close> states what the proofs need of the comparison: it compares a rank in
  a linear order.
\<close>

section \<open>The algorithms\<close>

function siftdown_loop :: "('a \<Rightarrow> 'a \<Rightarrow> bool) \<Rightarrow> 'a list \<Rightarrow> nat \<Rightarrow> nat \<Rightarrow> 'a \<Rightarrow> 'a list" where
  "siftdown_loop lt heap startpos pos newitem =
     (if pos > startpos then
        (let parentpos = (pos - 1) div 2; parent = heap ! parentpos in
         if lt newitem parent
         then siftdown_loop lt (heap[pos := parent]) startpos parentpos newitem
         else heap[pos := newitem])
      else heap[pos := newitem])"
  by pat_completeness auto
termination
  by (relation "measure (\<lambda>(lt, heap, startpos, pos, newitem). pos)") auto

definition siftdown :: "('a \<Rightarrow> 'a \<Rightarrow> bool) \<Rightarrow> 'a list \<Rightarrow> nat \<Rightarrow> nat \<Rightarrow> 'a list" where
  "siftdown lt heap startpos pos = siftdown_loop lt heap startpos pos (heap ! pos)"

function siftup_loop :: "('a \<Rightarrow> 'a \<Rightarrow> bool) \<Rightarrow> 'a list \<Rightarrow> nat \<Rightarrow> 'a list \<times> nat" where
  "siftup_loop lt heap pos =
     (let endpos = length heap; childpos = 2 * pos + 1 in
      if childpos < endpos then
        (let rightpos = childpos + 1;
             childpos = (if rightpos < endpos \<and> \<not> lt (heap ! childpos) (heap ! rightpos)
                         then rightpos else childpos)
         in siftup_loop lt (heap[pos := heap ! childpos]) childpos)
      else (heap, pos))"
  by pat_completeness auto
termination
  by (relation "measure (\<lambda>(lt, heap, pos). length heap - pos)") (auto simp: Let_def split: if_splits)

definition siftup :: "('a \<Rightarrow> 'a \<Rightarrow> bool) \<Rightarrow> 'a list \<Rightarrow> nat \<Rightarrow> 'a list" where
  "siftup lt heap pos =
     (let newitem = heap ! pos in
      case siftup_loop lt heap pos of (heap', pos') \<Rightarrow> siftdown lt (heap'[pos' := newitem]) pos pos')"

definition heappush :: "('a \<Rightarrow> 'a \<Rightarrow> bool) \<Rightarrow> 'a list \<Rightarrow> 'a \<Rightarrow> 'a list" where
  "heappush lt heap item = siftdown lt (heap @ [item]) 0 (length heap)"

definition heappop :: "('a \<Rightarrow> 'a \<Rightarrow> bool) \<Rightarrow> 'a list \<Rightarrow> ('a \<times> 'a list) result" where
  "heappop lt heap =
     (if heap = [] then Inl IndexError
      else
        (let lastelt = last heap; heap = butlast heap in
         if heap \<noteq> [] then Inr (heap ! 0, siftup lt (heap[0 := lastelt]) 0)
         else Inr (lastelt, heap)))"

declare siftdown_loop.simps [simp del] siftup_loop.simps [simp del]

text \<open>The parent of a position.\<close>

definition par :: "nat \<Rightarrow> nat" where
  "par i = (i - 1) div 2"

lemma par_less [simp]: "0 < i \<Longrightarrow> par i < i"
  by (auto simp: par_def)

lemma par_neq [simp]: "0 < i \<Longrightarrow> par i \<noteq> i" "0 < i \<Longrightarrow> i \<noteq> par i"
  using par_less [of i] by (metis less_irrefl)+

lemma par_le [simp]: "par i \<le> i"
  by (auto simp: par_def)

lemma par_eq: "0 < i \<Longrightarrow> par i = p \<longleftrightarrow> i = 2 * p + 1 \<or> i = 2 * p + 2"
  by (auto simp: par_def)

lemma par_bound [simp]: "i < n \<Longrightarrow> par i < n"
  using par_le [of i] by linarith

lemma par_child [simp]:
  "par (2 * p + 1) = p" "par (2 * p + 2) = p" "par (Suc (2 * p)) = p" "par (Suc (Suc (2 * p))) = p"
  by (simp_all add: par_def)

lemma siftdown_loop_unfold:
  "siftdown_loop lt heap s pos v =
     (if pos > s \<and> lt v (heap ! par pos) then siftdown_loop lt (heap[pos := heap ! par pos]) s (par pos) v
      else heap[pos := v])"
  by (subst siftdown_loop.simps) (simp add: Let_def par_def)

section \<open>The elements are permuted\<close>

lemma mset_list_swap:
  assumes "i < length xs" "j < length xs"
  shows "mset (xs[i := xs ! j, j := xs ! i]) = mset xs"
  using mset_swap [of j xs i] assms by (cases "i = j") (simp_all add: list_update_swap)

lemma hole_move_mset:
  assumes "i < length xs" "j < length xs" "i \<noteq> j"
  shows "mset (xs[i := xs ! j, j := v]) = mset (xs[i := v])"
  using mset_list_swap [of i "xs[i := v]" j] assms by simp

lemma length_siftdown_loop [simp]: "length (siftdown_loop lt heap s pos v) = length heap"
  by (induction lt heap s pos v rule: siftdown_loop.induct) (subst siftdown_loop.simps, simp add: Let_def)

lemma mset_siftdown_loop:
  "pos < length heap \<Longrightarrow> mset (siftdown_loop lt heap s pos v) = mset (heap[pos := v])"
proof (induction pos arbitrary: heap rule: less_induct)
  case (less pos)
  show ?case
  proof (cases "pos > s \<and> lt v (heap ! par pos)")
    case True
    then have p: "par pos < pos" by simp
    then have "mset (siftdown_loop lt heap s pos v) = mset (heap[pos := heap ! par pos, par pos := v])"
      using True less.IH [OF p, of "heap[pos := heap ! par pos]"] less.prems
      by (simp add: siftdown_loop_unfold [of lt heap s pos v])
    then show ?thesis using hole_move_mset [of pos heap "par pos" v] less.prems p by simp
  next
    case False
    then show ?thesis by (subst siftdown_loop_unfold) auto
  qed
qed

lemma mset_siftdown: "pos < length heap \<Longrightarrow> mset (siftdown lt heap s pos) = mset heap"
  by (simp add: siftdown_def mset_siftdown_loop)

lemma siftup_loop_mset:
  "siftup_loop lt heap pos = (heap', pos') \<Longrightarrow> pos < length heap \<Longrightarrow>
   length heap' = length heap \<and> pos' < length heap \<and> length heap \<le> 2 * pos' + 1 \<and>
   mset (heap'[pos' := v]) = mset (heap[pos := v])"
proof (induction lt heap pos rule: siftup_loop.induct)
  case (1 lt heap pos)
  let ?l = "2 * pos + 1"
  let ?c = "if ?l + 1 < length heap \<and> \<not> lt (heap ! ?l) (heap ! (?l + 1)) then ?l + 1 else ?l"
  show ?case
  proof (cases "?l < length heap")
    case True
    then have c: "?c < length heap" "pos \<noteq> ?c" by auto
    have r: "siftup_loop lt heap pos = siftup_loop lt (heap[pos := heap ! ?c]) ?c"
      using True by (subst siftup_loop.simps) (simp add: Let_def)
    have "mset (heap'[pos' := v]) = mset (heap[pos := heap ! ?c, ?c := v]) \<and>
        length heap' = length heap \<and> pos' < length heap \<and> length heap \<le> 2 * pos' + 1"
      using "1.IH" [OF refl refl True refl refl] "1.prems" r c by simp
    then show ?thesis using hole_move_mset [OF "1.prems"(2) c] by simp
  next
    case False
    then have "heap' = heap" "pos' = pos"
      using "1.prems" by (simp_all add: siftup_loop.simps [of lt heap pos])
    then show ?thesis using False "1.prems" by simp
  qed
qed

lemma mset_siftup: "pos < length heap \<Longrightarrow> mset (siftup lt heap pos) = mset heap"
  using siftup_loop_mset [of lt heap pos _ _ "heap ! pos"]
  by (simp add: siftup_def mset_siftdown split: prod.splits)

lemma mset_heappush: "mset (heappush lt heap item) = add_mset item (mset heap)"
  by (simp add: heappush_def mset_siftdown)

lemma heappop_Nil: "heappop lt [] = Inl IndexError"
  by (simp add: heappop_def)

lemma heappop_mset:
  assumes "heap \<noteq> []"
  shows "\<exists>x heap'. heappop lt heap = Inr (x, heap') \<and> x = heap ! 0 \<and>
    mset heap = add_mset x (mset heap')"
proof (cases "butlast heap = []")
  case True
  with assms have "heap = [last heap]" by (metis append_Nil append_butlast_last_id)
  then have "heap ! 0 = last heap" "mset heap = {#last heap#}"
    by (metis nth_Cons_0, metis mset_single_iff_right)
  then show ?thesis using True assms by (simp add: heappop_def)
next
  case False
  let ?b = "butlast heap"
  have h: "heap = ?b @ [last heap]" using assms by simp
  have "heap ! 0 = ?b ! 0" using False by (metis h length_greater_0_conv nth_append)
  moreover have "mset (siftup lt (?b[0 := last heap]) 0) = mset (?b[0 := last heap])"
    using False by (intro mset_siftup) (simp only: length_list_update length_greater_0_conv not_False_eq_True)
  moreover have "mset heap = add_mset (last heap) (mset ?b)"
    by (subst h) simp
  moreover have "add_mset (?b ! 0) (mset (?b[0 := last heap])) = add_mset (last heap) (mset ?b)"
    using False by (cases ?b) auto
  ultimately show ?thesis using False assms by (simp add: heappop_def Let_def)
qed

section \<open>The heap order\<close>

locale heap_order =
  fixes lt :: "'a \<Rightarrow> 'a \<Rightarrow> bool" and rank :: "'a \<Rightarrow> 'k :: linorder" and ok :: "'a \<Rightarrow> bool"
  assumes lt_rank: "ok x \<Longrightarrow> ok y \<Longrightarrow> lt x y \<longleftrightarrow> rank x < rank y"
begin

definition is_heap :: "'a list \<Rightarrow> bool" where
  "is_heap h = (\<forall>i. 0 < i \<and> i < length h \<longrightarrow> rank (h ! (par i)) \<le> rank (h ! i))"

text \<open>A heap but for the element at \<open>pos\<close>, which may be too small for its place.\<close>

definition rising :: "'a list \<Rightarrow> nat \<Rightarrow> bool" where
  "rising h pos =
     ((\<forall>i. 0 < i \<and> i < length h \<and> i \<noteq> pos \<longrightarrow> rank (h ! (par i)) \<le> rank (h ! i)) \<and>
      (\<forall>i. 0 < i \<and> i < length h \<and> par i = pos \<and> 0 < pos \<longrightarrow>
         rank (h ! (par pos)) \<le> rank (h ! i)))"

text \<open>A heap with a hole at \<open>pos\<close>: the element there is ignored.\<close>

definition sinking :: "'a list \<Rightarrow> nat \<Rightarrow> bool" where
  "sinking h pos =
     (\<forall>i. 0 < i \<and> i < length h \<and> i \<noteq> pos \<longrightarrow>
        (if par i \<noteq> pos then rank (h ! (par i)) \<le> rank (h ! i)
         else 0 < pos \<longrightarrow> rank (h ! (par pos)) \<le> rank (h ! i)))"

lemma is_heap_root:
  assumes "is_heap h" "i < length h" shows "rank (h ! 0) \<le> rank (h ! i)"
  using assms(2)
proof (induction i rule: less_induct)
  case (less i)
  show ?case
  proof (cases "i = 0")
    case False
    then have p: "par i < i" by auto
    with less have "rank (h ! 0) \<le> rank (h ! (par i))" by simp
    moreover have "rank (h ! (par i)) \<le> rank (h ! i)"
      using assms(1) False less.prems by (simp add: is_heap_def)
    ultimately show ?thesis by (rule order_trans)
  qed simp
qed

lemma rising_step:
  assumes inv: "rising (h[pos := v]) pos" and pos: "0 < pos" "pos < length h"
    and less: "rank v < rank (h ! (par pos))"
  shows "rising (h[pos := h ! (par pos), par pos := v]) (par pos)"
proof -
  let ?p = "par pos"
  let ?h = "h[pos := v]" and ?g = "h[pos := h ! ?p, ?p := v]"
  have p: "?p < pos" "?p < length h" using pos by simp_all
  have g: "?g ! i = (if i = ?p then v else if i = pos then h ! ?p else h ! i)" if "i < length h" for i
    using that pos p by (simp add: nth_list_update)
  have h: "?h ! i = (if i = pos then v else h ! i)" if "i < length h" for i
    using that by (simp add: nth_list_update)
  have up: "rank (?h ! (par i)) \<le> rank (?h ! i)" if "0 < i" "i < length h" "i \<noteq> pos" for i
    using inv that by (simp add: rising_def)
  have below: "rank (h ! ?p) \<le> rank (h ! i)" if "0 < i" "i < length h" "par i = pos" for i
  proof -
    have "i \<noteq> pos" using that par_less [of i] by auto
    moreover have "rank (?h ! ?p) \<le> rank (?h ! i)"
      using conjunct2 [OF inv [unfolded rising_def], rule_format, of i] that pos by simp
    ultimately show ?thesis using h [of i] h [OF p(2)] that p(1) by simp
  qed
  have 1: "rank (?g ! (par i)) \<le> rank (?g ! i)" if i: "0 < i" "i < length h" "i \<noteq> ?p" for i
  proof (cases "i = pos")
    case True
    then show ?thesis using g [of pos] g [of ?p] p pos less by simp
  next
    case ne: False
    have q: "par i < length h" using i by auto
    show ?thesis
    proof (cases "par i = ?p")
      case True
      have "rank (h ! ?p) \<le> rank (h ! i)"
        using up [of i] i ne h [of i] h [of ?p] p True by simp
      then show ?thesis using True g [of ?p] g [of i] p i ne less by simp
    next
      case False
      show ?thesis
      proof (cases "par i = pos")
        case True
        then show ?thesis using g [of pos] g [of i] i ne pos below [of i] p by simp
      next
        case F: False
        then show ?thesis using up [of i] g [of i] g [OF q] h [of i] h [OF q] i ne False by simp
      qed
    qed
  qed
  have 2: "rank (?g ! (par ?p)) \<le> rank (?g ! i)"
    if i: "0 < i" "i < length h" "par i = ?p" "0 < ?p" for i
  proof -
    let ?q = "par ?p"
    have q: "?q < ?p" using that by simp
    then have qn: "?q \<noteq> pos" using p by linarith
    have gp: "rank (h ! ?q) \<le> rank (h ! ?p)"
      using up [of ?p] h [of ?q] h [of ?p] i(4) p q by simp
    show ?thesis
    proof (cases "i = pos")
      case True
      then show ?thesis using gp g [of ?q] g [of pos] p q qn pos by simp
    next
      case False
      have "i \<noteq> ?p" using i by auto
      moreover have "rank (h ! ?p) \<le> rank (h ! i)"
        using up [of i] i False h [of i] h [of ?p] p by simp
      ultimately show ?thesis using gp g [of ?q] g [of i] p q qn i False by simp
    qed
  qed
  show ?thesis unfolding rising_def using 1 2 by simp
qed

lemma rising_done:
  assumes "rising h pos" and "pos = 0 \<or> rank (h ! (par pos)) \<le> rank (h ! pos)"
  shows "is_heap h"
  using assms by (auto simp: rising_def is_heap_def)

lemma siftdown_loop_heap:
  "rising (h[pos := v]) pos \<Longrightarrow> pos < length h \<Longrightarrow> ok v \<Longrightarrow> (\<forall>x \<in> set h. ok x) \<Longrightarrow>
   is_heap (siftdown_loop lt h 0 pos v)"
proof (induction pos arbitrary: h rule: less_induct)
  case (less pos)
  let ?p = "par pos"
  have okp: "ok (h ! ?p)" using less.prems(2,4) by simp
  show ?case
  proof (cases "pos > 0 \<and> lt v (h ! ?p)")
    case True
    then have p: "?p < pos" by auto
    have "rank v < rank (h ! ?p)" using True lt_rank less.prems(3) okp by blast
    then have "rising (h[pos := h ! ?p, ?p := v]) ?p"
      using rising_step less.prems True by blast
    moreover have "\<forall>x \<in> set (h[pos := h ! ?p]). ok x"
      using less.prems okp set_update_subset_insert [of h pos "h ! ?p"] by blast
    ultimately have "is_heap (siftdown_loop lt (h[pos := h ! ?p]) 0 ?p v)"
      using less.IH [OF p] less.prems p by simp
    then show ?thesis using True by (subst siftdown_loop_unfold) simp
  next
    case False
    then have "pos = 0 \<or> rank (h[pos := v] ! ?p) \<le> rank (h[pos := v] ! pos)"
      using less.prems okp lt_rank by (auto simp: nth_list_update not_less)
    with less.prems have "is_heap (h[pos := v])" by (blast intro: rising_done)
    then show ?thesis using False by (subst siftdown_loop_unfold) auto
  qed
qed

lemma siftdown_heap:
  "rising h pos \<Longrightarrow> pos < length h \<Longrightarrow> (\<forall>x \<in> set h. ok x) \<Longrightarrow> is_heap (siftdown lt h 0 pos)"
  using siftdown_loop_heap [of h pos "h ! pos"] by (simp add: siftdown_def)

lemma sinking_step:
  assumes inv: "sinking h pos" and c: "c = 2 * pos + 1 \<or> c = 2 * pos + 2" "c < length h"
    and least: "\<And>i. par i = pos \<Longrightarrow> 0 < i \<Longrightarrow> i < length h \<Longrightarrow> rank (h ! c) \<le> rank (h ! i)"
  shows "sinking (h[pos := h ! c]) c"
proof -
  let ?g = "h[pos := h ! c]"
  have pc: "par c = pos" "pos < c" using c by auto
  have g: "?g ! i = (if i = pos then h ! c else h ! i)" if "i < length h" for i
    using that by (simp add: nth_list_update)
  have "if par i \<noteq> c then rank (?g ! (par i)) \<le> rank (?g ! i)
      else 0 < c \<longrightarrow> rank (?g ! (par c)) \<le> rank (?g ! i)"
    if i: "0 < i" "i < length h" "i \<noteq> c" for i
  proof -
    have q: "par i < length h" using i by auto
    consider (ispos) "i = pos" | (sib) "i \<noteq> pos" "par i = pos"
      | (below) "i \<noteq> pos" "par i = c" | (other) "i \<noteq> pos" "par i \<noteq> pos" "par i \<noteq> c"
      by blast
    then show ?thesis
    proof cases
      case ispos
      have "rank (h ! (par pos)) \<le> rank (h ! c)"
        using inv [unfolded sinking_def, rule_format, of c] c pc i ispos by simp
      moreover have "par pos < pos" using ispos i by simp
      then have "par pos \<noteq> pos" "par pos \<noteq> c" using pc(2) by linarith+
      ultimately show ?thesis using g [of "par pos"] g [of pos] ispos i q by simp
    next
      case sib
      then show ?thesis using least [of i] g [of pos] g [of i] i q pc by simp
    next
      case below
      then have "rank (h ! c) \<le> rank (h ! i)"
        using inv [unfolded sinking_def, rule_format, of i] i pc by simp
      then show ?thesis using below g [of pos] g [of i] i pc c by simp
    next
      case other
      then have "rank (h ! (par i)) \<le> rank (h ! i)"
        using inv [unfolded sinking_def, rule_format, of i] i by simp
      then show ?thesis using other g [of i] g [OF q] i by simp
    qed
  qed
  then show ?thesis unfolding sinking_def length_list_update by blast
qed

lemma sinking_leaf: "sinking h pos \<Longrightarrow> length h \<le> 2 * pos + 1 \<Longrightarrow> rising (h[pos := v]) pos"
proof -
  assume s: "sinking h pos" and leaf: "length h \<le> 2 * pos + 1"
  have np: "par i \<noteq> pos" if "0 < i" "i < length h" for i
    using that leaf by (auto simp: par_eq)
  have "rank (h[pos := v] ! (par i)) \<le> rank (h[pos := v] ! i)"
    if "0 < i" "i < length h" "i \<noteq> pos" for i
    using s [unfolded sinking_def, rule_format, of i] that np [of i] by simp
  then show ?thesis using np unfolding rising_def length_list_update by blast
qed

lemma siftup_loop_sinking:
  "siftup_loop lt h pos = (h', pos') \<Longrightarrow> pos < length h \<Longrightarrow> sinking h pos \<Longrightarrow> (\<forall>x \<in> set h. ok x) \<Longrightarrow>
   sinking h' pos' \<and> (\<forall>x \<in> set h'. ok x)"
proof (induction "length h - pos" arbitrary: h pos rule: less_induct)
  case less
  let ?l = "2 * pos + 1"
  let ?c = "if ?l + 1 < length h \<and> \<not> lt (h ! ?l) (h ! (?l + 1)) then ?l + 1 else ?l"
  show ?case
  proof (cases "?l < length h")
    case True
    then have c: "?c < length h" "?c = 2 * pos + 1 \<or> ?c = 2 * pos + 2" "pos < ?c" by auto
    have r: "siftup_loop lt h pos = siftup_loop lt (h[pos := h ! ?c]) ?c"
      using True by (subst siftup_loop.simps) (simp add: Let_def)
    have ch: "i = ?l \<or> i = ?l + 1" if "par i = pos" "0 < i" for i
      using that by (auto simp: par_eq)
    have lr: "?l + 1 < length h \<Longrightarrow> lt (h ! ?l) (h ! (?l + 1)) \<longleftrightarrow> rank (h ! ?l) < rank (h ! (?l + 1))"
      using less.prems(4) by (intro lt_rank) auto
    have "rank (h ! ?c) \<le> rank (h ! i)" if "par i = pos" "0 < i" "i < length h" for i
      using ch [OF that(1,2)] lr that(3) by auto
    then have "sinking (h[pos := h ! ?c]) ?c"
      using sinking_step [OF less.prems(3) c(2,1)] by blast
    moreover have "\<forall>x \<in> set (h[pos := h ! ?c]). ok x"
      using less.prems(4) c(1) set_update_subset_insert [of h pos "h ! ?c"] nth_mem by blast
    moreover have "length (h[pos := h ! ?c]) - ?c < length h - pos" using c by simp
    ultimately show ?thesis using less.hyps [of "h[pos := h ! ?c]" ?c] less.prems(1) r c by simp
  next
    case False
    then have "h' = h" "pos' = pos"
      using less.prems by (simp_all add: siftup_loop.simps [of lt h pos])
    then show ?thesis using less.prems by simp
  qed
qed

lemma siftup_heap:
  assumes "sinking h 0" "h \<noteq> []" "\<forall>x \<in> set h. ok x" shows "is_heap (siftup lt h 0)"
proof -
  obtain h' pos' where l: "siftup_loop lt h 0 = (h', pos')" by fastforce
  have s: "sinking h' pos'" "\<forall>x \<in> set h'. ok x"
    using siftup_loop_sinking [OF l] assms by auto
  have m: "pos' < length h'" "length h' \<le> 2 * pos' + 1"
    using siftup_loop_mset [OF l] assms by auto
  have "ok (h ! 0)" using assms by auto
  then have "\<forall>x \<in> set (h'[pos' := h ! 0]). ok x"
    using s set_update_subset_insert [of h' pos' "h ! 0"] by blast
  then have "is_heap (siftdown lt (h'[pos' := h ! 0]) 0 pos')"
    using siftdown_heap sinking_leaf [OF s(1) m(2)] m by simp
  then show ?thesis by (simp add: siftup_def l)
qed

lemma heappush_heap:
  assumes "is_heap h" "\<forall>x \<in> set h. ok x" "ok x" shows "is_heap (heappush lt h x)"
proof -
  have "rising (h @ [x]) (length h)"
    unfolding rising_def
  proof (intro conjI allI impI)
    fix i assume "0 < i \<and> i < length (h @ [x]) \<and> i \<noteq> length h"
    then have i: "0 < i" "i < length h" by auto
    with assms(1) show "rank ((h @ [x]) ! (par i)) \<le> rank ((h @ [x]) ! i)"
      by (simp add: is_heap_def nth_append)
  next
    fix i assume i: "0 < i \<and> i < length (h @ [x]) \<and> par i = length h \<and> 0 < length h"
    then have "par i < i" using par_less by blast
    with i have False by simp
    then show "rank ((h @ [x]) ! par (length h)) \<le> rank ((h @ [x]) ! i)" ..
  qed
  then show ?thesis using assms siftdown_heap [of "h @ [x]" "length h"] by (simp add: heappush_def)
qed

lemma is_heap_butlast_sinking: "is_heap h \<Longrightarrow> sinking ((butlast h)[0 := v]) 0"
proof -
  assume h: "is_heap h"
  have "rank ((butlast h)[0 := v] ! (par i)) \<le> rank ((butlast h)[0 := v] ! i)"
    if "0 < i" "i < length (butlast h)" "par i \<noteq> 0" for i
    using h that by (simp add: is_heap_def nth_butlast del: length_butlast) (simp add: less_diff_conv)
  then show ?thesis by (simp add: sinking_def)
qed

lemma heappop_heap:
  assumes "is_heap h" "h \<noteq> []" "\<forall>x \<in> set h. ok x" "heappop lt h = Inr (x, h')"
  shows "is_heap h' \<and> x = h ! 0"
proof (cases "butlast h = []")
  case True
  then have "x = last h" "h' = []" using assms by (auto simp: heappop_def Let_def)
  moreover have "h ! 0 = last h" using True assms(2) by (cases h) (auto split: if_splits)
  ultimately show ?thesis by (simp add: is_heap_def)
next
  case False
  let ?b = "(butlast h)[0 := last h]"
  have "set ?b \<subseteq> set h"
    using assms(2) set_update_subset_insert [of "butlast h" 0 "last h"] last_in_set [OF assms(2)] in_set_butlastD
    by fastforce
  then have "is_heap (siftup lt ?b 0)"
    using siftup_heap [of ?b] is_heap_butlast_sinking [OF assms(1)] False assms(3) by auto
  moreover have "butlast h ! 0 = h ! 0"
    using False by (intro nth_butlast) (simp only: length_greater_0_conv not_False_eq_True)
  ultimately show ?thesis
    using False assms(2,4) by (auto simp: heappop_def Let_def)
qed

end

end
