(* ===== verification/Priority_Interface.thy ===== *)
theory Priority_Interface
  imports Prelude
begin

text \<open>
  The contract of a priority queue over a rank in a linear order (smaller rank first): an
  insertion adds one element, a removal takes an element of least rank. \<open>take_n\<close> removes up to
  \<open>n\<close> elements. Two schedulers keep this contract in different ways: \<open>PriorityScheduler\<close> with a
  binary heap and the per-tenant lists of \<open>ComposedScheduler\<close> with a linear scan.
\<close>

fun take_n :: "('q \<Rightarrow> 'a option \<times> 'q) \<Rightarrow> nat \<Rightarrow> 'q \<Rightarrow> 'a list \<times> 'q" where
  "take_n pop 0 q = ([], q)"
| "take_n pop (Suc n) q =
     (case pop q of
        (None, q') \<Rightarrow> ([], q')
      | (Some x, q') \<Rightarrow> (case take_n pop n q' of (xs, q'') \<Rightarrow> (x # xs, q'')))"

locale priority_contract =
  fixes ins :: "'q \<Rightarrow> 'a \<Rightarrow> 'q" and pop :: "'q \<Rightarrow> 'a option \<times> 'q"
    and contents :: "'q \<Rightarrow> 'a multiset" and invar :: "'q \<Rightarrow> bool"
    and rank :: "'a \<Rightarrow> 'k :: linorder"
  assumes ins_contents: "invar q \<Longrightarrow> contents (ins q x) = add_mset x (contents q)"
    and ins_invar: "invar q \<Longrightarrow> invar (ins q x)"
    and pop_empty: "invar q \<Longrightarrow> contents q = {#} \<Longrightarrow> pop q = (None, q)"
    and pop_least: "invar q \<Longrightarrow> contents q \<noteq> {#} \<Longrightarrow>
      \<exists>x q'. pop q = (Some x, q') \<and> invar q' \<and> contents q = add_mset x (contents q') \<and>
        (\<forall>y \<in># contents q. rank x \<le> rank y)"
begin

lemma foldl_ins:
  "invar q \<Longrightarrow> invar (foldl ins q xs) \<and> contents (foldl ins q xs) = contents q + mset xs"
  by (induction xs arbitrary: q) (auto simp: ins_contents ins_invar)

lemma take_n_length: "invar q \<Longrightarrow> take_n pop n q = (xs, q') \<Longrightarrow> size (contents q) \<le> length xs + size (contents q')"
proof (induction n arbitrary: q xs)
  case (Suc n)
  show ?case
  proof (cases "contents q = {#}")
    case False
    obtain x q1 where p: "pop q = (Some x, q1)" "invar q1" "contents q = add_mset x (contents q1)"
      using pop_least [OF Suc.prems(1) False] by blast
    obtain ys where t: "take_n pop n q1 = (ys, q')" "xs = x # ys"
      using Suc.prems(2) p(1) by (auto split: prod.splits)
    show ?thesis using Suc.IH [OF p(2) t(1)] p(3) t(2) by simp
  qed simp
qed simp

lemma drain_sorted:
  assumes "invar q" and "size (contents q) \<le> n" and "take_n pop n q = (xs, q')"
  shows "mset xs = contents q \<and> sorted (map rank xs) \<and> contents q' = {#}"
  using assms
proof (induction n arbitrary: q xs)
  case 0
  then show ?case by simp
next
  case (Suc n)
  show ?case
  proof (cases "contents q = {#}")
    case True
    then show ?thesis using Suc.prems pop_empty by simp
  next
    case False
    obtain x q1 where p: "pop q = (Some x, q1)" "invar q1" "contents q = add_mset x (contents q1)"
      "\<forall>y \<in># contents q. rank x \<le> rank y" using pop_least [OF Suc.prems(1) False] by blast
    obtain ys where t: "take_n pop n q1 = (ys, q')" "xs = x # ys"
      using Suc.prems(3) p(1) by (auto split: prod.splits)
    have "mset ys = contents q1 \<and> sorted (map rank ys) \<and> contents q' = {#}"
      using Suc.IH [OF p(2) _ t(1)] Suc.prems(2) p(3) by simp
    moreover from this have "\<forall>y \<in> set ys. rank x \<le> rank y"
      using p(3,4) by (metis set_mset_add_mset_insert insertCI set_mset_mset)
    ultimately show ?thesis using t(2) p(3) by simp
  qed
qed

text \<open>When the rank determines the element, draining is sorting.\<close>

lemma drain_is_sort:
  assumes "invar q" and "size (contents q) \<le> n" and "take_n pop n q = (xs, q')"
    and "mset zs = contents q" and "inj_on rank (set zs)"
  shows "xs = sort_key rank zs"
proof -
  have d: "mset xs = mset zs" "sorted (map rank xs)" using drain_sorted [OF assms(1-3)] assms(4) by auto
  have "sort (map rank zs) = map rank xs" "sort (map rank zs) = map rank (sort_key rank zs)"
    using d by (intro properties_for_sort; simp)+
  then have "map rank xs = map rank (sort_key rank zs)" by simp
  moreover have "set xs = set zs" using d(1) by (metis set_mset_mset)
  ultimately show ?thesis using assms(5) by (metis map_inj_on set_sort Un_absorb)
qed

end

end
