(* ===== verification/Scheduler_Priority.thy ===== *)
theory Scheduler_Priority
  imports Heapq Priority_Interface
begin

text \<open>
  \<open>PriorityScheduler\<close> of \<open>kernelq/scheduler_priority.py\<close>: a \<open>heapq\<close> of tuples
  \<open>(-priority, created_at, job_id, job)\<close>. Python compares two tuples at the first place where
  they differ. If the first three places agree, the jobs themselves would be compared, and a
  frozen dataclass without \<open>order=True\<close> raises \<open>TypeError\<close> there unless the jobs are equal; the
  comparison of the model has that branch, and the invariant shows it is never taken.
\<close>

record prio_job =
  pj_job_id :: string
  pj_priority :: int
  pj_created_at :: int

type_synonym prio_entry = "int \<times> int \<times> string \<times> prio_job"

record priority_scheduler =
  ps_heap :: "prio_entry list"

definition prio_entry_of :: "prio_job \<Rightarrow> prio_entry" where
  "prio_entry_of job = (- pj_priority job, pj_created_at job, pj_job_id job, job)"

fun entry_compare :: "prio_entry \<Rightarrow> prio_entry \<Rightarrow> bool result" where
  "entry_compare (p, t, i, j) (p', t', i', j') =
     (if p \<noteq> p' then Inr (p < p')
      else if t \<noteq> t' then Inr (t < t')
      else if i \<noteq> i' then Inr (i < i')
      else if j = j' then Inr False
      else Inl (TypeError ''< not supported between instances of Job and Job''))"

definition entry_lt :: "prio_entry \<Rightarrow> prio_entry \<Rightarrow> bool" where
  "entry_lt a b = (case entry_compare a b of Inr r \<Rightarrow> r | Inl _ \<Rightarrow> False)"

definition prio_init :: priority_scheduler where
  "prio_init = \<lparr>ps_heap = []\<rparr>"

definition prio_enqueue :: "priority_scheduler \<Rightarrow> prio_job \<Rightarrow> priority_scheduler" where
  "prio_enqueue s job = s\<lparr>ps_heap := heappush entry_lt (ps_heap s) (prio_entry_of job)\<rparr>"

definition prio_dequeue :: "priority_scheduler \<Rightarrow> prio_job option \<times> priority_scheduler" where
  "prio_dequeue s =
     (if ps_heap s = [] then (None, s)
      else
        (case heappop entry_lt (ps_heap s) of
           Inl _ \<Rightarrow> (None, s)
         | Inr ((_, _, _, job), heap) \<Rightarrow> (Some job, s\<lparr>ps_heap := heap\<rparr>)))"

definition prio_peek :: "priority_scheduler \<Rightarrow> prio_job option" where
  "prio_peek s =
     (case ps_heap s of [] \<Rightarrow> None | (_, _, _, job) # _ \<Rightarrow> Some job)"

definition prio_size :: "priority_scheduler \<Rightarrow> int" where
  "prio_size s = int (length (ps_heap s))"

section \<open>The ranking\<close>

definition entry_job :: "prio_entry \<Rightarrow> prio_job" where
  "entry_job e = (case e of (_, _, _, job) \<Rightarrow> job)"

definition entry_ok :: "prio_entry \<Rightarrow> bool" where
  "entry_ok e = (e = prio_entry_of (entry_job e))"

definition prio_rank :: "prio_job \<Rightarrow> int \<times> int \<times> string" where
  "prio_rank job = (- pj_priority job, pj_created_at job, pj_job_id job)"

lemma prio_rank_inj: "inj prio_rank"
  by (rule injI) (auto simp: prio_rank_def)

lemma entry_of_props [simp]: "entry_job (prio_entry_of j) = j" "entry_ok (prio_entry_of j)"
  by (simp_all add: entry_job_def entry_ok_def prio_entry_of_def)

lemma entry_compare_ok:
  "entry_ok a \<Longrightarrow> entry_ok b \<Longrightarrow>
   entry_compare a b = Inr (prio_rank (entry_job a) < prio_rank (entry_job b))"
  by (auto simp: entry_ok_def entry_job_def prio_entry_of_def prio_rank_def less_prod_simp
      split: prod.splits)

interpretation prio_heap: heap_order entry_lt "\<lambda>e. prio_rank (entry_job e)" entry_ok
  by unfold_locales (simp add: entry_lt_def entry_compare_ok)

definition prio_inv :: "priority_scheduler \<Rightarrow> bool" where
  "prio_inv s = (prio_heap.is_heap (ps_heap s) \<and> (\<forall>e \<in> set (ps_heap s). entry_ok e))"

definition prio_jobs :: "priority_scheduler \<Rightarrow> prio_job multiset" where
  "prio_jobs s = image_mset entry_job (mset (ps_heap s))"

lemma prio_enqueue_inv [wf_intros]: "prio_inv s \<Longrightarrow> prio_inv (prio_enqueue s job)"
proof -
  assume inv: "prio_inv s"
  have "set (heappush entry_lt (ps_heap s) (prio_entry_of job)) = insert (prio_entry_of job) (set (ps_heap s))"
    by (metis mset_heappush set_mset_mset set_mset_add_mset_insert)
  with inv show ?thesis
    by (auto simp: prio_inv_def prio_enqueue_def intro: prio_heap.heappush_heap)
qed

lemma prio_enqueue_jobs: "prio_jobs (prio_enqueue s job) = add_mset job (prio_jobs s)"
  by (simp add: prio_jobs_def prio_enqueue_def mset_heappush)

lemma prio_dequeue_least:
  assumes "prio_inv s" and "prio_jobs s \<noteq> {#}"
  shows "\<exists>x s'. prio_dequeue s = (Some x, s') \<and> prio_inv s' \<and> prio_jobs s = add_mset x (prio_jobs s') \<and>
     (\<forall>y \<in># prio_jobs s. prio_rank x \<le> prio_rank y)"
proof -
  let ?h = "ps_heap s"
  have ne: "?h \<noteq> []" using assms(2) by (auto simp: prio_jobs_def)
  obtain e h' where p: "heappop entry_lt ?h = Inr (e, h')" "e = ?h ! 0" "mset ?h = add_mset e (mset h')"
    using heappop_mset [OF ne, of entry_lt] by blast
  have inv: "prio_heap.is_heap ?h" "\<forall>e \<in> set ?h. entry_ok e" using assms(1) by (auto simp: prio_inv_def)
  have h': "prio_heap.is_heap h'" using prio_heap.heappop_heap [OF inv(1) ne inv(2) p(1)] by blast
  have sub: "set h' \<subseteq> set ?h" using p(3) by (metis set_mset_mset set_mset_add_mset_insert subset_insertI)
  let ?s = "s\<lparr>ps_heap := h'\<rparr>"
  have "prio_dequeue s = (Some (entry_job e), ?s)"
    using ne p(1) by (simp add: prio_dequeue_def entry_job_def split: prod.splits)
  moreover have "prio_inv ?s" using h' sub inv(2) by (auto simp: prio_inv_def)
  moreover have "prio_jobs s = add_mset (entry_job e) (prio_jobs ?s)" using p(3) by (simp add: prio_jobs_def)
  moreover have "prio_rank (entry_job e) \<le> prio_rank y" if "y \<in># prio_jobs s" for y
  proof -
    from that obtain i where "i < length ?h" "y = entry_job (?h ! i)"
      by (auto simp: prio_jobs_def in_set_conv_nth)
    then show ?thesis using prio_heap.is_heap_root [OF inv(1)] p(2) by simp
  qed
  ultimately show ?thesis by blast
qed

lemma prio_dequeue_empty: "prio_jobs s = {#} \<Longrightarrow> prio_dequeue s = (None, s)"
  by (simp add: prio_jobs_def prio_dequeue_def)

interpretation prio: priority_contract prio_enqueue prio_dequeue prio_jobs prio_inv prio_rank
  by unfold_locales
    (simp_all add: prio_enqueue_jobs prio_enqueue_inv prio_dequeue_least prio_dequeue_empty)

lemma prio_init_facts: "prio_inv prio_init" "prio_jobs prio_init = {#}"
  by (simp_all add: prio_init_def prio_inv_def prio_jobs_def prio_heap.is_heap_def)

lemma prio_peek_dequeue:
  assumes "prio_inv s" shows "prio_peek s = fst (prio_dequeue s)"
proof (cases "ps_heap s")
  case Nil
  then show ?thesis by (simp add: prio_peek_def prio_dequeue_def)
next
  case (Cons e es)
  then obtain h' where "heappop entry_lt (ps_heap s) = Inr (e, h')"
    using heappop_mset [of "ps_heap s" entry_lt] by auto
  then show ?thesis using Cons by (auto simp: prio_peek_def prio_dequeue_def split: prod.splits)
qed

text \<open>
  C27: \<open>PriorityScheduler\<close> is a correct priority queue. Whatever jobs are enqueued, dequeuing until
  empty returns exactly those jobs sorted by priority (highest first), then \<open>created_at\<close> (oldest
  first), then \<open>job_id\<close>; the heap is empty afterwards.
\<close>

theorem priority_scheduler_sorts:
  assumes "take_n prio_dequeue (length jobs) (foldl prio_enqueue prio_init jobs) = (out, s)"
  shows "out = sort_key prio_rank jobs \<and> ps_heap s = []"
proof -
  let ?q = "foldl prio_enqueue prio_init jobs"
  have q: "prio_inv ?q" "prio_jobs ?q = mset jobs"
    using prio.foldl_ins [OF prio_init_facts(1), of jobs] by (simp_all add: prio_init_facts)
  have "out = sort_key prio_rank jobs"
    by (rule prio.drain_is_sort [OF q(1) _ assms]) (simp_all add: q inj_on_subset [OF prio_rank_inj])
  moreover have "prio_jobs s = {#}"
    using prio.drain_sorted [OF q(1) _ assms] q(2) by simp
  ultimately show ?thesis by (simp add: prio_jobs_def)
qed

theorem priority_scheduler_sorts_witness:
  "let a = \<lparr>pj_job_id = ''a'', pj_priority = 1, pj_created_at = 5\<rparr>;
       b = \<lparr>pj_job_id = ''b'', pj_priority = 9, pj_created_at = 7\<rparr>;
       c = \<lparr>pj_job_id = ''c'', pj_priority = 9, pj_created_at = 6\<rparr>
   in fst (take_n prio_dequeue 3 (foldl prio_enqueue prio_init [a, b, c])) = [c, b, a]"
proof -
  let ?a = "\<lparr>pj_job_id = ''a'', pj_priority = 1, pj_created_at = 5\<rparr>"
  let ?b = "\<lparr>pj_job_id = ''b'', pj_priority = 9, pj_created_at = 7\<rparr>"
  let ?c = "\<lparr>pj_job_id = ''c'', pj_priority = 9, pj_created_at = 6\<rparr>"
  obtain out s where r: "take_n prio_dequeue (length [?a, ?b, ?c])
      (foldl prio_enqueue prio_init [?a, ?b, ?c]) = (out, s)" by fastforce
  have "out = [?c, ?b, ?a]"
    using priority_scheduler_sorts [OF r] by (simp add: prio_rank_def insort_key_def)
  with r show ?thesis by (simp add: numeral_3_eq_3)
qed

text \<open>
  In every state reachable by enqueuing and dequeuing, the comparison of two heap entries
  never falls through to comparing two \<open>Job\<close> objects (the \<open>TypeError\<close> branch), \<open>peek\<close> shows the
  job that \<open>dequeue\<close> returns next and leaves the scheduler alone, and \<open>dequeue\<close> returns \<open>None\<close>
  exactly when \<open>size\<close> is 0.
\<close>

inductive prio_reachable :: "priority_scheduler \<Rightarrow> bool" where
  prio_start: "prio_reachable prio_init"
| prio_enq: "prio_reachable s \<Longrightarrow> prio_reachable (prio_enqueue s job)"
| prio_deq: "prio_reachable s \<Longrightarrow> prio_reachable (snd (prio_dequeue s))"

lemma prio_reachable_inv: "prio_reachable s \<Longrightarrow> prio_inv s"
proof (induction rule: prio_reachable.induct)
  case (prio_deq s)
  then show ?case
    using prio.pop_least [of s] prio.pop_empty [of s] by (cases "prio_jobs s = {#}") auto
qed (simp_all add: prio_init_facts prio_enqueue_inv)

theorem priority_scheduler_safe:
  assumes "prio_reachable s"
  shows "(\<forall>a \<in> set (ps_heap s). \<forall>b \<in> set (ps_heap s). \<exists>r. entry_compare a b = Inr r) \<and>
    prio_peek s = fst (prio_dequeue s) \<and>
    (fst (prio_dequeue s) = None \<longleftrightarrow> prio_size s = 0)"
proof -
  have inv: "prio_inv s" using assms by (rule prio_reachable_inv)
  have "fst (prio_dequeue s) = None \<longleftrightarrow> prio_jobs s = {#}"
    using prio.pop_least [OF inv] prio.pop_empty [OF inv] by (cases "prio_jobs s = {#}") auto
  then show ?thesis
    using inv prio_peek_dequeue [OF inv] entry_compare_ok
    by (auto simp: prio_inv_def prio_jobs_def prio_size_def)
qed

theorem priority_scheduler_safe_witness:
  "let s = prio_enqueue prio_init \<lparr>pj_job_id = ''a'', pj_priority = 1, pj_created_at = 5\<rparr>
   in prio_reachable s \<and> prio_peek s = fst (prio_dequeue s)"
  using priority_scheduler_safe [OF prio_enq [OF prio_start]] prio_enq [OF prio_start]
  by (simp add: Let_def)

end
