(* ===== verification/Weight_Cycle.thy ===== *)
theory Weight_Cycle
  imports Prelude
begin

text \<open>
  The helpers \<open>_gcd_of_weights\<close> and \<open>_build_weight_cycle\<close> of \<open>kernelq/scheduler_weighted_rr.py\<close>.
  \<open>reduce\<close> on an empty list raises \<open>TypeError\<close> and \<open>//\<close> by zero raises
  \<open>ZeroDivisionError\<close>; both are branches here, and with positive weights neither is taken.
\<close>

definition gcd_of_weights :: "int list \<Rightarrow> int result" where
  "gcd_of_weights ws =
     (case ws of
        [] \<Rightarrow> Inl (TypeError ''reduce() of empty iterable with no initial value'')
      | w # rest \<Rightarrow> Inr (foldl gcd w rest))"

definition build_weight_cycle :: "(string, int) dict \<Rightarrow> string list result" where
  "build_weight_cycle weights =
     bind_res (gcd_of_weights (map snd weights)) (\<lambda>g.
       if g = 0 then Inl ZeroDivisionError
       else
         (let reduced = map (\<lambda>(tid, w). (tid, w div g)) weights
          in Inr (foldl (\<lambda>lap (tid, w). lap @ replicate (nat w) tid) [] reduced)))"

definition positive_weights :: "(string, int) dict \<Rightarrow> bool" where
  "positive_weights weights = (weights \<noteq> [] \<and> dict_wf weights \<and> (\<forall>(t, w) \<in> set weights. 0 < w))"

section \<open>The greatest common divisor\<close>

lemma foldl_gcd: "0 \<le> a \<Longrightarrow> foldl gcd a ws = gcd a (Gcd (set ws) :: int)"
  by (induction ws arbitrary: a) (simp_all add: gcd.assoc)

lemma gcd_of_weights_Gcd:
  "ws \<noteq> [] \<Longrightarrow> \<forall>w \<in> set ws. 0 \<le> w \<Longrightarrow> gcd_of_weights ws = Inr (Gcd (set ws))"
  by (cases ws) (simp_all add: gcd_of_weights_def foldl_gcd)

section \<open>The cycle\<close>

lemma foldl_lap:
  "foldl (\<lambda>lap (tid, w). lap @ replicate (nat w) tid) lap ws =
   lap @ concat (map (\<lambda>(tid, w). replicate (nat w) tid) ws)"
  by (induction ws arbitrary: lap) auto

lemma count_list_replicate: "count_list (replicate n x) y = (if x = y then n else 0)"
  by (induction n) auto

lemma count_list_concat_replicate:
  "dict_wf ws \<Longrightarrow> count_list (concat (map (\<lambda>(tid, w). replicate (f w) tid) ws)) t =
     (case dict_get ws t of None \<Rightarrow> 0 | Some w \<Rightarrow> f w)"
proof (induction ws)
  case Nil
  then show ?case by (simp add: dict_get_def)
next
  case (Cons p ws)
  obtain u w where p: "p = (u, w)" by fastforce
  have ih: "count_list (concat (map (\<lambda>(tid, w). replicate (f w) tid) ws)) t =
      (case dict_get ws t of None \<Rightarrow> 0 | Some w \<Rightarrow> f w)"
    using Cons by (simp add: dict_wf_def dict_keys_def)
  have "u = t \<Longrightarrow> dict_get ws t = None"
    using Cons.prems p by (auto simp: dict_wf_def dict_get_eq_None dict_keys_def)
  with ih p show ?case by (cases "u = t") (simp_all add: count_list_replicate dict_get_def)
qed

definition weights_gcd :: "(string, int) dict \<Rightarrow> int" where
  "weights_gcd weights = Gcd (snd ` set weights)"

lemma weights_gcd_facts:
  assumes "positive_weights weights"
  shows "0 < weights_gcd weights"
    and "(t, w) \<in> set weights \<Longrightarrow> weights_gcd weights * (w div weights_gcd weights) = w"
    and "(t, w) \<in> set weights \<Longrightarrow> 0 < w div weights_gcd weights"
proof -
  let ?g = "weights_gcd weights"
  have dvd: "?g dvd w" if "(t, w) \<in> set weights" for t w
    unfolding weights_gcd_def using that by (intro Gcd_dvd) force
  obtain t0 w0 where w0: "(t0, w0) \<in> set weights" "0 < w0"
    using assms by (cases weights) (auto simp: positive_weights_def)
  have "?g \<noteq> 0" using dvd [OF w0(1)] w0(2) by auto
  moreover have "0 \<le> ?g" by (simp add: weights_gcd_def)
  ultimately show g: "0 < ?g" by simp
  show "?g * (w div ?g) = w" if "(t, w) \<in> set weights" using dvd [OF that] by simp
  show "0 < w div ?g" if "(t, w) \<in> set weights"
    using dvd [OF that] that g assms by (auto simp: positive_weights_def pos_imp_zdiv_pos_iff dvd_imp_le zdvd_imp_le)
qed

lemma build_weight_cycle_ok:
  assumes "positive_weights weights"
  shows "build_weight_cycle weights =
     Inr (concat (map (\<lambda>(tid, w). replicate (nat (w div weights_gcd weights)) tid) weights))"
proof -
  have "gcd_of_weights (map snd weights) = Inr (weights_gcd weights)"
    using assms by (subst gcd_of_weights_Gcd) (auto simp: weights_gcd_def positive_weights_def)
  moreover have "foldl (\<lambda>lap (tid, w). lap @ replicate (nat w) tid) [] (map (\<lambda>(tid, w). (tid, w div g)) ws) =
      concat (map (\<lambda>(tid, w). replicate (nat (w div g)) tid) ws)" for g and ws :: "(string, int) dict"
    unfolding foldl_lap by (induction ws) auto
  ultimately show ?thesis
    using weights_gcd_facts(1) [OF assms] by (simp add: build_weight_cycle_def)
qed

text \<open>Every tenant has \<open>weight / gcd\<close> slots in the cycle, and only the tenants have slots.\<close>

lemma cycle_slots:
  assumes "positive_weights weights" and "build_weight_cycle weights = Inr cycle"
  shows "count_list cycle t = (case dict_get weights t of None \<Rightarrow> 0 | Some w \<Rightarrow> nat (w div weights_gcd weights))"
  using assms build_weight_cycle_ok [OF assms(1)]
    count_list_concat_replicate [of weights "\<lambda>w. nat (w div weights_gcd weights)" t]
  by (simp add: positive_weights_def)

lemma cycle_slots_mem:
  assumes "positive_weights weights" "build_weight_cycle weights = Inr cycle" "(t, w) \<in> set weights"
  shows "int (count_list cycle t) = w div weights_gcd weights"
proof -
  have "map_of weights t = Some w" using assms(1,3) by (simp add: positive_weights_def dict_wf_def dict_keys_def)
  moreover have "0 \<le> w div weights_gcd weights" using weights_gcd_facts(3) [OF assms(1,3)] by simp
  ultimately show ?thesis using cycle_slots [OF assms(1,2), of t] by (simp add: dict_get_def)
qed

lemma cycle_slots_le:
  assumes "positive_weights weights" "build_weight_cycle weights = Inr cycle"
    and "\<forall>(u, w) \<in> set weights. w div weights_gcd weights \<le> int (n u)"
  shows "count_list cycle u \<le> n u"
  using cycle_slots [OF assms(1,2), of u] assms(3) map_of_SomeD [of weights u]
  by (fastforce simp: dict_get_def split: option.splits)

lemma cycle_set:
  assumes "positive_weights weights" and "build_weight_cycle weights = Inr cycle"
  shows "set cycle = set (dict_keys weights)" and "cycle \<noteq> []"
proof -
  have "t \<in> set cycle \<longleftrightarrow> t \<in> set (dict_keys weights)" for t
  proof (cases "dict_get weights t")
    case None
    then have "count_list cycle t = 0" using cycle_slots [OF assms, of t] by simp
    moreover have "t \<notin> set (dict_keys weights)" using None by (simp add: dict_get_eq_None)
    ultimately show ?thesis by (simp add: count_list_0_iff)
  next
    case (Some w)
    then have "(t, w) \<in> set weights" by (simp add: dict_get_def map_of_SomeD)
    then have "0 < count_list cycle t"
      using cycle_slots [OF assms, of t] Some weights_gcd_facts(3) [OF assms(1)] by simp
    then have "t \<in> set cycle" by (metis count_list_0_iff less_irrefl)
    moreover have "t \<in> set (dict_keys weights)" using Some by (metis dict_get_eq_None option.distinct(1))
    ultimately show ?thesis by simp
  qed
  then show s: "set cycle = set (dict_keys weights)" by blast
  show "cycle \<noteq> []" using s assms(1) by (auto simp: positive_weights_def dict_keys_def)
qed

text \<open>
  \<open>_build_weight_cycle\<close> is proportional to the weights. For positive weights it raises
  nothing, gives every tenant at least one slot, and the slots of any two tenants are in exactly
  the ratio of their weights; no shorter cycle with that property exists, because the slot
  counts have no common divisor but 1.
\<close>

theorem weight_cycle_proportional:
  assumes "positive_weights weights"
  shows "\<exists>cycle. build_weight_cycle weights = Inr cycle \<and>
     (\<forall>(t, w) \<in> set weights. 0 < count_list cycle t) \<and>
     (\<forall>(t, w) \<in> set weights. \<forall>(u, v) \<in> set weights.
        int (count_list cycle t) * v = int (count_list cycle u) * w) \<and>
     Gcd (count_list cycle ` set (dict_keys weights)) = 1"
proof -
  let ?g = "weights_gcd weights"
  obtain cycle where c: "build_weight_cycle weights = Inr cycle" using build_weight_cycle_ok [OF assms] by blast
  have wf: "dict_wf weights" and ne: "weights \<noteq> []" using assms by (auto simp: positive_weights_def)
  have n: "int (count_list cycle t) = w div ?g" if "(t, w) \<in> set weights" for t w
    by (rule cycle_slots_mem [OF assms c that])
  have ratio: "int (count_list cycle t) * v = int (count_list cycle u) * w"
    if "(t, w) \<in> set weights" "(u, v) \<in> set weights" for t w u v
  proof -
    have "w div ?g * (?g * (v div ?g)) = v div ?g * (?g * (w div ?g))" by simp
    then show ?thesis using n that weights_gcd_facts(2) [OF assms] by simp
  qed
  have "Gcd ((\<lambda>(t, w). w div ?g) ` set weights) = 1"
  proof -
    have "?g = Gcd ((\<lambda>x. ?g * x) ` ((\<lambda>(t, w). w div ?g) ` set weights))"
      unfolding image_image using weights_gcd_facts(2) [OF assms]
      by (auto simp: weights_gcd_def intro!: arg_cong [of _ _ Gcd] image_cong)
    also have "\<dots> = ?g * Gcd ((\<lambda>(t, w). w div ?g) ` set weights)"
      using weights_gcd_facts(1) [OF assms] by (simp add: Gcd_mult abs_mult)
    finally show ?thesis using weights_gcd_facts(1) [OF assms] by simp
  qed
  moreover have "(\<lambda>(t, w). w div ?g) ` set weights = int ` (count_list cycle ` set (dict_keys weights))"
    using n by (force simp: dict_keys_def image_image)
  ultimately have "Gcd (count_list cycle ` set (dict_keys weights)) = 1"
    by (metis Gcd_int_eq of_nat_1 of_nat_eq_iff)
  moreover have "0 < count_list cycle t" if "(t, w) \<in> set weights" for t w
    using n [OF that] weights_gcd_facts(3) [OF assms that] by simp
  then have "\<forall>(t, w) \<in> set weights. 0 < count_list cycle t" by blast
  moreover have "\<forall>(t, w) \<in> set weights. \<forall>(u, v) \<in> set weights.
      int (count_list cycle t) * v = int (count_list cycle u) * w" using ratio by blast
  ultimately show ?thesis using c by blast
qed

theorem weight_cycle_proportional_witness:
  "positive_weights [(''a'', 4), (''b'', 2)] \<and>
   (\<exists>cycle. build_weight_cycle [(''a'', 4), (''b'', 2)] = Inr cycle \<and>
      int (count_list cycle ''a'') * 2 = int (count_list cycle ''b'') * 4)"
proof -
  have p: "positive_weights [(''a'', 4), (''b'', 2)]"
    by (simp add: positive_weights_def dict_wf_def dict_keys_def)
  show ?thesis using weight_cycle_proportional [OF p] p by auto
qed

end
