(* ===== verification/Turn_Interface.thy ===== *)
theory Turn_Interface
  imports Priority_Interface
begin

text \<open>
  Taking turns along a fixed cycle of tenants. The scan looks at up to one full lap of the cycle
  from the current position and stops at the first tenant with waiting jobs; the position moves
  past the slot it stopped at. \<open>WeightedRoundRobinScheduler\<close> and \<open>ComposedScheduler\<close> both take
  turns this way and differ only in which of a tenant's jobs they hand out; the locale
  \<open>turn_contract\<close> holds what follows from the turns alone.
\<close>

fun scan_cycle :: "'t list \<Rightarrow> ('t \<Rightarrow> bool) \<Rightarrow> nat \<Rightarrow> nat \<Rightarrow> 't option \<times> nat" where
  "scan_cycle cycle busy 0 pos = (None, pos)"
| "scan_cycle cycle busy (Suc k) pos =
     (let t = cycle ! pos; pos' = (pos + 1) mod length cycle in
      if busy t then (Some t, pos') else scan_cycle cycle busy k pos')"

lemma mod_Suc_shift: "0 < n \<Longrightarrow> ((pos + 1) mod n + i) mod n = (pos + Suc i) mod (n :: nat)"
  by (metis add.assoc mod_add_left_eq plus_1_eq_Suc)

lemma scan_cycle_finds:
  assumes "cycle \<noteq> []" and "d < k" and "busy (cycle ! ((pos + d) mod length cycle))"
    and "\<And>i. i < d \<Longrightarrow> \<not> busy (cycle ! ((pos + i) mod length cycle))"
    and "pos < length cycle"
  shows "scan_cycle cycle busy k pos =
     (Some (cycle ! ((pos + d) mod length cycle)), (pos + d + 1) mod length cycle)"
  using assms(2-)
proof (induction k arbitrary: pos d)
  case 0
  then show ?case by simp
next
  case (Suc k)
  show ?case
  proof (cases d)
    case 0
    with Suc.prems show ?thesis by (simp add: Let_def)
  next
    case (Suc e)
    let ?n = "length cycle" and ?p = "(pos + 1) mod length cycle"
    have n: "0 < ?n" using assms(1) by simp
    have "\<not> busy (cycle ! pos)" using Suc.prems(3) [of 0] Suc Suc.prems(4) by simp
    then have "scan_cycle cycle busy (Suc k) pos = scan_cycle cycle busy k ?p" by (simp add: Let_def)
    also have "\<dots> = (Some (cycle ! ((?p + e) mod ?n)), (?p + e + 1) mod ?n)"
    proof (rule Suc.IH)
      show "e < k" using Suc.prems(1) Suc by simp
      show "busy (cycle ! ((?p + e) mod ?n))" using Suc.prems(2) Suc mod_Suc_shift [OF n] by simp
      show "?p < ?n" using n by simp
      fix i assume "i < e"
      then show "\<not> busy (cycle ! ((?p + i) mod ?n))" using Suc.prems(3) [of "Suc i"] Suc mod_Suc_shift [OF n] by simp
    qed
    also have "(?p + e) mod ?n = (pos + d) mod ?n" using Suc mod_Suc_shift [OF n] by simp
    also have "(?p + e + 1) mod ?n = (pos + d + 1) mod ?n"
      using Suc mod_Suc_shift [OF n, of pos "Suc e"] by simp
    finally show ?thesis .
  qed
qed

text \<open>If any tenant of the cycle is busy, the distance to the first busy slot is below one lap.\<close>

lemma slot_offset:
  assumes "j < n" "pos < (n :: nat)" obtains i where "i < n" "(pos + i) mod n = j"
proof (cases "pos \<le> j")
  case True
  with assms show ?thesis by (intro that [of "j - pos"]) auto
next
  case False
  with assms have "(pos + (n - pos + j)) mod n = j" by simp
  with False assms show ?thesis by (intro that [of "n - pos + j"]) auto
qed

lemma first_busy_slot:
  assumes "t \<in> set cycle" "busy t" "pos < length cycle"
  obtains d where "d < length cycle" "busy (cycle ! ((pos + d) mod length cycle))"
    "\<And>i. i < d \<Longrightarrow> \<not> busy (cycle ! ((pos + i) mod length cycle))"
    "\<And>i. i < length cycle \<Longrightarrow> cycle ! ((pos + i) mod length cycle) = t \<Longrightarrow> d \<le> i"
proof -
  let ?n = "length cycle"
  let ?P = "\<lambda>i. busy (cycle ! ((pos + i) mod ?n))"
  obtain j where j: "j < ?n" "cycle ! j = t" using assms(1) by (metis in_set_conv_nth)
  obtain i where i: "i < ?n" "(pos + i) mod ?n = j" using slot_offset [OF j(1) assms(3)] .
  then have P: "?P i" using j assms(2) by simp
  define d where "d = (LEAST i. ?P i)"
  have "?P d" unfolding d_def using P by (rule LeastI)
  moreover have least: "d \<le> k" if "?P k" for k unfolding d_def using that by (rule Least_le)
  moreover have "d < ?n" using least [OF P] i(1) by simp
  ultimately show ?thesis using assms(2) by (intro that [of d]) (auto simp: not_less [symmetric])
qed

section \<open>The contract\<close>

locale turn_contract =
  fixes cycle :: "'s \<Rightarrow> 't list" and pos :: "'s \<Rightarrow> nat" and backlog :: "'s \<Rightarrow> 't \<Rightarrow> nat"
    and deq :: "'s \<Rightarrow> 'j option \<times> 's" and tenant_of :: "'j \<Rightarrow> 't" and invar :: "'s \<Rightarrow> bool"
  assumes cycle_ne: "invar s \<Longrightarrow> cycle s \<noteq> []"
    and pos_less: "invar s \<Longrightarrow> pos s < length (cycle s)"
    and backlog_in_cycle: "invar s \<Longrightarrow> 0 < backlog s t \<Longrightarrow> t \<in> set (cycle s)"
    and deq_idle: "invar s \<Longrightarrow> \<forall>t. backlog s t = 0 \<Longrightarrow> deq s = (None, s)"
    and deq_turn: "invar s \<Longrightarrow> 0 < backlog s u \<Longrightarrow>
      scan_cycle (cycle s) (\<lambda>t. 0 < backlog s t) (length (cycle s)) (pos s) = (Some t, p) \<Longrightarrow>
      \<exists>x s'. deq s = (Some x, s') \<and> tenant_of x = t \<and> cycle s' = cycle s \<and> pos s' = p \<and>
        backlog s' = (backlog s)(t := backlog s t - 1) \<and> invar s'"
begin

text \<open>One dequeue with work waiting: the slot it stops at and the next state.\<close>

lemma deq_slot:
  assumes "invar s" "0 < backlog s u"
  obtains d x s' where "d < length (cycle s)" "deq s = (Some x, s')"
    "tenant_of x = cycle s ! ((pos s + d) mod length (cycle s))" "0 < backlog s (tenant_of x)"
    "\<And>i. i < d \<Longrightarrow> backlog s (cycle s ! ((pos s + i) mod length (cycle s))) = 0"
    "\<And>i. i < length (cycle s) \<Longrightarrow> cycle s ! ((pos s + i) mod length (cycle s)) = u \<Longrightarrow> d \<le> i"
    "cycle s' = cycle s" "pos s' = (pos s + d + 1) mod length (cycle s)"
    "backlog s' = (backlog s)(tenant_of x := backlog s (tenant_of x) - 1)" "invar s'"
proof -
  let ?n = "length (cycle s)" and ?b = "\<lambda>t. 0 < backlog s t"
  obtain d where d: "d < ?n" "?b (cycle s ! ((pos s + d) mod ?n))"
    "\<And>i. i < d \<Longrightarrow> \<not> ?b (cycle s ! ((pos s + i) mod ?n))"
    "\<And>i. i < ?n \<Longrightarrow> cycle s ! ((pos s + i) mod ?n) = u \<Longrightarrow> d \<le> i"
    using first_busy_slot [of u "cycle s" ?b "pos s"] backlog_in_cycle [OF assms] pos_less [OF assms(1)] assms(2)
    by blast
  have "scan_cycle (cycle s) ?b ?n (pos s) =
      (Some (cycle s ! ((pos s + d) mod ?n)), (pos s + d + 1) mod ?n)"
    using scan_cycle_finds [of "cycle s" d ?n ?b "pos s"] cycle_ne [OF assms(1)] d pos_less [OF assms(1)] by blast
  from deq_turn [OF assms this] obtain x s' where
    x: "deq s = (Some x, s')" "tenant_of x = cycle s ! ((pos s + d) mod ?n)" "cycle s' = cycle s"
    "pos s' = (pos s + d + 1) mod ?n" "backlog s' = (backlog s)(tenant_of x := backlog s (tenant_of x) - 1)"
    "invar s'" by metis
  show ?thesis
    by (rule that [OF d(1) x(1,2) _ _ d(4) x(3-6)]) (use d x(2) in auto)
qed

lemma deq_work_conserving: "invar s \<Longrightarrow> fst (deq s) = None \<longleftrightarrow> (\<forall>t. backlog s t = 0)"
  by (metis deq_idle deq_slot fst_conv gr0I option.distinct(1))

text \<open>
  No starvation: a tenant with a waiting job whose next slot is \<open>d\<close> steps ahead is served within
  the next \<open>d + 1\<close> dequeues.
\<close>

lemma served_within:
  assumes "invar s" "0 < backlog s t" "d < length (cycle s)"
    and "cycle s ! ((pos s + d) mod length (cycle s)) = t" and "d < m"
    and "take_n deq m s = (xs, s')"
  shows "\<exists>k \<le> d. k < length xs \<and> tenant_of (xs ! k) = t"
  using assms
proof (induction d arbitrary: s m xs rule: less_induct)
  case (less d)
  let ?n = "length (cycle s)"
  obtain e x s1 where e: "e < ?n" "deq s = (Some x, s1)"
    "tenant_of x = cycle s ! ((pos s + e) mod ?n)"
    "\<And>i. i < ?n \<Longrightarrow> cycle s ! ((pos s + i) mod ?n) = t \<Longrightarrow> e \<le> i"
    "cycle s1 = cycle s" "pos s1 = (pos s + e + 1) mod ?n"
    "backlog s1 = (backlog s)(tenant_of x := backlog s (tenant_of x) - 1)" "invar s1"
    using deq_slot [OF less.prems(1,2)] by metis
  obtain m' where m: "m = Suc m'" using less.prems(5) by (cases m) auto
  obtain ys where ys: "take_n deq m' s1 = (ys, s')" "xs = x # ys"
    using less.prems(6) m e(2) by (auto split: prod.splits)
  show ?case
  proof (cases "tenant_of x = t")
    case True
    then show ?thesis using ys by (intro exI [of _ 0]) simp
  next
    case False
    have "e \<le> d" using e(4) less.prems(3,4) by blast
    with False e(3) less.prems(4) have ed: "e < d" by (metis le_neq_implies_less)
    let ?d = "d - e - 1"
    have "((pos s + e + 1) mod ?n + ?d) mod ?n = (pos s + e + 1 + ?d) mod ?n" by (rule mod_add_left_eq)
    then have "cycle s1 ! ((pos s1 + ?d) mod length (cycle s1)) = t" using e(5,6) less.prems(4) ed by simp
    moreover have "0 < backlog s1 t" using e(7) False less.prems(2) by simp
    ultimately have "\<exists>k \<le> ?d. k < length ys \<and> tenant_of (ys ! k) = t"
      using less.IH [of ?d s1 m' ys] ed e(5,8) less.prems(3,5) ys(1) m by simp
    then obtain k where "k \<le> ?d" "k < length ys" "tenant_of (ys ! k) = t" by blast
    then show ?thesis using ys(2) ed by (intro exI [of _ "Suc k"]) simp
  qed
qed

lemma served_within_lap:
  assumes "invar s" "0 < backlog s t" "take_n deq (length (cycle s)) s = (xs, s')"
  shows "t \<in> tenant_of ` set xs"
proof -
  obtain j where j: "j < length (cycle s)" "cycle s ! j = t"
    using backlog_in_cycle [OF assms(1,2)] by (metis in_set_conv_nth)
  obtain d where "d < length (cycle s)" "(pos s + d) mod length (cycle s) = j"
    using slot_offset [OF j(1) pos_less [OF assms(1)]] .
  with served_within [OF assms(1,2) _ _ _ assms(3), of d] j(2) show ?thesis by (metis image_eqI nth_mem)
qed

text \<open>With enough work waiting, the turns follow the cycle slot by slot.\<close>

lemma turns_follow_cycle:
  assumes "invar s"
    and "\<And>t. count_list (map (\<lambda>i. cycle s ! ((pos s + i) mod length (cycle s))) [0..<m]) t \<le> backlog s t"
    and "take_n deq m s = (xs, s')"
  shows "map tenant_of xs = map (\<lambda>i. cycle s ! ((pos s + i) mod length (cycle s))) [0..<m]"
  using assms
proof (induction m arbitrary: s xs)
  case 0
  then show ?case by simp
next
  case (Suc m)
  let ?n = "length (cycle s)"
  let ?slot = "\<lambda>i. cycle s ! ((pos s + i) mod ?n)"
  have up: "[0..<Suc m] = 0 # map Suc [0..<m]" by (simp add: map_Suc_upt upt_conv_Cons del: upt_Suc)
  have p: "pos s mod ?n = pos s" using pos_less [OF Suc.prems(1)] by simp
  have b0: "0 < backlog s (?slot 0)"
    using Suc.prems(2) [of "?slot 0"] unfolding up by simp
  obtain e x s1 where e: "e < ?n" "deq s = (Some x, s1)" "tenant_of x = ?slot e"
    "\<And>i. i < ?n \<Longrightarrow> ?slot i = ?slot 0 \<Longrightarrow> e \<le> i" "cycle s1 = cycle s" "pos s1 = (pos s + e + 1) mod ?n"
    "backlog s1 = (backlog s)(tenant_of x := backlog s (tenant_of x) - 1)" "invar s1"
    using deq_slot [OF Suc.prems(1) b0] by metis
  have n: "0 < ?n" using e(1) by linarith
  have "e = 0" using e(4) [of 0] n by simp
  have shift: "cycle s1 ! ((pos s1 + i) mod length (cycle s1)) = ?slot (Suc i)" for i
    using e(5,6) \<open>e = 0\<close> mod_Suc_shift [OF n, of "pos s" i] by simp
  obtain ys where ys: "take_n deq m s1 = (ys, s')" "xs = x # ys"
    using Suc.prems(3) e(2) by (auto split: prod.splits)
  have "count_list (map (\<lambda>i. ?slot (Suc i)) [0..<m]) t \<le> backlog s1 t" for t
    using Suc.prems(2) [of t] e(3,7) \<open>e = 0\<close> unfolding up by (auto simp: comp_def split: if_splits)
  then have "map tenant_of ys = map (\<lambda>i. ?slot (Suc i)) [0..<m]"
    using Suc.IH [OF e(8) _ ys(1)] shift by simp
  then show ?case unfolding up using ys(2) e(3) \<open>e = 0\<close> by (simp add: comp_def)
qed

lemma rotated_lap:
  assumes "p < length c"
  shows "count_list (map (\<lambda>i. c ! ((p + i) mod length c)) [0..<length c]) t = count_list c t"
proof -
  have "map (\<lambda>i. c ! ((p + i) mod length c)) [0..<length c] = rotate p c"
    by (rule nth_equalityI) (auto simp: nth_rotate add.commute)
  also have "\<dots> = drop p c @ take p c" using assms by (simp add: rotate_drop_take)
  finally have "count_list (map (\<lambda>i. c ! ((p + i) mod length c)) [0..<length c]) t =
      count_list (take p c @ drop p c) t" by (simp del: append_take_drop_id)
  then show ?thesis by simp
qed

text \<open>A full lap with enough work waiting serves each tenant once per slot it has in the cycle.\<close>

lemma lap_fair:
  assumes "invar s" and "\<And>t. count_list (cycle s) t \<le> backlog s t"
    and "take_n deq (length (cycle s)) s = (xs, s')"
  shows "count_list (map tenant_of xs) t = count_list (cycle s) t"
proof -
  let ?c = "cycle s"
  note rot = rotated_lap [OF pos_less [OF assms(1)]]
  have "map tenant_of xs = map (\<lambda>i. ?c ! ((pos s + i) mod length ?c)) [0..<length ?c]"
    by (rule turns_follow_cycle [OF assms(1) _ assms(3)]) (simp add: rot assms(2))
  then show ?thesis by (simp add: rot)
qed

lemma lap_full:
  assumes "invar s" and "\<And>t. count_list (cycle s) t \<le> backlog s t"
    and "take_n deq (length (cycle s)) s = (xs, s')"
  shows "length xs = length (cycle s)"
proof -
  have "map tenant_of xs = map (\<lambda>i. cycle s ! ((pos s + i) mod length (cycle s))) [0..<length (cycle s)]"
    by (rule turns_follow_cycle [OF assms(1) _ assms(3)]) (simp add: rotated_lap [OF pos_less [OF assms(1)]] assms(2))
  then show ?thesis by (metis length_map length_upt minus_nat.diff_0)
qed

end

end
