(* ===== verification/Tenant_Queues.thy ===== *)
theory Tenant_Queues
  imports Weight_Cycle Turn_Interface
begin

text \<open>
  The dict of per-tenant queues that \<open>WeightedRoundRobinScheduler\<close> and \<open>ComposedScheduler\<close> both
  keep: the jobs of a tenant, the total number of jobs, and the invariant that ties the dict to
  the cycle and its position. The library of the two schedulers' theories.
\<close>

definition tenant_jobs :: "(string, 'j list) dict \<Rightarrow> string \<Rightarrow> 'j list" where
  "tenant_jobs d t = (case dict_get d t of None \<Rightarrow> [] | Some js \<Rightarrow> js)"

definition total_jobs :: "(string, 'j list) dict \<Rightarrow> nat" where
  "total_jobs d = (\<Sum>(t, js) \<leftarrow> d. length js)"

definition turn_wf :: "string list \<Rightarrow> nat \<Rightarrow> (string, 'j list) dict \<Rightarrow> bool" where
  "turn_wf cycle pos d \<longleftrightarrow> pos < length cycle \<and> dict_wf d \<and> set cycle = set (dict_keys d)"

definition jobs_tagged :: "('j \<Rightarrow> string) \<Rightarrow> (string, 'j list) dict \<Rightarrow> bool" where
  "jobs_tagged tenant d \<longleftrightarrow> (\<forall>t. \<forall>j \<in> set (tenant_jobs d t). tenant j = t)"

lemma tenant_jobs_set [simp]:
  "tenant_jobs (dict_set t js d) u = (if u = t then js else tenant_jobs d u)"
  by (simp add: tenant_jobs_def)

lemma tenant_jobs_Some: "dict_get d t = Some js \<Longrightarrow> tenant_jobs d t = js"
  by (simp add: tenant_jobs_def)

lemma dict_get_key: "t \<in> set (dict_keys d) \<Longrightarrow> dict_get d t = Some (tenant_jobs d t)"
  by (auto simp: tenant_jobs_def dict_get_eq_None split: option.splits)

lemma tenant_jobs_key: "tenant_jobs d t \<noteq> [] \<Longrightarrow> t \<in> set (dict_keys d)"
  by (metis dict_get_eq_None option.simps(4) tenant_jobs_def)

lemma dict_get_Some_key: "dict_get d k = Some v \<Longrightarrow> k \<in> set (dict_keys d)"
  by (metis dict_get_eq_None option.distinct(1))

lemma jobs_tagged_set:
  "jobs_tagged tenant d \<Longrightarrow> \<forall>j \<in> set js. tenant j = t \<Longrightarrow> jobs_tagged tenant (dict_set t js d)"
  by (simp add: jobs_tagged_def)

lemma jobs_tagged_D: "jobs_tagged tenant d \<Longrightarrow> j \<in> set (tenant_jobs d t) \<Longrightarrow> tenant j = t"
  by (simp add: jobs_tagged_def)

lemma total_jobs_set:
  assumes "t \<in> set (dict_keys d)"
  shows "total_jobs (dict_set t js d) + length (tenant_jobs d t) = total_jobs d + length js"
  using dict_sum_set [OF dict_get_key [OF assms], where w = js and f = length] by (simp add: total_jobs_def)

text \<open>All the waiting jobs, as a multiset.\<close>

definition all_jobs :: "(string, 'j list) dict \<Rightarrow> 'j multiset" where
  "all_jobs d = (\<Sum>(t, js) \<leftarrow> d. mset js)"

lemma size_all_jobs [simp]: "size (all_jobs d) = total_jobs d"
  by (induction d) (auto simp: all_jobs_def total_jobs_def)

lemma all_jobs_set:
  assumes "t \<in> set (dict_keys d)"
  shows "all_jobs (dict_set t js d) + mset (tenant_jobs d t) = all_jobs d + mset js"
  using dict_sum_set [OF dict_get_key [OF assms], where w = js and f = mset] by (simp add: all_jobs_def)

lemma all_jobs_add:
  "t \<in> set (dict_keys d) \<Longrightarrow> all_jobs (dict_set t (tenant_jobs d t @ [j]) d) = add_mset j (all_jobs d)"
  using all_jobs_set [of t d "tenant_jobs d t @ [j]"] by simp

lemma all_jobs_remove:
  "t \<in> set (dict_keys d) \<Longrightarrow> mset (tenant_jobs d t) = add_mset j (mset js) \<Longrightarrow>
   all_jobs d = add_mset j (all_jobs (dict_set t js d))"
  using all_jobs_set [of t d js] by simp

lemma all_jobs_init [simp]: "all_jobs (map (\<lambda>(tid, w). (tid, [])) weights) = {#}"
  by (induction weights) (auto simp: all_jobs_def)

lemma total_jobs_0_iff:
  assumes "dict_wf d" shows "total_jobs d = 0 \<longleftrightarrow> (\<forall>t. tenant_jobs d t = [])"
proof -
  have "total_jobs d = 0 \<longleftrightarrow> (\<forall>(t, js) \<in> set d. js = [])" by (auto simp: total_jobs_def)
  also have "\<dots> \<longleftrightarrow> (\<forall>t. tenant_jobs d t = [])"
  proof
    assume all: "\<forall>(t, js) \<in> set d. js = []"
    show "\<forall>t. tenant_jobs d t = []"
    proof
      fix t
      have "dict_get d t = Some js \<Longrightarrow> js = []" for js
        using all map_of_SomeD [of d t js] by (auto simp: dict_get_def)
      then show "tenant_jobs d t = []" by (auto simp: tenant_jobs_def split: option.splits)
    qed
  next
    assume "\<forall>t. tenant_jobs d t = []"
    moreover have "(t, js) \<in> set d \<Longrightarrow> tenant_jobs d t = js" for t js
      using assms by (simp add: tenant_jobs_def dict_get_def dict_wf_def dict_keys_def)
    ultimately show "\<forall>(t, js) \<in> set d. js = []" by fastforce
  qed
  finally show ?thesis .
qed

lemma total_jobs_keys:
  assumes "dict_wf d" shows "total_jobs d = (\<Sum>t \<leftarrow> dict_keys d. length (tenant_jobs d t))"
proof -
  have "tenant_jobs d t = js" if "(t, js) \<in> set d" for t js
    using that assms by (simp add: tenant_jobs_def dict_get_def dict_wf_def dict_keys_def)
  then have "map (\<lambda>(t, js). length js) d = map (\<lambda>t. length (tenant_jobs d t)) (dict_keys d)"
    by (auto simp: dict_keys_def)
  then show ?thesis by (simp add: total_jobs_def)
qed

lemma turn_wf_set: "turn_wf cycle pos d \<Longrightarrow> t \<in> set (dict_keys d) \<Longrightarrow> turn_wf cycle pos (dict_set t js d)"
  by (simp add: turn_wf_def dict_keys_set_same)

lemma turn_wf_pos: "turn_wf cycle pos d \<Longrightarrow> turn_wf cycle (p mod length cycle) d"
  by (cases cycle) (auto simp: turn_wf_def)

lemma turn_wf_init:
  assumes "positive_weights weights" "build_weight_cycle weights = Inr cycle"
  shows "turn_wf cycle 0 (map (\<lambda>(tid, w). (tid, [])) weights)"
proof -
  have k: "dict_keys (map (\<lambda>(tid, w). (tid, [])) weights) = dict_keys weights"
    by (simp add: dict_keys_def comp_def case_prod_beta)
  show ?thesis using assms(1) cycle_set [OF assms] by (simp add: turn_wf_def k dict_wf_def positive_weights_def)
qed

lemma tenant_jobs_init [simp]: "tenant_jobs (map (\<lambda>(tid, w). (tid, [])) weights) t = []"
  by (induction weights) (auto simp: tenant_jobs_def dict_get_def)

text \<open>The scan keeps the position inside the cycle.\<close>

lemma scan_cycle_pos: "pos < length cycle \<Longrightarrow> scan_cycle cycle busy k pos = (r, p) \<Longrightarrow> p < length cycle"
proof (induction k arbitrary: pos)
  case 0
  then show ?case by simp
next
  case (Suc k)
  have "(pos + 1) mod length cycle < length cycle" using Suc.prems(1) by (intro mod_less_divisor) linarith
  with Suc show ?case by (auto simp: Let_def split: if_splits)
qed

lemma scan_cycle_busy: "scan_cycle cycle busy k pos = (Some t, p) \<Longrightarrow> busy t"
  by (induction k arbitrary: pos) (auto simp: Let_def split: if_splits)

lemma scan_cycle_mem: "pos < length cycle \<Longrightarrow> scan_cycle cycle busy k pos = (Some t, p) \<Longrightarrow> t \<in> set cycle"
proof (induction k arbitrary: pos)
  case 0
  then show ?case by simp
next
  case (Suc k)
  have "(pos + 1) mod length cycle < length cycle" using Suc.prems(1) by (intro mod_less_divisor) linarith
  with Suc show ?case by (auto simp: Let_def split: if_splits)
qed

text \<open>With work waiting, one lap of the scan stops at a busy tenant.\<close>

lemma scan_lap_Some:
  assumes "turn_wf cycle pos d" "tenant_jobs d u \<noteq> []"
  obtains t p where "scan_cycle cycle (\<lambda>t. tenant_jobs d t \<noteq> []) (length cycle) pos = (Some t, p)"
    "t \<in> set (dict_keys d)" "tenant_jobs d t \<noteq> []" "p < length cycle"
proof -
  let ?b = "\<lambda>t. tenant_jobs d t \<noteq> []"
  have p: "pos < length cycle" and s: "set cycle = set (dict_keys d)" using assms(1) by (auto simp: turn_wf_def)
  obtain e where e: "e < length cycle" "?b (cycle ! ((pos + e) mod length cycle))"
    "\<And>i. i < e \<Longrightarrow> \<not> ?b (cycle ! ((pos + i) mod length cycle))"
    using first_busy_slot [of u cycle ?b pos] tenant_jobs_key [OF assms(2)] s p assms(2) by metis
  have "scan_cycle cycle ?b (length cycle) pos =
      (Some (cycle ! ((pos + e) mod length cycle)), (pos + e + 1) mod length cycle)"
    by (rule scan_cycle_finds) (use e p in auto)
  then show ?thesis using that scan_cycle_busy [of cycle ?b] scan_cycle_mem [OF p] scan_cycle_pos [OF p] s by blast
qed

end
