(* ===== verification/Scheduler_Weighted_RR.thy ===== *)
theory Scheduler_Weighted_RR
  imports Tenant_Queues Queue_Interface
begin

text \<open>
  \<open>WeightedRoundRobinScheduler\<close> of \<open>kernelq/scheduler_weighted_rr.py\<close>: one FIFO queue per
  tenant, a cycle of tenants in proportion to their weights and a position in it. An
  unavailable dict key and an index out of range raise, as in Python; the invariant shows that
  \<open>dequeue\<close> and \<open>peek\<close> never do.
\<close>

record wrr_job =
  wj_job_id :: string
  wj_tenant_id :: string
  wj_created_at :: int

record wrr =
  wrr_queues :: "(string, wrr_job list) dict"
  wrr_cycle :: "string list"
  wrr_cycle_pos :: nat

definition wrr_init :: "(string, int) dict \<Rightarrow> wrr result" where
  "wrr_init weights =
     (if weights = [] then Inl (ValueError ''weights must not be empty'')
      else case find (\<lambda>(tid, w). w \<le> 0) weights of
        Some (tid, w) \<Rightarrow> Inl (ValueError
          (''weight for '' @ py_repr tid @ '' must be a positive integer, got '' @ str_int w))
      | None \<Rightarrow> bind_res (build_weight_cycle weights) (\<lambda>cycle.
          Inr \<lparr>wrr_queues = map (\<lambda>(tid, w). (tid, [])) weights, wrr_cycle = cycle, wrr_cycle_pos = 0\<rparr>))"

definition wrr_enqueue :: "wrr \<Rightarrow> wrr_job \<Rightarrow> wrr result" where
  "wrr_enqueue s job =
     (case dict_get (wrr_queues s) (wj_tenant_id job) of
        None \<Rightarrow> Inl (ValueError (''unknown tenant_id '' @ py_repr (wj_tenant_id job) @ ''; '' @
          ''allowed tenants: '' @ py_repr_list (sort (dict_keys (wrr_queues s)))))
      | Some q \<Rightarrow> Inr (s\<lparr>wrr_queues := dict_set (wj_tenant_id job) (q @ [job]) (wrr_queues s)\<rparr>))"

definition wrr_size :: "wrr \<Rightarrow> nat" where
  "wrr_size s = sum_list (map (\<lambda>(tid, q). length q) (wrr_queues s))"

fun wrr_dequeue_loop :: "nat \<Rightarrow> wrr \<Rightarrow> wrr_job option result \<times> wrr" where
  "wrr_dequeue_loop 0 s = (Inr None, s)"
| "wrr_dequeue_loop (Suc k) s =
     (if wrr_cycle_pos s \<ge> length (wrr_cycle s) then (Inl IndexError, s)
      else
        let tid = wrr_cycle s ! wrr_cycle_pos s;
            s1 = s\<lparr>wrr_cycle_pos := (wrr_cycle_pos s + 1) mod length (wrr_cycle s)\<rparr>
        in case dict_get (wrr_queues s1) tid of
             None \<Rightarrow> (Inl (KeyError tid), s1)
           | Some [] \<Rightarrow> wrr_dequeue_loop k s1
           | Some (job # rest) \<Rightarrow> (Inr (Some job), s1\<lparr>wrr_queues := dict_set tid rest (wrr_queues s1)\<rparr>))"

definition wrr_dequeue :: "wrr \<Rightarrow> wrr_job option result \<times> wrr" where
  "wrr_dequeue s =
     (if wrr_size s = 0 then (Inr None, s) else wrr_dequeue_loop (length (wrr_cycle s)) s)"

fun wrr_peek_loop :: "nat \<Rightarrow> nat \<Rightarrow> wrr \<Rightarrow> wrr_job option result" where
  "wrr_peek_loop 0 pos s = Inr None"
| "wrr_peek_loop (Suc k) pos s =
     (if pos \<ge> length (wrr_cycle s) then Inl IndexError
      else
        let tid = wrr_cycle s ! pos
        in case dict_get (wrr_queues s) tid of
             None \<Rightarrow> Inl (KeyError tid)
           | Some q \<Rightarrow>
               let pos' = (pos + 1) mod length (wrr_cycle s)
               in case q of [] \<Rightarrow> wrr_peek_loop k pos' s | job # _ \<Rightarrow> Inr (Some job))"

definition wrr_peek :: "wrr \<Rightarrow> wrr_job option result" where
  "wrr_peek s =
     (if wrr_size s = 0 then Inr None else wrr_peek_loop (length (wrr_cycle s)) (wrr_cycle_pos s) s)"

definition wrr_tenant_queue_sizes :: "wrr \<Rightarrow> (string, nat) dict" where
  "wrr_tenant_queue_sizes s = map (\<lambda>(tid, q). (tid, length q)) (wrr_queues s)"

section \<open>The invariant\<close>

definition wrr_inv :: "wrr \<Rightarrow> bool" where
  "wrr_inv s \<longleftrightarrow> turn_wf (wrr_cycle s) (wrr_cycle_pos s) (wrr_queues s) \<and>
     jobs_tagged wj_tenant_id (wrr_queues s)"

abbreviation wrr_jobs :: "wrr \<Rightarrow> string \<Rightarrow> wrr_job list" where
  "wrr_jobs s \<equiv> tenant_jobs (wrr_queues s)"

abbreviation wrr_busy :: "wrr \<Rightarrow> string \<Rightarrow> bool" where
  "wrr_busy s t \<equiv> tenant_jobs (wrr_queues s) t \<noteq> []"

lemma wrr_size_total: "wrr_size s = total_jobs (wrr_queues s)"
  by (simp add: wrr_size_def total_jobs_def)

lemma wrr_init_ok:
  "wrr_init weights = Inr s \<Longrightarrow> dict_wf weights \<Longrightarrow>
   positive_weights weights \<and> build_weight_cycle weights = Inr (wrr_cycle s) \<and>
   wrr_queues s = map (\<lambda>(tid, w). (tid, [])) weights \<and> wrr_cycle_pos s = 0"
  by (auto simp: wrr_init_def positive_weights_def bind_res_eq_Inr find_None_iff not_le
      split: if_splits option.splits)

lemma wrr_init_inv: "wrr_init weights = Inr s \<Longrightarrow> dict_wf weights \<Longrightarrow> wrr_inv s"
  using wrr_init_ok [of weights s] turn_wf_init [of weights "wrr_cycle s"]
  by (simp add: wrr_inv_def jobs_tagged_def)

text \<open>The loops are the scan of one lap.\<close>

lemma wrr_dequeue_loop_scan:
  assumes "turn_wf (wrr_cycle s) (wrr_cycle_pos s) (wrr_queues s)"
  shows "wrr_dequeue_loop k s =
    (case scan_cycle (wrr_cycle s) (wrr_busy s) k (wrr_cycle_pos s) of
       (None, p) \<Rightarrow> (Inr None, s\<lparr>wrr_cycle_pos := p\<rparr>)
     | (Some t, p) \<Rightarrow> (Inr (Some (hd (wrr_jobs s t))),
          s\<lparr>wrr_cycle_pos := p, wrr_queues := dict_set t (tl (wrr_jobs s t)) (wrr_queues s)\<rparr>))"
  using assms
proof (induction k arbitrary: s)
  case 0
  then show ?case by simp
next
  case (Suc k)
  let ?t = "wrr_cycle s ! wrr_cycle_pos s"
  let ?s = "s\<lparr>wrr_cycle_pos := (wrr_cycle_pos s + 1) mod length (wrr_cycle s)\<rparr>"
  have p: "wrr_cycle_pos s < length (wrr_cycle s)" using Suc.prems by (simp add: turn_wf_def)
  then have "?t \<in> set (dict_keys (wrr_queues s))" using Suc.prems by (metis nth_mem turn_wf_def)
  then have g: "dict_get (wrr_queues s) ?t = Some (wrr_jobs s ?t)" by (rule dict_get_key)
  have "turn_wf (wrr_cycle ?s) (wrr_cycle_pos ?s) (wrr_queues ?s)" using turn_wf_pos [OF Suc.prems] by simp
  from Suc.IH [OF this] p g show ?case
    by (cases "wrr_jobs s ?t") (auto simp: Let_def split: prod.splits option.splits)
qed

lemma wrr_peek_loop_scan:
  assumes "turn_wf (wrr_cycle s) pos (wrr_queues s)"
  shows "wrr_peek_loop k pos s = Inr (map_option (\<lambda>t. hd (wrr_jobs s t)) (fst (scan_cycle (wrr_cycle s) (wrr_busy s) k pos)))"
  using assms
proof (induction k arbitrary: pos)
  case 0
  then show ?case by simp
next
  case (Suc k)
  let ?t = "wrr_cycle s ! pos"
  have p: "pos < length (wrr_cycle s)" using Suc.prems by (simp add: turn_wf_def)
  then have "?t \<in> set (dict_keys (wrr_queues s))" using Suc.prems by (metis nth_mem turn_wf_def)
  then have g: "dict_get (wrr_queues s) ?t = Some (wrr_jobs s ?t)" by (rule dict_get_key)
  from Suc.IH [OF turn_wf_pos [OF Suc.prems, of "pos + 1"]] p g show ?case
    by (cases "wrr_jobs s ?t") (auto simp: Let_def)
qed

section \<open>The contracts\<close>

text \<open>The views of \<open>enqueue\<close> and \<open>dequeue\<close> a client of the contracts sees: an exception admits and returns nothing.\<close>

definition wrr_admit :: "wrr \<Rightarrow> wrr_job \<Rightarrow> bool \<times> wrr" where
  "wrr_admit s job = (case wrr_enqueue s job of Inl e \<Rightarrow> (False, s) | Inr s' \<Rightarrow> (True, s'))"

definition wrr_take :: "wrr \<Rightarrow> wrr_job option \<times> wrr" where
  "wrr_take s = (case wrr_dequeue s of (Inl e, s') \<Rightarrow> (None, s') | (Inr r, s') \<Rightarrow> (r, s'))"

lemma wrr_dequeue_idle: "wrr_inv s \<Longrightarrow> \<forall>t. wrr_jobs s t = [] \<Longrightarrow> wrr_dequeue s = (Inr None, s)"
  by (simp add: wrr_dequeue_def wrr_size_total wrr_inv_def turn_wf_def total_jobs_0_iff)

lemma wrr_dequeue_busy:
  assumes "wrr_inv s" "wrr_jobs s u \<noteq> []"
    and "scan_cycle (wrr_cycle s) (wrr_busy s) (length (wrr_cycle s)) (wrr_cycle_pos s) = (Some t, p)"
  shows "wrr_dequeue s = (Inr (Some (hd (wrr_jobs s t))),
    s\<lparr>wrr_cycle_pos := p, wrr_queues := dict_set t (tl (wrr_jobs s t)) (wrr_queues s)\<rparr>)"
proof -
  have "wrr_size s \<noteq> 0"
    using assms(1,2) by (auto simp: wrr_size_total wrr_inv_def turn_wf_def total_jobs_0_iff)
  then show ?thesis using assms wrr_dequeue_loop_scan [of s] by (simp add: wrr_dequeue_def wrr_inv_def)
qed

lemma wrr_step_inv:
  assumes "wrr_inv s" "wrr_jobs s t \<noteq> []" "p < length (wrr_cycle s)"
  shows "wrr_inv (s\<lparr>wrr_cycle_pos := p, wrr_queues := dict_set t (tl (wrr_jobs s t)) (wrr_queues s)\<rparr>)"
  using assms tenant_jobs_key [OF assms(2)]
  by (auto simp: wrr_inv_def turn_wf_def dict_keys_set_same dest: list.set_sel(2) jobs_tagged_D intro!: jobs_tagged_set)

text \<open>Every \<open>dequeue\<close> returns without raising: nothing when idle, else the job at the front of a busy tenant's queue.\<close>

lemma wrr_dequeue_cases:
  assumes "wrr_inv s"
  obtains (idle) "\<forall>t. wrr_jobs s t = []" "wrr_dequeue s = (Inr None, s)"
    | (turn) t p s' where "wrr_jobs s t \<noteq> []"
      "scan_cycle (wrr_cycle s) (wrr_busy s) (length (wrr_cycle s)) (wrr_cycle_pos s) = (Some t, p)"
      "s' = s\<lparr>wrr_cycle_pos := p, wrr_queues := dict_set t (tl (wrr_jobs s t)) (wrr_queues s)\<rparr>"
      "wrr_dequeue s = (Inr (Some (hd (wrr_jobs s t))), s')" "wrr_inv s'"
      "wj_tenant_id (hd (wrr_jobs s t)) = t"
proof (cases "\<forall>t. wrr_jobs s t = []")
  case True
  then show ?thesis using idle wrr_dequeue_idle [OF assms] by blast
next
  case False
  then obtain u where u: "wrr_jobs s u \<noteq> []" by blast
  obtain t p where t: "scan_cycle (wrr_cycle s) (wrr_busy s) (length (wrr_cycle s)) (wrr_cycle_pos s) = (Some t, p)"
    "wrr_jobs s t \<noteq> []" "p < length (wrr_cycle s)"
    using scan_lap_Some [of "wrr_cycle s" "wrr_cycle_pos s" "wrr_queues s" u] assms u unfolding wrr_inv_def by metis
  have "wj_tenant_id (hd (wrr_jobs s t)) = t"
    using assms t(2) by (auto simp: wrr_inv_def jobs_tagged_def)
  then show ?thesis
    using turn [OF t(2,1) refl wrr_dequeue_busy [OF assms u t(1)] wrr_step_inv [OF assms t(2,3)]] by blast
qed

lemma wrr_take_eq: "wrr_dequeue s = (Inr r, s') \<Longrightarrow> wrr_take s = (r, s')"
  by (simp add: wrr_take_def)

lemma wrr_enqueue_Inr:
  "wrr_enqueue s job = Inr s' \<longleftrightarrow> wj_tenant_id job \<in> set (dict_keys (wrr_queues s)) \<and>
   s' = s\<lparr>wrr_queues := dict_set (wj_tenant_id job) (wrr_jobs s (wj_tenant_id job) @ [job]) (wrr_queues s)\<rparr>"
  by (auto simp: wrr_enqueue_def tenant_jobs_def dict_get_eq_None dest: dict_get_Some_key split: option.splits)

lemma wrr_enqueue_inv: "wrr_inv s \<Longrightarrow> wrr_enqueue s job = Inr s' \<Longrightarrow> wrr_inv s'"
  by (auto simp: wrr_enqueue_Inr wrr_inv_def dest: jobs_tagged_D intro!: jobs_tagged_set turn_wf_set)

lemma wrr_peek_dequeue:
  assumes "wrr_inv s" shows "wrr_peek s = fst (wrr_dequeue s)"
proof -
  have w: "turn_wf (wrr_cycle s) (wrr_cycle_pos s) (wrr_queues s)" using assms by (simp add: wrr_inv_def)
  show ?thesis
    by (auto simp: wrr_peek_def wrr_dequeue_def wrr_dequeue_loop_scan [OF w] wrr_peek_loop_scan [OF w]
        split: prod.splits option.splits)
qed

definition wrr_next :: "wrr \<Rightarrow> wrr_job option" where
  "wrr_next s = (case wrr_peek s of Inl e \<Rightarrow> None | Inr r \<Rightarrow> r)"

interpretation wrr_fifo: fifo_contract wrr_admit wrr_take wrr_next wrr_inv wrr_jobs wj_tenant_id
proof unfold_locales
  fix s job ok s' c
  assume "wrr_inv s" "wrr_admit s job = (ok, s')"
  then show "wrr_jobs s' c = (if ok \<and> c = wj_tenant_id job then wrr_jobs s c @ [job] else wrr_jobs s c)"
    "wrr_inv s'"
    using wrr_enqueue_inv [of s job s']
    by (auto simp: wrr_admit_def wrr_enqueue_Inr split: sum.splits)
next
  fix s out s' c
  assume inv: "wrr_inv s"
  then show "wrr_take s = (None, s') \<Longrightarrow> s' = s \<and> wrr_jobs s c = []"
    by (rule wrr_dequeue_cases) (auto dest!: wrr_take_eq)
  from inv show "wrr_take s = (Some x, s') \<Longrightarrow>
      wrr_jobs s c = (if c = wj_tenant_id x then x # wrr_jobs s' c else wrr_jobs s' c)" for x
    by (rule wrr_dequeue_cases) (auto dest!: wrr_take_eq simp: neq_Nil_conv)
  from inv show "wrr_take s = (out, s') \<Longrightarrow> wrr_inv s'"
    by (rule wrr_dequeue_cases) (use inv in \<open>auto dest!: wrr_take_eq\<close>)
  from inv show "wrr_next s = fst (wrr_take s)"
    by (rule wrr_dequeue_cases) (use wrr_peek_dequeue [OF inv] in \<open>auto simp: wrr_next_def wrr_take_eq\<close>)
qed

interpretation wrr_count: counted_contract wrr_admit wrr_take wrr_next wrr_inv "all_jobs \<circ> wrr_queues"
proof unfold_locales
  fix s job ok s'
  assume "wrr_inv s" "wrr_admit s job = (ok, s')"
  then show "(all_jobs \<circ> wrr_queues) s' =
      (if ok then add_mset job ((all_jobs \<circ> wrr_queues) s) else (all_jobs \<circ> wrr_queues) s)"
    by (auto simp: wrr_admit_def wrr_enqueue_Inr all_jobs_add split: sum.splits)
next
  fix s out s'
  assume inv: "wrr_inv s"
  have rm: "all_jobs d = add_mset (hd (tenant_jobs d t)) (all_jobs (dict_set t (tl (tenant_jobs d t)) d))"
    if "tenant_jobs d t \<noteq> []" for d :: "(string, wrr_job list) dict" and t
    using that by (intro all_jobs_remove tenant_jobs_key) (simp_all flip: mset.simps(2))
  from inv show "wrr_take s = (out, s') \<Longrightarrow> (all_jobs \<circ> wrr_queues) s =
      (case out of None \<Rightarrow> (all_jobs \<circ> wrr_queues) s' | Some x \<Rightarrow> add_mset x ((all_jobs \<circ> wrr_queues) s'))"
    by (rule wrr_dequeue_cases) (auto dest!: wrr_take_eq simp: rm)
qed

interpretation wrr_turn: turn_contract wrr_cycle wrr_cycle_pos "\<lambda>s t. length (wrr_jobs s t)" wrr_take
  wj_tenant_id wrr_inv
proof unfold_locales
  fix s t
  assume inv: "wrr_inv s"
  then show "wrr_cycle s \<noteq> []" "wrr_cycle_pos s < length (wrr_cycle s)" by (auto simp: wrr_inv_def turn_wf_def)
  show "0 < length (wrr_jobs s t) \<Longrightarrow> t \<in> set (wrr_cycle s)"
    using inv tenant_jobs_key [of "wrr_queues s" t] by (auto simp: wrr_inv_def turn_wf_def)
  show "\<forall>t. length (wrr_jobs s t) = 0 \<Longrightarrow> wrr_take s = (None, s)"
    using wrr_dequeue_idle [OF inv] by (simp add: wrr_take_eq)
next
  fix s u t p
  assume inv: "wrr_inv s" and u: "0 < length (wrr_jobs s u)"
    and sc: "scan_cycle (wrr_cycle s) (\<lambda>t. 0 < length (wrr_jobs s t)) (length (wrr_cycle s)) (wrr_cycle_pos s) = (Some t, p)"
  from inv show "\<exists>x s'. wrr_take s = (Some x, s') \<and> wj_tenant_id x = t \<and> wrr_cycle s' = wrr_cycle s \<and>
      wrr_cycle_pos s' = p \<and> (\<lambda>t. length (wrr_jobs s' t)) = (\<lambda>t. length (wrr_jobs s t))(t := length (wrr_jobs s t) - 1) \<and>
      wrr_inv s'"
  proof (cases rule: wrr_dequeue_cases)
    case idle
    then show ?thesis using u by simp
  next
    case (turn t' p' s')
    then have "t' = t" "p' = p" using sc by auto
    with turn show ?thesis by (intro exI [of _ "hd (wrr_jobs s t)"] exI [of _ s']) (auto simp: wrr_take_eq)
  qed
qed

section \<open>Properties\<close>

text \<open>No operation changes the cycle or the set of tenants.\<close>

lemma wrr_run:
  assumes "wrr_init weights = Inr s0" "dict_wf weights"
    and "run_queue wrr_admit wrr_take ops s0 = (ins, outs, s)"
  shows "wrr_inv s" "wrr_cycle s = wrr_cycle s0" "dict_keys (wrr_queues s) = dict_keys weights"
proof -
  let ?P = "\<lambda>s. wrr_inv s \<and> wrr_cycle s = wrr_cycle s0 \<and> dict_keys (wrr_queues s) = dict_keys weights"
  have enq: "?P (snd (wrr_admit s x))" if P: "?P s" for s x
    using P wrr_enqueue_inv [of s x]
    by (auto simp: wrr_admit_def wrr_enqueue_Inr dict_keys_set_same split: sum.splits)
  have deq: "?P (snd (wrr_take s))" if P: "?P s" for s
    using conjunct1 [OF P]
    by (rule wrr_dequeue_cases) (use P in \<open>auto simp: wrr_take_eq dict_keys_set_same [OF tenant_jobs_key]\<close>)
  have "dict_keys (wrr_queues s0) = dict_keys weights"
    using wrr_init_ok [OF assms(1,2)] by (simp add: dict_keys_def comp_def case_prod_beta)
  then have "?P s"
    using run_queue_keeps [of ?P wrr_admit wrr_take, OF enq deq assms(3)] wrr_init_inv [OF assms(1,2)] by blast
  then show "wrr_inv s" "wrr_cycle s = wrr_cycle s0" "dict_keys (wrr_queues s) = dict_keys weights" by auto
qed

text \<open>
  Under any sequence of \<open>enqueue\<close> and \<open>dequeue\<close> calls on a weighted round-robin scheduler,
  each tenant's jobs come out in the order they were accepted, none lost and none duplicated,
  and \<open>size\<close> is the number of accepted jobs that have not come out.
\<close>

theorem wrr_tenant_fifo:
  assumes "wrr_init weights = Inr s0" and "dict_wf weights"
    and "run_queue wrr_admit wrr_take ops s0 = (ins, outs, s)"
  shows "filter (\<lambda>j. wj_tenant_id j = t) ins = filter (\<lambda>j. wj_tenant_id j = t) outs @ wrr_jobs s t \<and>
     length ins = length outs + wrr_size s"
proof -
  have inv: "wrr_inv s0" using wrr_init_inv [OF assms(1,2)] .
  have e: "wrr_jobs s0 u = []" for u using wrr_init_ok [OF assms(1,2)] by simp
  then have "total_jobs (wrr_queues s0) = 0" using inv by (simp add: wrr_inv_def turn_wf_def total_jobs_0_iff)
  then show ?thesis
    using wrr_fifo.run_order [OF assms(3) inv, of t] wrr_count.run_count [OF assms(3) inv] e
    by (simp add: wrr_size_total)
qed


text \<open>The two tenants of the witnesses, the first with twice the weight of the second.\<close>

definition wrr_demo_weights :: "(string, int) dict" where
  "wrr_demo_weights = [(''a'', 2), (''b'', 1)]"

definition wrr_demo_job :: "string \<Rightarrow> string \<Rightarrow> wrr_job" where
  "wrr_demo_job i t = \<lparr>wj_job_id = i, wj_tenant_id = t, wj_created_at = 0\<rparr>"

definition wrr_demo_start :: wrr where
  "wrr_demo_start = \<lparr>wrr_queues = [(''a'', []), (''b'', [])], wrr_cycle = [''a'', ''a'', ''b''], wrr_cycle_pos = 0\<rparr>"

lemmas wrr_demo_defs = wrr_demo_weights_def wrr_demo_job_def wrr_demo_start_def

lemma wrr_demo_init: "wrr_init wrr_demo_weights = Inr wrr_demo_start" "dict_wf wrr_demo_weights"
  by (simp_all add: wrr_init_def wrr_demo_defs build_weight_cycle_def gcd_of_weights_def dict_wf_def dict_keys_def
      numeral_2_eq_2)

lemmas wrr_eval = wrr_demo_defs wrr_admit_def wrr_enqueue_def wrr_take_def wrr_dequeue_def wrr_size_def
  dict_get_def dict_set_def tenant_jobs_def Let_def

theorem wrr_tenant_fifo_witness:
  "\<exists>ins outs s. run_queue wrr_admit wrr_take
      [Submit (wrr_demo_job ''1'' ''a''), Submit (wrr_demo_job ''2'' ''b''), Submit (wrr_demo_job ''3'' ''z''), Take]
      wrr_demo_start = (ins, outs, s) \<and>
    filter (\<lambda>j. wj_tenant_id j = ''a'') ins = filter (\<lambda>j. wj_tenant_id j = ''a'') outs @ wrr_jobs s ''a'' \<and>
    length ins = length outs + wrr_size s \<and> wrr_size s = 1"
proof -
  let ?ops = "[Submit (wrr_demo_job ''1'' ''a''), Submit (wrr_demo_job ''2'' ''b''), Submit (wrr_demo_job ''3'' ''z''), Take]"
  let ?s = "wrr_demo_start\<lparr>wrr_queues := [(''a'', []), (''b'', [wrr_demo_job ''2'' ''b''])], wrr_cycle_pos := 1\<rparr>"
  have r: "run_queue wrr_admit wrr_take ?ops wrr_demo_start =
     ([wrr_demo_job ''1'' ''a'', wrr_demo_job ''2'' ''b''], [wrr_demo_job ''1'' ''a''], ?s)"
    by (simp add: wrr_eval)
  show ?thesis using wrr_tenant_fifo [OF wrr_demo_init r, of "''a''"] r by (auto simp: wrr_size_def)
qed

text \<open>
  No starvation. Whatever has happened before, a tenant with a job waiting is served within
  one lap of the cycle: among the next \<open>len(cycle)\<close> dequeues there is one of its jobs, however
  much work the other tenants have.
\<close>

theorem wrr_no_starvation:
  assumes "wrr_init weights = Inr s0" and "dict_wf weights"
    and "run_queue wrr_admit wrr_take ops s0 = (ins, outs, s)"
    and "wrr_jobs s t \<noteq> []"
    and "take_n wrr_take (length (wrr_cycle s)) s = (xs, s')"
  shows "t \<in> wj_tenant_id ` set xs"
  using wrr_turn.served_within_lap [OF wrr_run(1) [OF assms(1-3)] _ assms(5)] assms(4) by simp

theorem wrr_no_starvation_witness:
  "''b'' \<in> wj_tenant_id ` set (fst (take_n wrr_take 3 (snd (snd (run_queue wrr_admit wrr_take
     [Submit (wrr_demo_job ''1'' ''a''), Submit (wrr_demo_job ''2'' ''b'')] wrr_demo_start)))))"
proof -
  let ?ops = "[Submit (wrr_demo_job ''1'' ''a''), Submit (wrr_demo_job ''2'' ''b'')]"
  let ?s = "wrr_demo_start\<lparr>wrr_queues := [(''a'', [wrr_demo_job ''1'' ''a'']), (''b'', [wrr_demo_job ''2'' ''b''])]\<rparr>"
  have r: "run_queue wrr_admit wrr_take ?ops wrr_demo_start =
     ([wrr_demo_job ''1'' ''a'', wrr_demo_job ''2'' ''b''], [], ?s)"
    by (simp add: wrr_eval)
  have b: "wrr_jobs ?s ''b'' \<noteq> []" by (simp add: wrr_eval)
  obtain xs s' where t: "take_n wrr_take 3 ?s = (xs, s')" by fastforce
  moreover have "length (wrr_cycle ?s) = 3" by (simp add: wrr_demo_defs)
  ultimately have "''b'' \<in> wj_tenant_id ` set xs"
    using wrr_no_starvation [OF wrr_demo_init r b] by simp
  then show ?thesis unfolding r snd_conv t fst_conv .
qed

text \<open>
  Exact proportionality. In any reachable state in which every tenant has at least
  \<open>weight / gcd\<close> jobs waiting, one lap of dequeues (from wherever the position stands) serves
  each tenant exactly \<open>weight / gcd\<close> times, where \<open>gcd\<close> is that of all the weights.
\<close>

theorem wrr_lap_proportional:
  assumes "wrr_init weights = Inr s0" and "dict_wf weights"
    and "run_queue wrr_admit wrr_take ops s0 = (ins, outs, s)"
    and "\<forall>(u, w) \<in> set weights. w div weights_gcd weights \<le> int (length (wrr_jobs s u))"
    and "take_n wrr_take (length (wrr_cycle s)) s = (xs, s')"
    and "(t, w) \<in> set weights"
  shows "int (count_list (map wj_tenant_id xs) t) = w div weights_gcd weights \<and>
     length xs = length (wrr_cycle s)"
proof -
  note init = wrr_init_ok [OF assms(1,2)]
  have pw: "positive_weights weights" and c: "build_weight_cycle weights = Inr (wrr_cycle s)"
    using init wrr_run(2) [OF assms(1-3)] by auto
  have slots: "count_list (wrr_cycle s) u \<le> length (wrr_jobs s u)" for u
    by (rule cycle_slots_le [OF pw c assms(4)])
  show ?thesis
    using wrr_turn.lap_fair [OF wrr_run(1) [OF assms(1-3)] slots assms(5)]
      wrr_turn.lap_full [OF wrr_run(1) [OF assms(1-3)] slots assms(5)] cycle_slots_mem [OF pw c assms(6)] by simp
qed

theorem wrr_lap_proportional_witness:
  "\<exists>ins outs s xs s'. run_queue wrr_admit wrr_take
      [Submit (wrr_demo_job ''1'' ''a''), Submit (wrr_demo_job ''2'' ''a''), Submit (wrr_demo_job ''3'' ''b'')]
      wrr_demo_start = (ins, outs, s) \<and> take_n wrr_take (length (wrr_cycle s)) s = (xs, s') \<and>
    int (count_list (map wj_tenant_id xs) ''a'') = 2 \<and> length xs = 3"
proof -
  let ?ops = "[Submit (wrr_demo_job ''1'' ''a''), Submit (wrr_demo_job ''2'' ''a''), Submit (wrr_demo_job ''3'' ''b'')]"
  let ?s = "wrr_demo_start\<lparr>wrr_queues := [(''a'', [wrr_demo_job ''1'' ''a'', wrr_demo_job ''2'' ''a'']),
    (''b'', [wrr_demo_job ''3'' ''b''])]\<rparr>"
  have r: "run_queue wrr_admit wrr_take ?ops wrr_demo_start =
     ([wrr_demo_job ''1'' ''a'', wrr_demo_job ''2'' ''a'', wrr_demo_job ''3'' ''b''], [], ?s)"
    by (simp add: wrr_eval)
  obtain xs s' where t: "take_n wrr_take (length (wrr_cycle ?s)) ?s = (xs, s')" by fastforce
  have g: "weights_gcd wrr_demo_weights = 1" by (simp add: weights_gcd_def wrr_demo_defs)
  have "\<forall>(u, w) \<in> set wrr_demo_weights. w div weights_gcd wrr_demo_weights \<le> int (length (wrr_jobs ?s u))"
    unfolding g by (simp add: wrr_eval)
  from wrr_lap_proportional [OF wrr_demo_init r this t, of "''a''" 2] r t g
  show ?thesis by (auto simp: wrr_demo_defs)
qed

text \<open>
  C40: A weighted round-robin scheduler serves whatever it accepted and raises only where the source
  means it to. After any sequence of \<open>enqueue\<close> and \<open>dequeue\<close> calls, \<open>dequeue\<close> and \<open>peek\<close> end
  without raising; \<open>peek\<close> returns the job the next \<open>dequeue\<close> returns, and both return nothing
  exactly when \<open>size\<close> is zero; \<open>enqueue\<close> raises \<open>ValueError\<close> exactly for a tenant without a
  weight; each tenant's jobs came out in the order they were accepted, none lost and none
  duplicated, and \<open>size\<close> is the number of accepted jobs that have not come out.
\<close>

theorem wrr_operations_total:
  assumes "wrr_init weights = Inr s0" and "dict_wf weights"
    and "run_queue wrr_admit wrr_take ops s0 = (ins, outs, s)"
  shows "\<exists>r. fst (wrr_dequeue s) = Inr r \<and> wrr_peek s = Inr r \<and> (r = None \<longleftrightarrow> wrr_size s = 0) \<and>
     ((\<exists>msg. wrr_enqueue s job = Inl (ValueError msg)) \<longleftrightarrow> wj_tenant_id job \<notin> set (dict_keys weights)) \<and>
     filter (\<lambda>j. wj_tenant_id j = t) ins = filter (\<lambda>j. wj_tenant_id j = t) outs @ wrr_jobs s t \<and>
     length ins = length outs + wrr_size s"
proof -
  note run = wrr_run [OF assms]
  have "(\<exists>msg. wrr_enqueue s job = Inl (ValueError msg)) \<longleftrightarrow> wj_tenant_id job \<notin> set (dict_keys weights)"
    using dict_get_eq_None [of "wrr_queues s" "wj_tenant_id job"] unfolding run(3)
    by (auto simp: wrr_enqueue_def split: option.splits)
  moreover have "\<exists>r. fst (wrr_dequeue s) = Inr r \<and> (r = None \<longleftrightarrow> wrr_size s = 0)"
    using run(1)
    by (rule wrr_dequeue_cases) (use run(1) in \<open>auto simp: wrr_size_total wrr_inv_def turn_wf_def total_jobs_0_iff\<close>)
  ultimately show ?thesis using wrr_peek_dequeue [OF run(1)] wrr_tenant_fifo [OF assms, of t] by metis
qed

theorem wrr_operations_total_witness:
  "\<exists>r. fst (wrr_dequeue wrr_demo_start) = Inr r \<and> wrr_peek wrr_demo_start = Inr r \<and> r = None \<and>
     (\<exists>msg. wrr_enqueue wrr_demo_start (wrr_demo_job ''1'' ''z'') = Inl (ValueError msg))"
proof -
  have r: "run_queue wrr_admit wrr_take [] wrr_demo_start = ([], [], wrr_demo_start)" by simp
  have "wrr_size wrr_demo_start = 0" "wj_tenant_id (wrr_demo_job ''1'' ''z'') \<notin> set (dict_keys wrr_demo_weights)"
    by (simp_all add: wrr_eval dict_keys_def)
  with wrr_operations_total [OF wrr_demo_init r, of "wrr_demo_job ''1'' ''z''"] show ?thesis by blast
qed

end
