(* ===== verification/Scheduler_Composed.thy ===== *)
theory Scheduler_Composed
  imports Tenant_Queues Queue_Interface Enqueue_Result
begin

text \<open>
  \<open>ComposedScheduler\<close> of \<open>kernelq/scheduler_composed.py\<close>: bounded admission over all tenants,
  weighted turns across the tenants, and within the tenant whose turn it is the job of highest
  priority, then smallest \<open>created_at\<close>, then smallest \<open>job_id\<close>. The module has its own copies
  of the weight-cycle helpers, modelled as such.
\<close>

record cs_job =
  cj_job_id :: string
  cj_tenant_id :: string
  cj_priority :: int
  cj_created_at :: int

definition composed_gcd_of_weights :: "int list \<Rightarrow> int result" where
  "composed_gcd_of_weights ws =
     (case ws of
        [] \<Rightarrow> Inl (TypeError ''reduce() of empty iterable with no initial value'')
      | w # rest \<Rightarrow> Inr (foldl gcd w rest))"

definition composed_build_weight_cycle :: "(string, int) dict \<Rightarrow> string list result" where
  "composed_build_weight_cycle weights =
     bind_res (composed_gcd_of_weights (map snd weights)) (\<lambda>g.
       if g = 0 then Inl ZeroDivisionError
       else
         (let reduced = map (\<lambda>(tenant_id, w). (tenant_id, w div g)) weights
          in Inr (foldl (\<lambda>cycle (tenant_id, w). cycle @ replicate (nat w) tenant_id) [] reduced)))"

record composed =
  cs_capacity :: int
  cs_queues :: "(string, cs_job list) dict"
  cs_cycle :: "string list"
  cs_cycle_pos :: nat

fun composed_check_weights :: "(string, int) dict \<Rightarrow> exc option" where
  "composed_check_weights [] = None"
| "composed_check_weights ((tenant_id, w) # rest) =
     (if is_blank tenant_id then Some (ValueError ''tenant ids in weights must not be blank'')
      else if w \<le> 0 then Some (ValueError
        (''weight for '' @ py_repr tenant_id @ '' must be a positive integer, got '' @ str_int w))
      else composed_check_weights rest)"

definition composed_init :: "int \<Rightarrow> (string, int) dict \<Rightarrow> composed result" where
  "composed_init capacity weights =
     (if capacity \<le> 0 then Inl (ValueError ''capacity must be a positive integer'')
      else if weights = [] then Inl (ValueError ''weights must not be empty'')
      else case composed_check_weights weights of
        Some e \<Rightarrow> Inl e
      | None \<Rightarrow> bind_res (composed_build_weight_cycle weights) (\<lambda>cycle.
          Inr \<lparr>cs_capacity = capacity, cs_queues = map (\<lambda>(tenant_id, w). (tenant_id, [])) weights,
               cs_cycle = cycle, cs_cycle_pos = 0\<rparr>))"

definition composed_size :: "composed \<Rightarrow> nat" where
  "composed_size s = sum_list (map (\<lambda>(tenant_id, q). length q) (cs_queues s))"

definition composed_enqueue :: "composed \<Rightarrow> cs_job \<Rightarrow> enqueue_result \<times> composed" where
  "composed_enqueue s job =
     (if is_blank (cj_job_id job) then (er_rejected_invalid (Some ''job_id must not be blank''), s)
      else if is_blank (cj_tenant_id job) then (er_rejected_invalid (Some ''tenant_id must not be blank''), s)
      else case dict_get (cs_queues s) (cj_tenant_id job) of
        None \<Rightarrow> (er_rejected_invalid (Some (''unknown tenant_id '' @ py_repr (cj_tenant_id job) @
          ''; allowed tenants: '' @ py_repr_list (sort (dict_keys (cs_queues s))))), s)
      | Some q \<Rightarrow>
          if int (composed_size s) \<ge> cs_capacity s then (er_rejected_full (Some ''queue is full''), s)
          else (er_accepted (Some ''accepted''),
                s\<lparr>cs_queues := dict_set (cj_tenant_id job) (q @ [job]) (cs_queues s)\<rparr>))"

text \<open>The candidate comparison of \<open>_best_job_index\<close>.\<close>

definition composed_better :: "cs_job \<Rightarrow> cs_job \<Rightarrow> bool" where
  "composed_better candidate best \<longleftrightarrow>
     cj_priority candidate > cj_priority best
     \<or> cj_priority candidate = cj_priority best \<and> cj_created_at candidate < cj_created_at best
     \<or> cj_priority candidate = cj_priority best \<and> cj_created_at candidate = cj_created_at best
       \<and> cj_job_id candidate < cj_job_id best"

fun composed_best_loop :: "nat \<Rightarrow> cs_job list \<Rightarrow> cs_job \<Rightarrow> nat \<Rightarrow> nat" where
  "composed_best_loop i [] best best_index = best_index"
| "composed_best_loop i (candidate # rest) best best_index =
     (if composed_better candidate best then composed_best_loop (i + 1) rest candidate i
      else composed_best_loop (i + 1) rest best best_index)"

definition composed_best_job_index :: "cs_job list \<Rightarrow> nat result" where
  "composed_best_job_index jobs =
     (case jobs of [] \<Rightarrow> Inl IndexError | best # rest \<Rightarrow> Inr (composed_best_loop 1 rest best 0))"

fun composed_next_loop :: "nat \<Rightarrow> composed \<Rightarrow> string option result \<times> composed" where
  "composed_next_loop 0 s = (Inr None, s)"
| "composed_next_loop (Suc k) s =
     (if cs_cycle_pos s \<ge> length (cs_cycle s) then (Inl IndexError, s)
      else
        let tenant_id = cs_cycle s ! cs_cycle_pos s;
            s1 = s\<lparr>cs_cycle_pos := (cs_cycle_pos s + 1) mod length (cs_cycle s)\<rparr>
        in case dict_get (cs_queues s1) tenant_id of
             None \<Rightarrow> (Inl (KeyError tenant_id), s1)
           | Some q \<Rightarrow> if q \<noteq> [] then (Inr (Some tenant_id), s1) else composed_next_loop k s1)"

definition composed_next_tenant_advance :: "composed \<Rightarrow> string option result \<times> composed" where
  "composed_next_tenant_advance s =
     (if composed_size s = 0 then (Inr None, s) else composed_next_loop (length (cs_cycle s)) s)"

fun composed_look_loop :: "nat \<Rightarrow> nat \<Rightarrow> composed \<Rightarrow> string option result" where
  "composed_look_loop 0 pos s = Inr None"
| "composed_look_loop (Suc k) pos s =
     (if pos \<ge> length (cs_cycle s) then Inl IndexError
      else
        let tenant_id = cs_cycle s ! pos; pos' = (pos + 1) mod length (cs_cycle s)
        in case dict_get (cs_queues s) tenant_id of
             None \<Rightarrow> Inl (KeyError tenant_id)
           | Some q \<Rightarrow> if q \<noteq> [] then Inr (Some tenant_id) else composed_look_loop k pos' s)"

definition composed_next_tenant_no_advance :: "composed \<Rightarrow> string option result" where
  "composed_next_tenant_no_advance s =
     (if composed_size s = 0 then Inr None else composed_look_loop (length (cs_cycle s)) (cs_cycle_pos s) s)"

definition composed_dequeue :: "composed \<Rightarrow> cs_job option result \<times> composed" where
  "composed_dequeue s =
     (case composed_next_tenant_advance s of
        (Inl e, s1) \<Rightarrow> (Inl e, s1)
      | (Inr None, s1) \<Rightarrow> (Inr None, s1)
      | (Inr (Some tenant_id), s1) \<Rightarrow>
          (case dict_get (cs_queues s1) tenant_id of
             None \<Rightarrow> (Inl (KeyError tenant_id), s1)
           | Some jobs \<Rightarrow>
               (case composed_best_job_index jobs of
                  Inl e \<Rightarrow> (Inl e, s1)
                | Inr index \<Rightarrow>
                    if index \<ge> length jobs then (Inl IndexError, s1)
                    else case list_pop index jobs of (job, rest) \<Rightarrow>
                      (Inr (Some job), s1\<lparr>cs_queues := dict_set tenant_id rest (cs_queues s1)\<rparr>))))"

definition composed_peek :: "composed \<Rightarrow> cs_job option result" where
  "composed_peek s =
     (case composed_next_tenant_no_advance s of
        Inl e \<Rightarrow> Inl e
      | Inr None \<Rightarrow> Inr None
      | Inr (Some tenant_id) \<Rightarrow>
          (case dict_get (cs_queues s) tenant_id of
             None \<Rightarrow> Inl (KeyError tenant_id)
           | Some jobs \<Rightarrow>
               (case composed_best_job_index jobs of
                  Inl e \<Rightarrow> Inl e
                | Inr index \<Rightarrow>
                    if index \<ge> length jobs then Inl IndexError else Inr (Some (jobs ! index)))))"

definition composed_tenant_queue_sizes :: "composed \<Rightarrow> (string, nat) dict" where
  "composed_tenant_queue_sizes s = map (\<lambda>(tenant_id, q). (tenant_id, length q)) (cs_queues s)"

definition composed_remaining_capacity :: "composed \<Rightarrow> int" where
  "composed_remaining_capacity s = cs_capacity s - int (composed_size s)"

section \<open>The helpers agree with those of the weighted scheduler\<close>

lemma composed_build_weight_cycle_eq: "composed_build_weight_cycle = build_weight_cycle"
  by (rule ext) (simp add: composed_build_weight_cycle_def build_weight_cycle_def
      composed_gcd_of_weights_def gcd_of_weights_def)

section \<open>The best job of a tenant\<close>

text \<open>The order of \<open>_best_job_index\<close> as a rank: smaller is better.\<close>

definition composed_rank :: "cs_job \<Rightarrow> int \<times> int \<times> string" where
  "composed_rank job = (- cj_priority job, cj_created_at job, cj_job_id job)"

lemma composed_better_rank: "composed_better a b \<longleftrightarrow> composed_rank a < composed_rank b"
  by (auto simp: composed_better_def composed_rank_def less_prod_def)

lemma composed_best_loop_ok:
  assumes "jobs = seen @ rest" "i = length seen" "bi < length seen" "jobs ! bi = best"
    and "\<forall>j \<in> set seen. composed_rank best \<le> composed_rank j"
  shows "composed_best_loop i rest best bi < length jobs \<and>
    (\<forall>j \<in> set jobs. composed_rank (jobs ! composed_best_loop i rest best bi) \<le> composed_rank j)"
  using assms
proof (induction i rest best bi arbitrary: seen rule: composed_best_loop.induct)
  case (1 i best bi)
  then show ?case by simp
next
  case (2 i c rest best bi)
  let ?d = "seen @ [c]"
  show ?case
  proof (cases "composed_better c best")
    case True
    then have "\<forall>j \<in> set ?d. composed_rank c \<le> composed_rank j"
      using "2.prems"(5) by (fastforce simp: composed_better_rank)
    then show ?thesis using "2.IH"(1) [OF True, of ?d] "2.prems" True by (simp add: nth_append)
  next
    case False
    then have "\<forall>j \<in> set ?d. composed_rank best \<le> composed_rank j"
      using "2.prems"(5) by (auto simp: composed_better_rank)
    then show ?thesis using "2.IH"(2) [OF False, of ?d] "2.prems" False by simp
  qed
qed

text \<open>The index is in range and no job of the list ranks before the one it points to.\<close>

lemma composed_best_job_index_ok:
  assumes "jobs \<noteq> []"
  obtains i where "composed_best_job_index jobs = Inr i" "i < length jobs"
    "\<And>j. j \<in> set jobs \<Longrightarrow> composed_rank (jobs ! i) \<le> composed_rank j"
proof -
  obtain best rest where j: "jobs = best # rest" using assms by (cases jobs) auto
  let ?i = "composed_best_loop 1 rest best 0"
  have "?i < length jobs" "\<forall>j \<in> set jobs. composed_rank (jobs ! ?i) \<le> composed_rank j"
    using composed_best_loop_ok [of jobs "[best]" rest 1 0 best] j by auto
  then show ?thesis using that [of ?i] j by (auto simp: composed_best_job_index_def)
qed

section \<open>The invariant\<close>

definition composed_inv :: "composed \<Rightarrow> bool" where
  "composed_inv s \<longleftrightarrow> turn_wf (cs_cycle s) (cs_cycle_pos s) (cs_queues s) \<and>
     jobs_tagged cj_tenant_id (cs_queues s) \<and> int (composed_size s) \<le> cs_capacity s \<and>
     (\<forall>t. \<forall>j \<in> set (tenant_jobs (cs_queues s) t). \<not> is_blank (cj_job_id j))"

abbreviation composed_jobs :: "composed \<Rightarrow> string \<Rightarrow> cs_job list" where
  "composed_jobs s \<equiv> tenant_jobs (cs_queues s)"

abbreviation composed_busy :: "composed \<Rightarrow> string \<Rightarrow> bool" where
  "composed_busy s t \<equiv> tenant_jobs (cs_queues s) t \<noteq> []"

lemma composed_size_total: "composed_size s = total_jobs (cs_queues s)"
  by (simp add: composed_size_def total_jobs_def)

lemma composed_size_0: "composed_inv s \<Longrightarrow> composed_size s = 0 \<longleftrightarrow> (\<forall>t. composed_jobs s t = [])"
  by (simp add: composed_size_total composed_inv_def turn_wf_def total_jobs_0_iff)

lemma composed_check_weights_None:
  "composed_check_weights ws = None \<longleftrightarrow> (\<forall>(t, w) \<in> set ws. \<not> is_blank t \<and> 0 < w)"
  by (induction ws rule: composed_check_weights.induct) auto

lemma composed_init_ok:
  "composed_init n weights = Inr s \<Longrightarrow> dict_wf weights \<Longrightarrow>
   positive_weights weights \<and> build_weight_cycle weights = Inr (cs_cycle s) \<and> cs_capacity s = n \<and> 0 < n \<and>
   cs_queues s = map (\<lambda>(t, w). (t, [])) weights \<and> cs_cycle_pos s = 0"
  by (auto simp: composed_init_def positive_weights_def bind_res_eq_Inr composed_check_weights_None
      composed_build_weight_cycle_eq split: if_splits option.splits)

lemma composed_init_inv: 
  assumes "composed_init n weights = Inr s" "dict_wf weights" shows "composed_inv s"
proof -
  note i = composed_init_ok [OF assms]
  have w: "turn_wf (cs_cycle s) 0 (cs_queues s)" using turn_wf_init [of weights "cs_cycle s"] i by simp
  then have "total_jobs (cs_queues s) = 0" using i by (simp add: turn_wf_def total_jobs_0_iff)
  then show ?thesis using w i by (simp add: composed_inv_def jobs_tagged_def composed_size_total)
qed

text \<open>The loops are the scan of one lap.\<close>

lemma composed_next_loop_scan:
  assumes "turn_wf (cs_cycle s) (cs_cycle_pos s) (cs_queues s)"
  shows "composed_next_loop k s =
    (case scan_cycle (cs_cycle s) (composed_busy s) k (cs_cycle_pos s) of (r, p) \<Rightarrow> (Inr r, s\<lparr>cs_cycle_pos := p\<rparr>))"
  using assms
proof (induction k arbitrary: s)
  case 0
  then show ?case by simp
next
  case (Suc k)
  let ?t = "cs_cycle s ! cs_cycle_pos s"
  let ?s = "s\<lparr>cs_cycle_pos := (cs_cycle_pos s + 1) mod length (cs_cycle s)\<rparr>"
  have p: "cs_cycle_pos s < length (cs_cycle s)" using Suc.prems by (simp add: turn_wf_def)
  then have "?t \<in> set (dict_keys (cs_queues s))" using Suc.prems by (metis nth_mem turn_wf_def)
  then have g: "dict_get (cs_queues s) ?t = Some (composed_jobs s ?t)" by (rule dict_get_key)
  have "turn_wf (cs_cycle ?s) (cs_cycle_pos ?s) (cs_queues ?s)" using turn_wf_pos [OF Suc.prems] by simp
  from Suc.IH [OF this] p g show ?case by (auto simp: Let_def split: prod.splits)
qed

lemma composed_look_loop_scan:
  assumes "turn_wf (cs_cycle s) pos (cs_queues s)"
  shows "composed_look_loop k pos s = Inr (fst (scan_cycle (cs_cycle s) (composed_busy s) k pos))"
  using assms
proof (induction k arbitrary: pos)
  case 0
  then show ?case by simp
next
  case (Suc k)
  let ?t = "cs_cycle s ! pos"
  have p: "pos < length (cs_cycle s)" using Suc.prems by (simp add: turn_wf_def)
  then have "?t \<in> set (dict_keys (cs_queues s))" using Suc.prems by (metis nth_mem turn_wf_def)
  then have g: "dict_get (cs_queues s) ?t = Some (composed_jobs s ?t)" by (rule dict_get_key)
  from Suc.IH [OF turn_wf_pos [OF Suc.prems, of "pos + 1"]] p g show ?case by (auto simp: Let_def)
qed

text \<open>Every \<open>dequeue\<close> returns without raising, and \<open>peek\<close> returns what it would.\<close>

lemma composed_dequeue_cases:
  assumes "composed_inv s"
  obtains (idle) "\<forall>t. composed_jobs s t = []" "composed_dequeue s = (Inr None, s)" "composed_peek s = Inr None"
    | (turn) t p i job s' where "composed_jobs s t \<noteq> []"
      "scan_cycle (cs_cycle s) (composed_busy s) (length (cs_cycle s)) (cs_cycle_pos s) = (Some t, p)"
      "i < length (composed_jobs s t)" "job = composed_jobs s t ! i"
      "\<And>j. j \<in> set (composed_jobs s t) \<Longrightarrow> composed_rank job \<le> composed_rank j"
      "s' = s\<lparr>cs_cycle_pos := p, cs_queues := dict_set t (snd (list_pop i (composed_jobs s t))) (cs_queues s)\<rparr>"
      "composed_dequeue s = (Inr (Some job), s')" "composed_peek s = Inr (Some job)"
      "cj_tenant_id job = t" "p < length (cs_cycle s)" "t \<in> set (dict_keys (cs_queues s))"
      "composed_best_job_index (composed_jobs s t) = Inr i" "job \<in> set (composed_jobs s t)"
proof (cases "\<forall>t. composed_jobs s t = []")
  case True
  then show ?thesis
    using idle composed_size_0 [OF assms]
    by (simp add: composed_dequeue_def composed_peek_def composed_next_tenant_advance_def composed_next_tenant_no_advance_def)
next
  case False
  then obtain u where u: "composed_jobs s u \<noteq> []" by blast
  have w: "turn_wf (cs_cycle s) (cs_cycle_pos s) (cs_queues s)" using assms by (simp add: composed_inv_def)
  obtain t p where t: "scan_cycle (cs_cycle s) (composed_busy s) (length (cs_cycle s)) (cs_cycle_pos s) = (Some t, p)"
    "t \<in> set (dict_keys (cs_queues s))" "composed_jobs s t \<noteq> []" "p < length (cs_cycle s)"
    using scan_lap_Some [OF w u] by metis
  obtain i where i: "composed_best_job_index (composed_jobs s t) = Inr i" "i < length (composed_jobs s t)"
    "\<And>j. j \<in> set (composed_jobs s t) \<Longrightarrow> composed_rank (composed_jobs s t ! i) \<le> composed_rank j"
    using composed_best_job_index_ok [OF t(3)] by blast
  have n: "composed_size s \<noteq> 0" using composed_size_0 [OF assms] u by blast
  have a: "composed_next_tenant_advance s = (Inr (Some t), s\<lparr>cs_cycle_pos := p\<rparr>)"
    "composed_next_tenant_no_advance s = Inr (Some t)"
    using n t(1) by (simp_all add: composed_next_tenant_advance_def composed_next_tenant_no_advance_def
        composed_next_loop_scan [OF w] composed_look_loop_scan [OF w])
  note g = dict_get_key [OF t(2)]
  have "cj_tenant_id (composed_jobs s t ! i) = t"
    using assms i(2) unfolding composed_inv_def by (metis jobs_tagged_D nth_mem)
  then show ?thesis
    using turn [OF t(3,1) i(2) refl i(3) refl] t(2,4) i(1,2) a g
    by (simp add: composed_dequeue_def composed_peek_def list_pop_def)
qed

lemma composed_turn_inv:
  assumes "composed_inv s" "t \<in> set (dict_keys (cs_queues s))" "i < length (composed_jobs s t)"
    "p < length (cs_cycle s)"
  shows "composed_inv (s\<lparr>cs_cycle_pos := p, cs_queues := dict_set t (snd (list_pop i (composed_jobs s t))) (cs_queues s)\<rparr>)"
proof -
  let ?r = "snd (list_pop i (composed_jobs s t))"
  have sub: "set ?r \<subseteq> set (composed_jobs s t)"
    by (auto simp: list_pop_def dest: in_set_takeD in_set_dropD)
  have "total_jobs (dict_set t ?r (cs_queues s)) \<le> total_jobs (cs_queues s)"
    using total_jobs_set [OF assms(2), of ?r] assms(3) by simp
  moreover have "turn_wf (cs_cycle s) p (dict_set t ?r (cs_queues s))"
    using assms by (auto simp: composed_inv_def turn_wf_def dict_keys_set_same)
  moreover have "jobs_tagged cj_tenant_id (dict_set t ?r (cs_queues s))"
    using assms(1) sub by (intro jobs_tagged_set) (auto simp: composed_inv_def dest: jobs_tagged_D)
  ultimately show ?thesis using assms(1) sub by (auto simp: composed_inv_def composed_size_total)
qed

text \<open>
  The outcomes of \<open>enqueue\<close>, in the order of the source's checks: an unknown tenant is refused
  before the capacity is looked at.
\<close>

lemma composed_enqueue_status:
  "er_status (fst (composed_enqueue s job)) =
     (if is_blank (cj_job_id job) \<or> is_blank (cj_tenant_id job) \<or> cj_tenant_id job \<notin> set (dict_keys (cs_queues s))
      then REJECTED_INVALID
      else if composed_remaining_capacity s \<le> 0 then REJECTED_FULL else ACCEPTED)"
  using dict_get_eq_None [of "cs_queues s" "cj_tenant_id job"]
  by (auto simp: composed_enqueue_def composed_remaining_capacity_def split: option.splits)

lemma composed_enqueue_state:
  "snd (composed_enqueue s job) =
     (if er_status (fst (composed_enqueue s job)) = ACCEPTED
      then s\<lparr>cs_queues := dict_set (cj_tenant_id job) (composed_jobs s (cj_tenant_id job) @ [job]) (cs_queues s)\<rparr>
      else s)"
  by (auto simp: composed_enqueue_def tenant_jobs_def split: option.splits)

lemma composed_enqueue_inv: "composed_inv s \<Longrightarrow> composed_inv (snd (composed_enqueue s job))"
proof (cases "er_status (fst (composed_enqueue s job)) = ACCEPTED")
  case True
  assume inv: "composed_inv s"
  from True have k: "cj_tenant_id job \<in> set (dict_keys (cs_queues s))" "\<not> is_blank (cj_job_id job)"
    "0 < composed_remaining_capacity s"
    unfolding composed_enqueue_status by (auto split: if_splits)
  show ?thesis
    unfolding composed_enqueue_state
    using inv True k total_jobs_set [OF k(1), of "composed_jobs s (cj_tenant_id job) @ [job]"]
    by (auto simp: composed_inv_def composed_size_total composed_remaining_capacity_def
        intro!: turn_wf_set jobs_tagged_set dest: jobs_tagged_D)
qed (simp add: composed_enqueue_state)

section \<open>The contracts\<close>

definition composed_admit :: "composed \<Rightarrow> cs_job \<Rightarrow> bool \<times> composed" where
  "composed_admit s job = (case composed_enqueue s job of (r, s') \<Rightarrow> (is_accepted r, s'))"

definition composed_take :: "composed \<Rightarrow> cs_job option \<times> composed" where
  "composed_take s = (case composed_dequeue s of (Inl e, s') \<Rightarrow> (None, s') | (Inr r, s') \<Rightarrow> (r, s'))"

definition composed_next :: "composed \<Rightarrow> cs_job option" where
  "composed_next s = (case composed_peek s of Inl e \<Rightarrow> None | Inr r \<Rightarrow> r)"

lemma composed_take_eq: "composed_dequeue s = (Inr r, s') \<Longrightarrow> composed_take s = (r, s')"
  by (simp add: composed_take_def)

lemma composed_take_turn_inv:
  assumes "composed_inv s" "composed_take s = (r, s')"
  shows "composed_inv s'" "cs_cycle s' = cs_cycle s" "cs_capacity s' = cs_capacity s"
    "dict_keys (cs_queues s') = dict_keys (cs_queues s)"
proof -
  have "composed_inv s' \<and> cs_cycle s' = cs_cycle s \<and> cs_capacity s' = cs_capacity s \<and>
      dict_keys (cs_queues s') = dict_keys (cs_queues s)"
    using assms(1)
  proof (cases rule: composed_dequeue_cases)
    case idle
    then show ?thesis using assms composed_take_eq [OF idle(2)] by simp
  next
    case (turn t p i job s'')
    then have "s' = s''" using assms(2) composed_take_eq [OF turn(7)] by simp
    then show ?thesis
      using turn(6) composed_turn_inv [OF assms(1) turn(11,3,10)] dict_keys_set_same [OF turn(11)] by simp
  qed
  then show "composed_inv s'" "cs_cycle s' = cs_cycle s" "cs_capacity s' = cs_capacity s"
    "dict_keys (cs_queues s') = dict_keys (cs_queues s)" by auto
qed

interpretation composed_bound: bounded_contract composed_admit composed_take composed_next composed_inv
  "all_jobs \<circ> cs_queues" cs_capacity
proof unfold_locales
  fix s job ok s'
  assume inv: "composed_inv s" and a: "composed_admit s job = (ok, s')"
  have s': "s' = snd (composed_enqueue s job)" and ok: "ok \<longleftrightarrow> er_status (fst (composed_enqueue s job)) = ACCEPTED"
    using a by (auto simp: composed_admit_def is_accepted_def split: prod.splits)
  show "composed_inv s'" unfolding s' using inv by (rule composed_enqueue_inv)
  have "ok \<Longrightarrow> cj_tenant_id job \<in> set (dict_keys (cs_queues s))"
    unfolding ok composed_enqueue_status by (auto split: if_splits)
  then show "(all_jobs \<circ> cs_queues) s' =
      (if ok then add_mset job ((all_jobs \<circ> cs_queues) s) else (all_jobs \<circ> cs_queues) s)"
    unfolding s' composed_enqueue_state ok [symmetric] by (simp add: all_jobs_add)
  show "cs_capacity s' = cs_capacity s" unfolding s' composed_enqueue_state by simp
next
  fix s out s'
  assume inv: "composed_inv s"
  from inv show "composed_next s = fst (composed_take s)"
    by (rule composed_dequeue_cases) (simp_all add: composed_next_def composed_take_eq)
  show "int (size ((all_jobs \<circ> cs_queues) s)) \<le> cs_capacity s"
    using inv by (simp add: composed_inv_def composed_size_total)
  assume t: "composed_take s = (out, s')"
  show "composed_inv s'" "cs_capacity s' = cs_capacity s" using composed_take_turn_inv [OF inv t] by auto
  from inv show "(all_jobs \<circ> cs_queues) s =
      (case out of None \<Rightarrow> (all_jobs \<circ> cs_queues) s' | Some x \<Rightarrow> add_mset x ((all_jobs \<circ> cs_queues) s'))"
  proof (cases rule: composed_dequeue_cases)
    case idle
    then show ?thesis using t by (simp add: composed_take_eq)
  next
    case (turn u p i job s'')
    have "mset (composed_jobs s u) = add_mset job (mset (snd (list_pop i (composed_jobs s u))))"
      using list_pop_mset [OF turn(3)] turn(4) by (simp add: list_pop_def)
    from all_jobs_remove [OF turn(11) this] show ?thesis using t composed_take_eq [OF turn(7)] turn(6) by auto
  qed
qed

interpretation composed_turn: turn_contract cs_cycle cs_cycle_pos "\<lambda>s t. length (composed_jobs s t)"
  composed_take cj_tenant_id composed_inv
proof unfold_locales
  fix s t
  assume inv: "composed_inv s"
  then show "cs_cycle s \<noteq> []" "cs_cycle_pos s < length (cs_cycle s)" by (auto simp: composed_inv_def turn_wf_def)
  show "0 < length (composed_jobs s t) \<Longrightarrow> t \<in> set (cs_cycle s)"
    using inv tenant_jobs_key [of "cs_queues s" t] by (auto simp: composed_inv_def turn_wf_def)
  from inv show "\<forall>t. length (composed_jobs s t) = 0 \<Longrightarrow> composed_take s = (None, s)"
    by (rule composed_dequeue_cases) (simp_all add: composed_take_eq)
next
  fix s u t p
  assume inv: "composed_inv s" and u: "0 < length (composed_jobs s u)"
    and sc: "scan_cycle (cs_cycle s) (\<lambda>t. 0 < length (composed_jobs s t)) (length (cs_cycle s)) (cs_cycle_pos s) = (Some t, p)"
  from inv show "\<exists>x s'. composed_take s = (Some x, s') \<and> cj_tenant_id x = t \<and> cs_cycle s' = cs_cycle s \<and>
      cs_cycle_pos s' = p \<and>
      (\<lambda>t. length (composed_jobs s' t)) = (\<lambda>t. length (composed_jobs s t))(t := length (composed_jobs s t) - 1) \<and>
      composed_inv s'"
  proof (cases rule: composed_dequeue_cases)
    case idle
    then show ?thesis using u by simp
  next
    case (turn t' p' i job s')
    then have e: "t' = t" "p' = p" using sc by auto
    have "composed_inv s'" using composed_take_turn_inv(1) [OF inv composed_take_eq [OF turn(7)]] .
    then show ?thesis
      using turn(3,6,9) e composed_take_eq [OF turn(7)] by (intro exI [of _ job] exI [of _ s']) auto
  qed
qed

section \<open>A tenant's list is a priority queue\<close>

definition composed_tenant_pop :: "cs_job list \<Rightarrow> cs_job option \<times> cs_job list" where
  "composed_tenant_pop jobs =
     (case composed_best_job_index jobs of
        Inl e \<Rightarrow> (None, jobs)
      | Inr i \<Rightarrow> (case list_pop i jobs of (job, rest) \<Rightarrow> (Some job, rest)))"

interpretation composed_tenant: priority_contract "\<lambda>jobs job. jobs @ [job]" composed_tenant_pop mset "\<lambda>_. True"
  composed_rank
proof unfold_locales
  fix jobs :: "cs_job list"
  show "mset jobs = {#} \<Longrightarrow> composed_tenant_pop jobs = (None, jobs)"
    by (simp add: composed_tenant_pop_def composed_best_job_index_def)
  assume "mset jobs \<noteq> {#}"
  then have "jobs \<noteq> []" by auto
  then obtain i where i: "composed_best_job_index jobs = Inr i" "i < length jobs"
    "\<And>j. j \<in> set jobs \<Longrightarrow> composed_rank (jobs ! i) \<le> composed_rank j"
    by (rule composed_best_job_index_ok) blast
  show "\<exists>x q'. composed_tenant_pop jobs = (Some x, q') \<and> True \<and> mset jobs = add_mset x (mset q') \<and>
      (\<forall>y \<in># mset jobs. composed_rank x \<le> composed_rank y)"
    using i(1,3) list_pop_mset [OF i(2)]
    by (intro exI [of _ "jobs ! i"] exI [of _ "snd (list_pop i jobs)"])
      (auto simp: composed_tenant_pop_def list_pop_def dest: in_set_takeD in_set_dropD)
qed auto

text \<open>One \<open>dequeue\<close> pops the tenant whose turn it is and leaves the others alone.\<close>

lemma composed_take_Some:
  assumes "composed_inv s" "composed_take s = (Some x, s')"
  shows "composed_tenant_pop (composed_jobs s (cj_tenant_id x)) = (Some x, composed_jobs s' (cj_tenant_id x))"
    and "t \<noteq> cj_tenant_id x \<Longrightarrow> composed_jobs s' t = composed_jobs s t"
    and "composed_size s = Suc (composed_size s')"
proof -
  have c: "all_jobs (cs_queues s) = add_mset x (all_jobs (cs_queues s'))"
    using composed_bound.deq_contents [OF assms] by simp
  show "composed_size s = Suc (composed_size s')"
    using arg_cong [OF c, of size] by (simp add: composed_size_total)
  from assms(1) show "t \<noteq> cj_tenant_id x \<Longrightarrow> composed_jobs s' t = composed_jobs s t"
    by (rule composed_dequeue_cases) (use assms(2) in \<open>auto dest!: composed_take_eq\<close>)
  from assms(1) show "composed_tenant_pop (composed_jobs s (cj_tenant_id x)) = (Some x, composed_jobs s' (cj_tenant_id x))"
  proof (cases rule: composed_dequeue_cases)
    case idle
    then show ?thesis using assms(2) by (simp add: composed_take_eq)
  next
    case (turn t p i job s'')
    then have e: "s'' = s'" "job = x" using assms(2) by (auto simp: composed_take_eq)
    with turn show ?thesis by (auto simp: composed_tenant_pop_def list_pop_def)
  qed
qed

text \<open>Dequeues without arrivals in between, seen by one tenant, are removals from its list.\<close>

lemma composed_drain_tenant:
  assumes "composed_inv s" "take_n composed_take n s = (xs, s')"
  shows "take_n composed_tenant_pop (length (filter (\<lambda>j. cj_tenant_id j = t) xs)) (composed_jobs s t) =
    (filter (\<lambda>j. cj_tenant_id j = t) xs, composed_jobs s' t) \<and>
    (composed_size s \<le> n \<longrightarrow> composed_jobs s' t = [])"
  using assms
proof (induction n arbitrary: s xs)
  case 0
  then show ?case using composed_size_0 [OF 0(1)] by simp
next
  case (Suc n)
  obtain r s1 where r: "composed_take s = (r, s1)" by fastforce
  show ?case
  proof (cases r)
    case None
    then have "\<forall>t. length (composed_jobs s t) = 0"
      using composed_turn.deq_work_conserving [OF Suc.prems(1)] r by simp
    then show ?thesis using Suc.prems r None composed_turn.deq_idle [OF Suc.prems(1)] by simp
  next
    case (Some x)
    obtain ys where ys: "take_n composed_take n s1 = (ys, s')" "xs = x # ys"
      using Suc.prems(2) r Some by (auto split: prod.splits)
    note step = composed_take_Some [OF Suc.prems(1) r [unfolded Some]]
    have ih: "take_n composed_tenant_pop (length (filter (\<lambda>j. cj_tenant_id j = t) ys)) (composed_jobs s1 t) =
        (filter (\<lambda>j. cj_tenant_id j = t) ys, composed_jobs s' t)"
      "composed_size s1 \<le> n \<longrightarrow> composed_jobs s' t = []"
      using Suc.IH [OF composed_take_turn_inv(1) [OF Suc.prems(1) r] ys(1)] by auto
    show ?thesis
      using ih step(1) step(2) [of t] step(3) ys(2) by (cases "cj_tenant_id x = t") auto
  qed
qed

lemma composed_drain_sorted:
  assumes "composed_inv s" "composed_size s \<le> m" "take_n composed_take m s = (xs, s')"
  shows "mset (filter (\<lambda>j. cj_tenant_id j = t) xs) = mset (composed_jobs s t) \<and>
     sorted (map (\<lambda>j. (- cj_priority j, cj_created_at j, cj_job_id j)) (filter (\<lambda>j. cj_tenant_id j = t) xs))"
proof -
  let ?f = "filter (\<lambda>j. cj_tenant_id j = t) xs"
  have d: "take_n composed_tenant_pop (length ?f) (composed_jobs s t) = (?f, [])"
    using composed_drain_tenant [OF assms(1,3), of t] assms(2) by simp
  have "length (composed_jobs s t) \<le> length ?f" using composed_tenant.take_n_length [OF _ d] by simp
  then have "mset ?f = mset (composed_jobs s t) \<and> sorted (map composed_rank ?f)"
    using composed_tenant.drain_sorted [OF _ _ d] by simp
  then show ?thesis by (simp add: composed_rank_def [abs_def])
qed

lemma composed_run:
  assumes "composed_init n weights = Inr s0" "dict_wf weights"
    and "run_queue composed_admit composed_take ops s0 = (ins, outs, s)"
  shows "composed_inv s" "cs_cycle s = cs_cycle s0" "dict_keys (cs_queues s) = dict_keys weights"
proof -
  let ?P = "\<lambda>s. composed_inv s \<and> cs_cycle s = cs_cycle s0 \<and> dict_keys (cs_queues s) = dict_keys weights"
  have enq: "?P (snd (composed_admit s x))" if P: "?P s" for s x
  proof -
    have "snd (composed_admit s x) = snd (composed_enqueue s x)" by (simp add: composed_admit_def split: prod.splits)
    then show ?thesis
      using P composed_enqueue_inv [of s x] composed_enqueue_status [of s x]
      by (auto simp: composed_enqueue_state dict_keys_set_same split: if_splits)
  qed
  have deq: "?P (snd (composed_take s))" if P: "?P s" for s
    using P composed_take_turn_inv [of s "fst (composed_take s)" "snd (composed_take s)"] by simp
  have "dict_keys (cs_queues s0) = dict_keys weights"
    using composed_init_ok [OF assms(1,2)] by (simp add: dict_keys_def comp_def case_prod_beta)
  then have "?P s"
    using run_queue_keeps [of ?P composed_admit composed_take, OF enq deq assms(3)] composed_init_inv [OF assms(1,2)] by blast
  then show "composed_inv s" "cs_cycle s = cs_cycle s0" "dict_keys (cs_queues s) = dict_keys weights" by auto
qed

section \<open>Properties\<close>

text \<open>
  C17: Under any sequence of \<open>enqueue\<close> and \<open>dequeue\<close> calls, a \<open>ComposedScheduler\<close> never holds
  more than \<open>capacity\<close> jobs over all tenants, loses no accepted job and returns none twice, and
  \<open>dequeue\<close> and \<open>peek\<close> never raise and agree; \<open>dequeue\<close> returns nothing only when no job is left.
\<close>

theorem composed_safe:
  assumes "composed_init n weights = Inr s0" and "dict_wf weights"
    and "run_queue composed_admit composed_take ops s0 = (ins, outs, s)"
  shows "mset ins = mset outs + all_jobs (cs_queues s) \<and>
     int (composed_size s) \<le> n \<and> composed_remaining_capacity s = n - int (composed_size s) \<and>
     (\<exists>r. fst (composed_dequeue s) = Inr r \<and> composed_peek s = Inr r \<and> (r = None \<longleftrightarrow> composed_size s = 0))"
proof -
  note init = composed_init_ok [OF assms(1,2)] and inv0 = composed_init_inv [OF assms(1,2)]
  note inv = composed_run(1) [OF assms]
  have "mset ins = mset outs + all_jobs (cs_queues s)"
    using composed_bound.run_contents [OF assms(3) inv0] init by simp
  moreover have "int (composed_size s) \<le> n" "cs_capacity s = n"
    using composed_bound.run_bounded [OF assms(3) inv0] composed_bound.run_capacity [OF assms(3) inv0] init
    by (auto simp: composed_size_total)
  moreover have "\<exists>r. fst (composed_dequeue s) = Inr r \<and> composed_peek s = Inr r \<and> (r = None \<longleftrightarrow> composed_size s = 0)"
    using inv by (rule composed_dequeue_cases) (auto simp: composed_size_0 [OF inv])
  ultimately show ?thesis by (simp add: composed_remaining_capacity_def)
qed

text \<open>The tenants and jobs of the witnesses.\<close>

definition cs_demo_weights :: "(string, int) dict" where
  "cs_demo_weights = [(''a'', 1), (''b'', 1)]"

definition cs_demo_job :: "string \<Rightarrow> string \<Rightarrow> int \<Rightarrow> cs_job" where
  "cs_demo_job i t p = \<lparr>cj_job_id = i, cj_tenant_id = t, cj_priority = p, cj_created_at = 0\<rparr>"

definition cs_demo_start :: composed where
  "cs_demo_start = \<lparr>cs_capacity = 3, cs_queues = [(''a'', []), (''b'', [])], cs_cycle = [''a'', ''b''], cs_cycle_pos = 0\<rparr>"

definition cs_demo_ops :: "cs_job queue_op list" where
  "cs_demo_ops = [Submit (cs_demo_job ''1'' ''a'' 0), Submit (cs_demo_job ''2'' ''a'' 5), Submit (cs_demo_job ''3'' ''b'' 1)]"

definition cs_demo_full :: composed where
  "cs_demo_full = cs_demo_start\<lparr>cs_queues :=
     [(''a'', [cs_demo_job ''1'' ''a'' 0, cs_demo_job ''2'' ''a'' 5]), (''b'', [cs_demo_job ''3'' ''b'' 1])]\<rparr>"

lemmas cs_demo_defs = cs_demo_weights_def cs_demo_job_def cs_demo_start_def cs_demo_ops_def cs_demo_full_def

lemma cs_demo_init: "composed_init 3 cs_demo_weights = Inr cs_demo_start" "dict_wf cs_demo_weights"
  by (simp_all add: composed_init_def cs_demo_defs composed_build_weight_cycle_def composed_gcd_of_weights_def
      dict_wf_def dict_keys_def is_blank_iff py_isspace_def)

lemma cs_demo_run: "run_queue composed_admit composed_take cs_demo_ops cs_demo_start =
    ([cs_demo_job ''1'' ''a'' 0, cs_demo_job ''2'' ''a'' 5, cs_demo_job ''3'' ''b'' 1], [], cs_demo_full)"
  by (simp add: cs_demo_defs composed_admit_def composed_enqueue_def composed_size_def dict_get_def dict_set_def
      is_blank_iff py_isspace_def)

theorem composed_safe_witness:
  "int (composed_size cs_demo_full) \<le> 3 \<and> composed_remaining_capacity cs_demo_full = 0 \<and>
   (\<exists>r. fst (composed_dequeue cs_demo_full) = Inr r \<and> composed_peek cs_demo_full = Inr r \<and> r \<noteq> None)"
proof -
  have "composed_size cs_demo_full = 3" by (simp add: composed_size_def cs_demo_defs)
  then show ?thesis using composed_safe [OF cs_demo_init cs_demo_run] by auto
qed

text \<open>
  Draining a \<open>ComposedScheduler\<close> (at least \<open>size\<close> dequeues with no arrivals in between)
  returns every waiting job, and the jobs of each tenant come out in order of descending
  priority, then ascending \<open>created_at\<close>, then ascending \<open>job_id\<close>.
\<close>

theorem composed_drain_order:
  assumes "composed_init n weights = Inr s0" and "dict_wf weights"
    and "run_queue composed_admit composed_take ops s0 = (ins, outs, s)"
    and "composed_size s \<le> m" and "take_n composed_take m s = (xs, s')"
  shows "mset (filter (\<lambda>j. cj_tenant_id j = t) xs) = mset (composed_jobs s t) \<and>
     sorted (map (\<lambda>j. (- cj_priority j, cj_created_at j, cj_job_id j)) (filter (\<lambda>j. cj_tenant_id j = t) xs))"
  by (rule composed_drain_sorted [OF composed_run(1) [OF assms(1-3)] assms(4,5)])


theorem composed_drain_order_witness:
  "\<exists>xs s'. take_n composed_take 3 cs_demo_full = (xs, s') \<and>
     mset (filter (\<lambda>j. cj_tenant_id j = ''a'') xs) = mset (composed_jobs cs_demo_full ''a'') \<and>
     sorted (map (\<lambda>j. (- cj_priority j, cj_created_at j, cj_job_id j)) (filter (\<lambda>j. cj_tenant_id j = ''a'') xs))"
proof -
  obtain xs s' where t: "take_n composed_take 3 cs_demo_full = (xs, s')" by fastforce
  have "composed_size cs_demo_full \<le> 3" by (simp add: composed_size_def cs_demo_defs)
  from composed_drain_order [OF cs_demo_init cs_demo_run this t, of "''a''"] t show ?thesis by blast
qed

text \<open>
  C18: The policy of one \<open>dequeue\<close> with work waiting: it visits the slots of the cycle from the
  current position, skips the tenants without jobs, stops at the first tenant that has one,
  within one lap; it takes a job of that tenant that no other job of the tenant outranks, and
  leaves the position just past the slot.
\<close>

theorem composed_dequeue_policy:
  assumes "composed_init n weights = Inr s0" and "dict_wf weights"
    and "run_queue composed_admit composed_take ops s0 = (ins, outs, s)" and "0 < composed_size s"
  shows "\<exists>d job s'. d < length (cs_cycle s) \<and> composed_dequeue s = (Inr (Some job), s') \<and>
     cj_tenant_id job = cs_cycle s ! ((cs_cycle_pos s + d) mod length (cs_cycle s)) \<and>
     job \<in> set (composed_jobs s (cj_tenant_id job)) \<and>
     (\<forall>i < d. composed_jobs s (cs_cycle s ! ((cs_cycle_pos s + i) mod length (cs_cycle s))) = []) \<and>
     (\<forall>j \<in> set (composed_jobs s (cj_tenant_id job)). \<not> composed_better j job) \<and>
     cs_cycle_pos s' = (cs_cycle_pos s + d + 1) mod length (cs_cycle s)"
proof -
  note inv = composed_run(1) [OF assms(1-3)]
  obtain u where u: "0 < length (composed_jobs s u)" using composed_size_0 [OF inv] assms(4) by auto
  obtain d job s' where d: "d < length (cs_cycle s)" "composed_take s = (Some job, s')"
    "cj_tenant_id job = cs_cycle s ! ((cs_cycle_pos s + d) mod length (cs_cycle s))"
    "\<And>i. i < d \<Longrightarrow> length (composed_jobs s (cs_cycle s ! ((cs_cycle_pos s + i) mod length (cs_cycle s)))) = 0"
    "cs_cycle_pos s' = (cs_cycle_pos s + d + 1) mod length (cs_cycle s)"
    using composed_turn.deq_slot [OF inv u] by metis
  have "composed_dequeue s = (Inr (Some job), s') \<and> job \<in> set (composed_jobs s (cj_tenant_id job)) \<and>
      (\<forall>j \<in> set (composed_jobs s (cj_tenant_id job)). \<not> composed_better j job)"
    using inv
  proof (cases rule: composed_dequeue_cases)
    case idle
    then show ?thesis using d(2) by (simp add: composed_take_eq)
  next
    case (turn t p i job' s'')
    have "job' = job" "s'' = s'" using d(2) composed_take_eq [OF turn(7)] by auto
    then show ?thesis using turn(5,7,9,13) by (auto simp: composed_better_rank not_less)
  qed
  then show ?thesis using d by auto
qed

theorem composed_dequeue_policy_witness:
  "\<exists>job s'. composed_dequeue cs_demo_full = (Inr (Some job), s') \<and>
     (\<forall>j \<in> set (composed_jobs cs_demo_full (cj_tenant_id job)). \<not> composed_better j job)"
proof -
  have "0 < composed_size cs_demo_full" by (simp add: composed_size_def cs_demo_defs)
  from composed_dequeue_policy [OF cs_demo_init cs_demo_run this] show ?thesis by blast
qed

text \<open>
  C20: Tenants are isolated under load. In any reachable state, a tenant with a job waiting gets
  a turn within one lap of the cycle; and when every tenant has at least \<open>weight / gcd\<close> jobs,
  a lap serves each exactly that often.
\<close>

theorem composed_fair:
  assumes "composed_init n weights = Inr s0" and "dict_wf weights"
    and "run_queue composed_admit composed_take ops s0 = (ins, outs, s)"
    and "take_n composed_take (length (cs_cycle s)) s = (xs, s')"
  shows "(composed_jobs s t \<noteq> [] \<longrightarrow> t \<in> cj_tenant_id ` set xs) \<and>
     ((\<forall>(u, w) \<in> set weights. w div weights_gcd weights \<le> int (length (composed_jobs s u))) \<longrightarrow>
      (\<forall>(u, w) \<in> set weights. int (count_list (map cj_tenant_id xs) u) = w div weights_gcd weights))"
proof -
  note inv = composed_run(1) [OF assms(1-3)]
  have pw: "positive_weights weights" and c: "build_weight_cycle weights = Inr (cs_cycle s)"
    using composed_init_ok [OF assms(1,2)] composed_run(2) [OF assms(1-3)] by auto
  have "int (count_list (map cj_tenant_id xs) u) = w div weights_gcd weights"
    if enough: "\<forall>(u, w) \<in> set weights. w div weights_gcd weights \<le> int (length (composed_jobs s u))"
      and u: "(u, w) \<in> set weights" for u w
  proof -
    have slots: "count_list (cs_cycle s) u \<le> length (composed_jobs s u)" for u
      using cycle_slots_le [OF pw c enough] .
    show ?thesis using composed_turn.lap_fair [OF inv slots assms(4)] cycle_slots_mem [OF pw c u] by simp
  qed
  then show ?thesis using composed_turn.served_within_lap [OF inv _ assms(4), of t] by blast
qed

theorem composed_fair_witness:
  "''b'' \<in> cj_tenant_id ` set (fst (take_n composed_take 2 cs_demo_full))"
proof -
  obtain xs s' where t: "take_n composed_take 2 cs_demo_full = (xs, s')" by fastforce
  have l: "length (cs_cycle cs_demo_full) = 2" and b: "composed_jobs cs_demo_full ''b'' \<noteq> []"
    by (simp_all add: cs_demo_defs tenant_jobs_def dict_get_def)
  show ?thesis using composed_fair [OF cs_demo_init cs_demo_run, unfolded l, OF t, of "''b''"] b t by simp
qed

text \<open>
  The outcomes of \<open>ComposedScheduler.enqueue\<close>: a blank \<open>job_id\<close>, a blank \<open>tenant_id\<close> and an
  unknown tenant are rejected as invalid, even when the scheduler is full; a valid job is
  rejected as full exactly when no capacity remains; an accepted job goes to the back of its
  tenant's list and a rejection changes nothing.
\<close>

theorem composed_enqueue_outcomes:
  "(case composed_enqueue s job of (r, s') \<Rightarrow>
     er_status r =
       (if is_blank (cj_job_id job) \<or> is_blank (cj_tenant_id job) \<or> cj_tenant_id job \<notin> set (dict_keys (cs_queues s))
        then REJECTED_INVALID
        else if composed_remaining_capacity s \<le> 0 then REJECTED_FULL else ACCEPTED) \<and>
     s' = (if is_accepted r
       then s\<lparr>cs_queues := dict_set (cj_tenant_id job) (composed_jobs s (cj_tenant_id job) @ [job]) (cs_queues s)\<rparr>
       else s))"
  using composed_enqueue_status [of s job] composed_enqueue_state [of s job]
  by (simp add: case_prod_beta is_accepted_def)


theorem composed_enqueue_outcomes_witness:
  "composed_remaining_capacity cs_demo_full \<le> 0 \<and>
   er_status (fst (composed_enqueue cs_demo_full (cs_demo_job ''4'' ''z'' 0))) = REJECTED_INVALID \<and>
   er_status (fst (composed_enqueue cs_demo_full (cs_demo_job ''4'' ''a'' 0))) = REJECTED_FULL"
proof -
  have c: "composed_remaining_capacity cs_demo_full \<le> 0"
    by (simp add: composed_remaining_capacity_def composed_size_def cs_demo_defs)
  have k: "''z'' \<notin> set (dict_keys (cs_queues cs_demo_full))" "''a'' \<in> set (dict_keys (cs_queues cs_demo_full))"
    by (simp_all add: cs_demo_defs dict_keys_def)
  have b: "\<not> is_blank ''4''" "\<not> is_blank ''a''" by (simp_all add: is_blank_iff py_isspace_def)
  have j: "cj_job_id (cs_demo_job i t p) = i" "cj_tenant_id (cs_demo_job i t p) = t" for i t p
    by (simp_all add: cs_demo_job_def)
  show ?thesis
    using composed_enqueue_outcomes [where s = cs_demo_full and job = "cs_demo_job ''4'' ''z'' 0"]
      composed_enqueue_outcomes [where s = cs_demo_full and job = "cs_demo_job ''4'' ''a'' 0"] c k b
    by (simp add: case_prod_beta j)
qed

end
