(* ===== verification/Py_Float.thy ===== *)
theory Py_Float
  imports Complex_Main "HOL-Library.Log_Nat"
begin

text \<open>
  Python floats as far as the control plane computes with them: clock readings in seconds, to
  which an integer time-to-live is added, and durations. A finite float is the rational number
  it denotes; an arithmetic operation gives the exact result rounded to the nearest IEEE 754
  binary64 number, ties to even, as CPython's does. The magnitudes here (seconds since 1970)
  are far below the overflow threshold, so infinities and NaN are left out.
\<close>

type_synonym py_float = rat

definition round_even :: "rat \<Rightarrow> int" where
  "round_even x =
     (let f = \<lfloor>x\<rfloor>; d = x - of_int f in
      if d < 1 / 2 \<or> (d = 1 / 2 \<and> even f) then f else f + 1)"

text \<open>The binary exponent of a positive number: the greatest \<open>e\<close> with \<open>2 powi e \<le> x\<close>.\<close>

definition binary_exponent :: "rat \<Rightarrow> int" where
  "binary_exponent x =
     (if 1 \<le> x then int (floorlog 2 (nat \<lfloor>x\<rfloor>)) - 1
      else - int (floorlog 2 (nat (\<lceil>1 / x\<rceil> - 1))))"

definition fl :: "rat \<Rightarrow> py_float" where
  "fl x =
     (if x = 0 then 0
      else let u = 2 powi (max (binary_exponent \<bar>x\<bar> - 52) (- 1074)) in of_int (round_even (x / u)) * u)"

definition float_add_int :: "py_float \<Rightarrow> int \<Rightarrow> py_float" where
  "float_add_int x n = fl (x + fl (of_int n))"

definition float_sub :: "py_float \<Rightarrow> py_float \<Rightarrow> py_float" where
  "float_sub x y = fl (x - y)"

lemma round_even_int [simp]: "round_even (of_int n) = n"
  by (simp add: round_even_def)

lemma round_even_error: "\<bar>of_int (round_even x) - x\<bar> \<le> 1 / 2"
proof -
  have "of_int \<lfloor>x\<rfloor> \<le> x" "x < of_int \<lfloor>x\<rfloor> + 1" by linarith+
  then show ?thesis unfolding round_even_def Let_def by (auto simp: abs_le_iff) 
qed

lemma binary_exponent_ge1:
  assumes "1 \<le> x" shows "2 powi binary_exponent x \<le> x" "0 \<le> binary_exponent x"
    and "x < 2 ^ n \<Longrightarrow> binary_exponent x < int n"
proof -
  let ?k = "nat \<lfloor>x\<rfloor>" and ?l = "floorlog 2 (nat \<lfloor>x\<rfloor>)"
  have k: "0 < ?k" "rat_of_nat ?k \<le> x" using assms by (auto simp: le_floor_iff)
  have b: "2 ^ (?l - 1) \<le> ?k" "?k < 2 ^ ?l" using floorlog_bounds [of ?k 2] k(1) by auto
  have l: "0 < ?l" using b(2) k(1) by (cases "?l") auto
  have e: "binary_exponent x = int (?l - 1)" using assms l by (simp add: binary_exponent_def of_nat_diff)
  have "(2 :: rat) powi binary_exponent x = of_nat (2 ^ (?l - 1))" by (simp add: e)
  also have "\<dots> \<le> of_nat ?k" using b(1) by (simp only: of_nat_le_iff)
  finally show "2 powi binary_exponent x \<le> x" using k(2) by linarith
  show "0 \<le> binary_exponent x" by (simp add: e)
  assume "x < 2 ^ n"
  with k(2) have "rat_of_nat ?k < 2 ^ n" by (rule le_less_trans)
  then have "rat_of_nat ?k < of_nat (2 ^ n)" by (simp only: of_nat_power of_nat_numeral)
  then have "?k < 2 ^ n" by (simp only: of_nat_less_iff)
  then have "(2 :: nat) ^ (?l - 1) < 2 ^ n" using b(1) by linarith
  then show "binary_exponent x < int n" by (simp add: e)
qed

text \<open>The rounding error of a number of magnitude at least one is at most one part in \<open>2 ^ 53\<close>.\<close>

lemma fl_error:
  assumes "1 \<le> x" shows "\<bar>fl x - x\<bar> \<le> x / 2 ^ 53"
proof -
  let ?e = "binary_exponent x"
  define u :: rat where "u = 2 powi (max (?e - 52) (- 1074))"
  have u: "0 < u" by (simp add: u_def)
  have m: "max (?e - 52) (- 1074) = ?e - 52" using binary_exponent_ge1(2) [OF assms] by simp
  have "u = 2 powi ?e / 2 ^ 52" unfolding u_def m by (simp add: power_int_diff)
  then have ub: "u \<le> x / 2 ^ 52" using binary_exponent_ge1(1) [OF assms] by (simp add: divide_right_mono)
  have "fl x = of_int (round_even (x / u)) * u" using assms by (simp add: fl_def u_def Let_def)
  then have "fl x - x = (of_int (round_even (x / u)) - x / u) * u" using u by (simp add: field_simps)
  then have "\<bar>fl x - x\<bar> = \<bar>of_int (round_even (x / u)) - x / u\<bar> * u" using u by (simp add: abs_mult)
  also have "\<dots> \<le> 1 / 2 * u" using round_even_error [of "x / u"] u by (intro mult_right_mono) auto
  also have "\<dots> \<le> x / 2 ^ 53" using ub by simp
  finally show ?thesis .
qed

text \<open>Integers below \<open>2 ^ 53\<close> are floats.\<close>

lemma fl_int:
  assumes "0 \<le> n" "n < 2 ^ 53" shows "fl (of_int n) = of_int n"
proof (cases "n = 0")
  case False
  let ?x = "rat_of_int n"
  have x: "1 \<le> ?x" using False assms(1) by simp
  have "?x < of_int (2 ^ 53)" using assms(2) by (simp only: of_int_less_iff)
  then have e: "0 \<le> binary_exponent ?x" "binary_exponent ?x \<le> 52"
    using binary_exponent_ge1(2) [OF x] binary_exponent_ge1(3) [OF x, of 53] by auto
  define k where "k = nat (52 - binary_exponent ?x)"
  have k: "max (binary_exponent ?x - 52) (- 1074) = - int k" using e by (simp add: k_def)
  have "?x / 2 powi (- int k) = of_int (n * 2 ^ k)" by (simp add: power_int_minus field_simps)
  then have "round_even (?x / 2 powi (- int k)) = n * 2 ^ k" by (simp only: round_even_int)
  then show ?thesis using x k False by (simp add: fl_def Let_def power_int_minus)
qed (simp add: fl_def)

text \<open>A positive time-to-live moves a clock reading strictly forward.\<close>

lemma float_add_int_greater:
  assumes "0 \<le> x" "0 < n" "x + of_int n < 2 ^ 53"
  shows "x < float_add_int x n"
proof -
  have "rat_of_int n < of_int (2 ^ 53)" using assms(1,3) by simp
  then have "n < 2 ^ 53" by (simp only: of_int_less_iff)
  then have n: "fl (of_int n) = of_int n" using assms(2) by (simp add: fl_int)
  have n1: "1 \<le> rat_of_int n" using assms(2) by simp
  then have "\<bar>fl (x + of_int n) - (x + of_int n)\<bar> \<le> (x + of_int n) / 2 ^ 53" using assms(1) by (intro fl_error) simp
  also have "\<dots> < 1" using assms(3) by simp
  finally show ?thesis using n1 by (simp add: float_add_int_def n abs_less_iff)
qed

lemma float_add_int_exact:
  assumes "0 \<le> m" "0 \<le> n" "m + n < 2 ^ 53"
  shows "float_add_int (of_int m) n = of_int (m + n)"
  using assms fl_int [of n] fl_int [of "m + n"] by (simp add: float_add_int_def)

end
