(* ===== verification/Idempotency_Store.thy ===== *)
theory Idempotency_Store
  imports Prelude Py_Float
begin

text \<open>
  The duplicate-suppression stores of \<open>kernelq/idempotency_store.py\<close>. The abstract class
  \<open>IdempotencyStore\<close> is the locale \<open>idempotency_store\<close>: an operation \<open>try_claim\<close> at a clock
  reading, and the set of keys that are live at a time. Its lemmas (a key is granted to at most
  one caller per time-to-live) hold for every store. \<open>InMemoryIdempotencyStore\<close> interprets it;
  \<open>ideal_answers\<close> is what the interface promises, as a function of the requests alone; the lemma
  \<open>run_ideal\<close> shows that every store answers so. \<open>RedisIdempotencyStore\<close> keeps it whenever its client's \<open>set\<close> behaves as Redis documents
  \<open>SET key value NX EX ttl\<close>.
\<close>

section \<open>The interface\<close>

definition validate_claim_inputs :: "string \<Rightarrow> int \<Rightarrow> exc option" where
  "validate_claim_inputs key ttl_seconds =
     (if key = [] \<or> is_blank key then Some (ValueError ''key must be non-empty'')
      else if ttl_seconds \<le> 0 then Some (ValueError ''ttl_seconds must be a positive integer'')
      else None)"

definition validate_namespace :: "string \<Rightarrow> exc option" where
  "validate_namespace namespace =
     (if namespace = [] \<or> is_blank namespace then Some (ValueError ''namespace must be non-empty'') else None)"

lemma validate_claim_inputs_None:
  "validate_claim_inputs key ttl = None \<longleftrightarrow> \<not> is_blank key \<and> 0 < ttl"
  by (auto simp: validate_claim_inputs_def)

text \<open>A request is a key, its time-to-live and the time at which the store sees it; a run of requests records the answers.\<close>

type_synonym 't claim = "string \<times> int \<times> 't"

fun run_claims :: "('s \<Rightarrow> 't \<Rightarrow> string \<Rightarrow> int \<Rightarrow> bool result \<times> 's) \<Rightarrow> 't claim list \<Rightarrow> 's \<Rightarrow> bool result list \<times> 's" where
  "run_claims claim [] s = ([], s)"
| "run_claims claim ((k, ttl, now) # cs) s =
     (case claim s now k ttl of (r, s1) \<Rightarrow> (case run_claims claim cs s1 of (rs, s2) \<Rightarrow> (r # rs, s2)))"

text \<open>
  The specification: a valid request is granted exactly when no earlier grant of the same key
  is still running. It needs only the granted requests so far.
\<close>

definition held :: "('t :: linorder \<Rightarrow> int \<Rightarrow> 't) \<Rightarrow> 't claim list \<Rightarrow> 't \<Rightarrow> string \<Rightarrow> bool" where
  "held deadline granted t k = (\<exists>(k', ttl, now) \<in> set granted. k' = k \<and> t < deadline now ttl)"

lemma held_append: "held deadline (xs @ ys) t k \<longleftrightarrow> held deadline xs t k \<or> held deadline ys t k"
  by (auto simp: held_def)

fun ideal_answers :: "('t :: linorder \<Rightarrow> int \<Rightarrow> 't) \<Rightarrow> 't claim list \<Rightarrow> 't claim list \<Rightarrow> bool result list" where
  "ideal_answers deadline granted [] = []"
| "ideal_answers deadline granted ((k, ttl, now) # cs) =
     (case validate_claim_inputs k ttl of
        Some e \<Rightarrow> Inl e # ideal_answers deadline granted cs
      | None \<Rightarrow>
          if held deadline granted now k then Inr False # ideal_answers deadline granted cs
          else Inr True # ideal_answers deadline ((k, ttl, now) # granted) cs)"

locale idempotency_store =
  fixes claim :: "'s \<Rightarrow> 't :: linorder \<Rightarrow> string \<Rightarrow> int \<Rightarrow> bool result \<times> 's"
    and live :: "'s \<Rightarrow> 't \<Rightarrow> string \<Rightarrow> bool"
    and deadline :: "'t \<Rightarrow> int \<Rightarrow> 't"
  assumes live_earlier: "live s t k \<Longrightarrow> t' \<le> t \<Longrightarrow> live s t' k"
    and claim_invalid: "validate_claim_inputs k ttl = Some e \<Longrightarrow> claim s now k ttl = (Inl e, s)"
    and claim_valid: "validate_claim_inputs k ttl = None \<Longrightarrow>
      \<exists>s'. claim s now k ttl = (Inr (\<not> live s now k), s') \<and>
        (\<forall>t k'. now \<le> t \<longrightarrow>
           live s' t k' = (if k' = k \<and> \<not> live s now k then t < deadline now ttl else live s t k'))"
begin

lemma claim_result:
  "fst (claim s now k ttl) =
     (case validate_claim_inputs k ttl of Some e \<Rightarrow> Inl e | None \<Rightarrow> Inr (\<not> live s now k))"
  using claim_invalid [of k ttl _ s now] claim_valid [of k ttl s now] by (auto split: option.splits)

lemma claim_step:
  assumes "claim s now k' ttl = (r, s')" "now \<le> t"
  shows "live s' t k \<longleftrightarrow> live s t k \<or> k' = k \<and> r = Inr True \<and> t < deadline now ttl"
proof (cases "validate_claim_inputs k' ttl")
  case (Some e)
  then show ?thesis using claim_invalid [OF Some, of s now] assms(1) by simp
next
  case None
  obtain s1 where c: "claim s now k' ttl = (Inr (\<not> live s now k'), s1)"
    "\<And>t k. now \<le> t \<Longrightarrow> live s1 t k = (if k = k' \<and> \<not> live s now k' then t < deadline now ttl else live s t k)"
    using claim_valid [OF None, of s now] by blast
  then have e: "s1 = s'" "r = Inr (\<not> live s now k')" using assms(1) by auto
  show ?thesis using c(2) [OF assms(2), of k] e live_earlier [of s t k now] assms(2) by auto
qed

text \<open>Every store answers a run of requests that arrive in time order as the specification says.\<close>

lemma run_ideal:
  assumes "sorted (map (snd \<circ> snd) cs)"
    and "\<And>t k. cs \<noteq> [] \<Longrightarrow> snd (snd (hd cs)) \<le> t \<Longrightarrow> live s t k = held deadline granted t k"
  shows "fst (run_claims claim cs s) = ideal_answers deadline granted cs"
  using assms
proof (induction cs arbitrary: s granted)
  case Nil
  then show ?case by simp
next
  case (Cons c cs)
  obtain k ttl now where c: "c = (k, ttl, now)" by (metis prod_cases3)
  obtain r s1 where r: "claim s now k ttl = (r, s1)" by fastforce
  have le: "now \<le> t" if "cs \<noteq> []" "snd (snd (hd cs)) \<le> t" for t
    using Cons.prems(1) that by (cases cs) (auto simp: c)
  have live: "live s t k' = held deadline granted t k'" if "now \<le> t" for t k' using Cons.prems(2) that c by simp
  have res: "r = (case validate_claim_inputs k ttl of Some e \<Rightarrow> Inl e | None \<Rightarrow> Inr (\<not> held deadline granted now k))"
    using claim_result [of s now k ttl] r unfolding live [OF order_refl] by simp
  let ?g = "if r = Inr True then (k, ttl, now) # granted else granted"
  have "live s1 t k' = held deadline ?g t k'" if "now \<le> t" for t k'
    using claim_step [OF r that, of k'] live [OF that] by (auto simp: held_def)
  then have "fst (run_claims claim cs s1) = ideal_answers deadline ?g cs"
    using Cons.IH [of s1 ?g] Cons.prems(1) le by auto
  then show ?case using r res c by (auto split: prod.splits option.splits)
qed

end

text \<open>
  Two grants of one key are at least a time-to-live apart: the specification never grants a
  key while an earlier grant of it is running.
\<close>

lemma ideal_refuses:
  assumes "held deadline granted t k" "ideal_answers deadline granted cs ! i = Inr True" "i < length cs"
    and "cs ! i = (k, ttl, now)" "now \<le> t"
  shows False
  using assms
proof (induction deadline granted cs arbitrary: i rule: ideal_answers.induct)
  case (2 deadline granted k' ttl' now' cs)
  have mono: "held deadline (g # granted) t k" for g using "2.prems"(1) by (simp add: held_def)
  show ?case
  proof (cases i)
    case 0
    then show ?thesis using "2.prems" by (auto simp: held_def split: option.splits if_splits)
  next
    case (Suc j)
    with "2.prems" "2.IH" mono show ?thesis by (auto split: option.splits if_splits)
  qed
qed simp

lemma ideal_granted_valid:
  "ideal_answers deadline granted cs ! i = Inr True \<Longrightarrow> i < length cs \<Longrightarrow> 0 < fst (snd (cs ! i))"
proof (induction deadline granted cs arbitrary: i rule: ideal_answers.induct)
  case (2 deadline granted k ttl now cs)
  then show ?case
    by (cases i) (auto simp: validate_claim_inputs_None split: option.splits if_splits)
qed simp

lemma ideal_grants_apart:
  assumes "ideal_answers deadline granted cs ! i = Inr True" "ideal_answers deadline granted cs ! j = Inr True"
    and "i < j" "j < length cs" "cs ! i = (k, ttl, now)" "cs ! j = (k, ttl', now')"
  shows "deadline now ttl \<le> now'"
  using assms
proof (induction deadline granted cs arbitrary: i j rule: ideal_answers.induct)
  case (2 deadline granted k1 ttl1 now1 cs)
  obtain j' where j: "j = Suc j'" using "2.prems"(3) by (cases j) auto
  show ?case
  proof (cases i)
    case 0
    show ?thesis
    proof (rule ccontr)
      assume "\<not> deadline now ttl \<le> now'"
      then have "held deadline ((k, ttl, now) # granted) now' k" by (simp add: held_def not_le)
      then show False
        using ideal_refuses [of deadline "(k, ttl, now) # granted" now' k cs j' ttl' now'] 0 j "2.prems"
        by (auto split: option.splits if_splits)
    qed
  next
    case (Suc i')
    with j "2.prems" "2.IH" show ?thesis by (auto split: option.splits if_splits)
  qed
qed simp

text \<open>
  Which of a sequence of requests are granted, when all have one time-to-live: the requests are
  the values of a list, with their key and their time. Clients of a store use it to say which of
  their messages take effect.
\<close>

fun first_claims ::
    "('t :: linorder \<Rightarrow> int \<Rightarrow> 't) \<Rightarrow> int \<Rightarrow> ('a \<Rightarrow> 't) \<Rightarrow> ('a \<Rightarrow> string) \<Rightarrow> 't claim list \<Rightarrow> 'a list \<Rightarrow> 'a list" where
  "first_claims deadline ttl tm key granted [] = []"
| "first_claims deadline ttl tm key granted (d # ds) =
     (if held deadline granted (tm d) (key d) then first_claims deadline ttl tm key granted ds
      else d # first_claims deadline ttl tm key ((key d, ttl, tm d) # granted) ds)"

text \<open>Granted requests keep apart, also from those granted before.\<close>

definition claims_apart ::
    "('t :: linorder \<Rightarrow> int \<Rightarrow> 't) \<Rightarrow> int \<Rightarrow> ('a \<Rightarrow> 't) \<Rightarrow> ('a \<Rightarrow> string) \<Rightarrow> 'a list \<Rightarrow> bool" where
  "claims_apart deadline ttl tm key xs =
     sorted_wrt (\<lambda>d d'. key d = key d' \<longrightarrow> deadline (tm d) ttl \<le> tm d') xs"

definition claims_free ::
    "('t :: linorder \<Rightarrow> int \<Rightarrow> 't) \<Rightarrow> ('a \<Rightarrow> 't) \<Rightarrow> ('a \<Rightarrow> string) \<Rightarrow> 't claim list \<Rightarrow> 'a list \<Rightarrow> bool" where
  "claims_free deadline tm key granted xs = (\<forall>d \<in> set xs. \<not> held deadline granted (tm d) (key d))"

lemma first_claims_free: "claims_free deadline tm key granted (first_claims deadline ttl tm key granted ds)"
proof (induction ds arbitrary: granted)
  case (Cons d ds)
  then have "claims_free deadline tm key granted (first_claims deadline ttl tm key ((key d, ttl, tm d) # granted) ds)"
    by (fastforce simp: claims_free_def held_def)
  with Cons.IH [of granted] show ?case by (simp add: claims_free_def)
qed (simp add: claims_free_def)

lemma claims_apart_append:
  assumes "claims_apart deadline ttl tm key xs" "claims_apart deadline ttl tm key ys"
    and "claims_free deadline tm key (map (\<lambda>d. (key d, ttl, tm d)) xs @ granted) ys"
  shows "claims_apart deadline ttl tm key (xs @ ys)"
proof -
  have "deadline (tm d) ttl \<le> tm d'" if "d \<in> set xs" "d' \<in> set ys" "key d = key d'" for d d'
  proof (rule ccontr)
    assume "\<not> deadline (tm d) ttl \<le> tm d'"
    then have "held deadline (map (\<lambda>d. (key d, ttl, tm d)) xs @ granted) (tm d') (key d')"
      unfolding held_def using that by (intro bexI [of _ "(key d, ttl, tm d)"]) (auto intro!: image_eqI [of _ _ d])
    then show False using assms(3) that(2) by (simp add: claims_free_def)
  qed
  then show ?thesis using assms(1,2) by (simp add: claims_apart_def sorted_wrt_append)
qed

lemma first_claims_apart: "claims_apart deadline ttl tm key (first_claims deadline ttl tm key granted ds)"
proof (induction ds arbitrary: granted)
  case Nil
  then show ?case by (simp add: claims_apart_def)
next
  case (Cons d ds)
  have "claims_apart deadline ttl tm key ([d] @ first_claims deadline ttl tm key ((key d, ttl, tm d) # granted) ds)"
  proof (rule claims_apart_append [where granted = granted])
    show "claims_apart deadline ttl tm key [d]" by (simp add: claims_apart_def)
    show "claims_free deadline tm key (map (\<lambda>d. (key d, ttl, tm d)) [d] @ granted)
        (first_claims deadline ttl tm key ((key d, ttl, tm d) # granted) ds)"
      using first_claims_free [of deadline tm key "(key d, ttl, tm d) # granted" ttl ds] by simp
  qed (rule Cons.IH)
  then show ?case using Cons.IH [of granted] by simp
qed

section \<open>The in-memory store\<close>

record mem_store =
  expiry_by_key :: "(string, py_float) dict"

definition mem_init :: mem_store where
  "mem_init = \<lparr>expiry_by_key = []\<rparr>"

definition mem_try_claim :: "mem_store \<Rightarrow> py_float \<Rightarrow> string \<Rightarrow> int \<Rightarrow> bool result \<times> mem_store" where
  "mem_try_claim s now key ttl_seconds =
     (case validate_claim_inputs key ttl_seconds of
        Some e \<Rightarrow> (Inl e, s)
      | None \<Rightarrow>
          (let current_time = now; expiry = dict_get (expiry_by_key s) key in
           if expiry = None \<or> the expiry \<le> current_time
           then (Inr True, s\<lparr>expiry_by_key := dict_set key (float_add_int current_time ttl_seconds) (expiry_by_key s)\<rparr>)
           else (Inr False, s)))"

definition mem_cleanup_expired :: "mem_store \<Rightarrow> py_float \<Rightarrow> nat \<times> mem_store" where
  "mem_cleanup_expired s now =
     (let current_time = now;
          expired_keys = map fst (filter (\<lambda>(stored_key, expiry). expiry \<le> current_time) (expiry_by_key s))
      in (length expired_keys, s\<lparr>expiry_by_key := foldl (\<lambda>d k. AList.delete k d) (expiry_by_key s) expired_keys\<rparr>))"

definition mem_live :: "mem_store \<Rightarrow> py_float \<Rightarrow> string \<Rightarrow> bool" where
  "mem_live s t key = (case dict_get (expiry_by_key s) key of None \<Rightarrow> False | Some expiry \<Rightarrow> t < expiry)"

lemma mem_live_init [simp]: "\<not> mem_live mem_init t k"
  by (simp add: mem_live_def mem_init_def dict_get_def)

interpretation mem: idempotency_store mem_try_claim mem_live float_add_int
proof unfold_locales
  fix s t t' k
  show "mem_live s t k \<Longrightarrow> t' \<le> t \<Longrightarrow> mem_live s t' k"
    by (auto simp: mem_live_def split: option.splits)
  show "validate_claim_inputs k ttl = Some e \<Longrightarrow> mem_try_claim s now k ttl = (Inl e, s)" for ttl e now
    by (simp add: mem_try_claim_def)
  show "\<exists>s'. mem_try_claim s now k ttl = (Inr (\<not> mem_live s now k), s') \<and>
      (\<forall>t k'. now \<le> t \<longrightarrow>
         mem_live s' t k' = (if k' = k \<and> \<not> mem_live s now k then t < float_add_int now ttl else mem_live s t k'))"
    if "validate_claim_inputs k ttl = None" for ttl now
    using that by (auto simp: mem_try_claim_def mem_live_def Let_def not_le split: option.splits)
qed

text \<open>Removing keys one by one removes exactly the expired ones.\<close>

lemma foldl_delete: "foldl (\<lambda>d k. AList.delete k d) d ks = filter (\<lambda>(k, v). k \<notin> set ks) d"
  by (induction ks arbitrary: d) (auto simp: AList.delete_eq intro: filter_cong)

lemma mem_cleanup_eq:
  assumes "dict_wf (expiry_by_key s)"
  shows "expiry_by_key (snd (mem_cleanup_expired s now)) = filter (\<lambda>(k, expiry). now < expiry) (expiry_by_key s)"
proof -
  let ?d = "expiry_by_key s" and ?e = "filter (\<lambda>(k, expiry). expiry \<le> now) (expiry_by_key s)"
  have "k \<in> fst ` set ?e \<longleftrightarrow> v \<le> now" if "(k, v) \<in> set ?d" for k v
    using that assms by (force simp: dict_wf_def dict_keys_def dest: eq_key_imp_eq_value)
  then have "filter (\<lambda>(k, v). k \<notin> fst ` set ?e) ?d = filter (\<lambda>(k, v). now < v) ?d"
    by (intro filter_cong) (auto simp: not_le [symmetric])
  then show ?thesis by (simp add: mem_cleanup_expired_def Let_def foldl_delete)
qed

lemma map_of_filter_vals:
  "distinct (map fst d) \<Longrightarrow> map_of (filter (\<lambda>(k, v). P v) d) k = (case map_of d k of None \<Rightarrow> None | Some v \<Rightarrow> if P v then Some v else None)"
  by (induction d) (auto split: option.splits simp: map_of_eq_None_iff rev_image_eqI)

lemma length_filter_expired:
  "length (filter (\<lambda>(k, expiry). \<not> now < expiry) d) + length (filter (\<lambda>(k, expiry). now < expiry) d) = length d"
  by (induction d) auto

lemma mem_claim_wf:
  "dict_wf (expiry_by_key s) \<Longrightarrow> dict_wf (expiry_by_key (snd (mem_try_claim s now k ttl)))"
  by (auto simp: mem_try_claim_def Let_def split: option.splits)

section \<open>The Redis store\<close>

text \<open>
  The client is a parameter: \<open>set\<close> at a server time, on a key and a value, with the \<open>nx\<close> flag and
  the \<open>ex\<close> time-to-live. It may raise; otherwise its result counts as a truth value.
\<close>

type_synonym ('r, 't) redis_set = "'r \<Rightarrow> 't \<Rightarrow> string \<Rightarrow> string \<Rightarrow> bool \<Rightarrow> int option \<Rightarrow> bool result \<times> 'r"

definition redis_init :: "string \<Rightarrow> string result" where
  "redis_init namespace = (case validate_namespace namespace of Some e \<Rightarrow> Inl e | None \<Rightarrow> Inr namespace)"

definition redis_try_claim ::
    "string \<Rightarrow> ('r, 't) redis_set \<Rightarrow> 'r \<Rightarrow> 't \<Rightarrow> string \<Rightarrow> int \<Rightarrow> bool result \<times> 'r" where
  "redis_try_claim namespace client_set s now key ttl_seconds =
     (case validate_claim_inputs key ttl_seconds of
        Some e \<Rightarrow> (Inl e, s)
      | None \<Rightarrow>
          (let redis_key = namespace @ '':'' @ key
           in client_set s now redis_key ''1'' True (Some ttl_seconds)))"

text \<open>
  What Redis documents of \<open>SET key value NX EX ttl\<close>: with \<open>NX\<close> the key is set only if it does
  not exist, and then it exists until its time-to-live has passed; other keys are not touched.
  \<open>present\<close> says which keys exist at a time if nothing else happens.
\<close>

definition redis_set_nx_documented ::
    "('r, 't :: linorder) redis_set \<Rightarrow> ('r \<Rightarrow> 't \<Rightarrow> string \<Rightarrow> bool) \<Rightarrow> ('t \<Rightarrow> int \<Rightarrow> 't) \<Rightarrow> bool" where
  "redis_set_nx_documented client_set present deadline \<longleftrightarrow>
     (\<forall>s t t' k. present s t k \<longrightarrow> t' \<le> t \<longrightarrow> present s t' k) \<and>
     (\<forall>s now k v ttl. 0 < ttl \<longrightarrow>
        (case client_set s now k v True (Some ttl) of (r, s') \<Rightarrow>
           r = Inr (\<not> present s now k) \<and>
           (\<forall>t k'. now \<le> t \<longrightarrow>
              present s' t k' = (if k' = k \<and> \<not> present s now k then t < deadline now ttl else present s t k'))))"

lemma redis_store:
  assumes "redis_set_nx_documented client_set present deadline"
  shows "idempotency_store (redis_try_claim namespace client_set) (\<lambda>s t k. present s t (namespace @ '':'' @ k)) deadline"
proof
  fix s t t' k
  show "present s t (namespace @ '':'' @ k) \<Longrightarrow> t' \<le> t \<Longrightarrow> present s t' (namespace @ '':'' @ k)"
    using assms by (auto simp: redis_set_nx_documented_def)
next
  fix k ttl e s now
  show "validate_claim_inputs k ttl = Some e \<Longrightarrow> redis_try_claim namespace client_set s now k ttl = (Inl e, s)"
    by (simp add: redis_try_claim_def)
next
  fix k ttl s now
  assume v: "validate_claim_inputs k ttl = None"
  obtain r s' where c: "client_set s now (namespace @ '':'' @ k) ''1'' True (Some ttl) = (r, s')" by fastforce
  note doc = conjunct2 [OF assms [unfolded redis_set_nx_documented_def], rule_format,
      of ttl s now "namespace @ '':'' @ k" "''1''", unfolded c prod.case]
  have "0 < ttl" using v by (simp add: validate_claim_inputs_None)
  from doc [OF this] have "r = Inr (\<not> present s now (namespace @ '':'' @ k))"
    and "\<And>t k'. now \<le> t \<Longrightarrow> present s' t k' =
      (if k' = namespace @ '':'' @ k \<and> \<not> present s now (namespace @ '':'' @ k) then t < deadline now ttl else present s t k')"
    by blast+
  then show "\<exists>s'. redis_try_claim namespace client_set s now k ttl = (Inr (\<not> present s now (namespace @ '':'' @ k)), s') \<and>
      (\<forall>t k'. now \<le> t \<longrightarrow> present s' t (namespace @ '':'' @ k') =
         (if k' = k \<and> \<not> present s now (namespace @ '':'' @ k) then t < deadline now ttl else present s t (namespace @ '':'' @ k')))"
    using v c by (auto simp: redis_try_claim_def Let_def)
qed

section \<open>Properties\<close>

text \<open>
  C21: The in-memory store implements the specification of duplicate suppression: for any
  requests that arrive in the order of the clock, a new store answers each with an error when
  the key is blank or the time-to-live is not positive, and otherwise grants it exactly when no
  earlier grant of the same key is still running.
\<close>

theorem memory_store_correct:
  assumes "sorted (map (snd \<circ> snd) cs)"
  shows "fst (run_claims mem_try_claim cs mem_init) = ideal_answers float_add_int [] cs"
  by (rule mem.run_ideal [OF assms]) (simp add: held_def)

theorem memory_store_correct_witness:
  "fst (run_claims mem_try_claim [(''k'', 5, 0), (''k'', 5, 3), (''k'', 5, 5), ('' '', 5, 6)] mem_init) =
     [Inr True, Inr False, Inr True, Inl (ValueError ''key must be non-empty'')]"
proof -
  have d: "float_add_int 0 5 = 5" "float_add_int 5 5 = 10"
    using float_add_int_exact [of 0 5] float_add_int_exact [of 5 5] by simp_all
  show ?thesis
    using memory_store_correct [of "[(''k'', 5, 0), (''k'', 5, 3), (''k'', 5, 5), ('' '', 5, 6)]"]
    by (simp add: validate_claim_inputs_def is_blank_iff py_isspace_def held_def d)
qed

text \<open>
  The Redis-backed store implements the same specification, in any namespace, whenever the
  client's \<open>set\<close> with \<open>nx\<close> and \<open>ex\<close> does what Redis documents and no key of the namespace exists
  at the start.
\<close>

theorem redis_store_correct:
  assumes "redis_set_nx_documented client_set present deadline"
    and "\<forall>t k. \<not> present s t (namespace @ '':'' @ k)"
    and "sorted (map (snd \<circ> snd) cs)"
  shows "fst (run_claims (redis_try_claim namespace client_set) cs s) = ideal_answers deadline [] cs"
  by (rule idempotency_store.run_ideal [OF redis_store [OF assms(1)] assms(3)]) (use assms(2) in \<open>simp add: held_def\<close>)

text \<open>A concrete \<open>set\<close> for the witness: a map from keys to the second at which they cease to exist.\<close>

definition demo_redis_set :: "(string \<rightharpoonup> int, int) redis_set" where
  "demo_redis_set s now k v nx ex =
     (if nx \<and> (\<exists>e. s k = Some e \<and> now < e) then (Inr False, s)
      else (Inr True, s(k := map_option (\<lambda>ttl. now + ttl) ex)))"

lemma demo_redis_documented:
  "redis_set_nx_documented demo_redis_set (\<lambda>s t k. \<exists>e. s k = Some e \<and> t < e) (\<lambda>now ttl. now + ttl)"
  by (auto simp: redis_set_nx_documented_def demo_redis_set_def split: prod.splits)

theorem redis_store_correct_witness:
  "fst (run_claims (redis_try_claim ''kernelq:idempotency'' demo_redis_set)
      [(''k'', 5, 0), (''k'', 5, 4), (''k'', 0, 5)] Map.empty) =
     [Inr True, Inr False, Inl (ValueError ''ttl_seconds must be a positive integer'')]"
  using redis_store_correct [OF demo_redis_documented, of Map.empty "''kernelq:idempotency''" "[(''k'', 5, 0), (''k'', 5, 4), (''k'', 0, 5)]"]
  by (simp add: validate_claim_inputs_def is_blank_iff py_isspace_def held_def)

text \<open>
  Mutual exclusion of the in-memory store with the clock's floating-point arithmetic: two
  grants of one key are never at the same clock reading, the second comes no earlier than the
  first's deadline, and for whole-second readings the deadline is exactly the reading plus the
  time-to-live.
\<close>

theorem memory_store_grants_apart:
  assumes "sorted (map (snd \<circ> snd) cs)" and "fst (run_claims mem_try_claim cs mem_init) = rs"
    and "i < j" and "j < length cs" and "rs ! i = Inr True" and "rs ! j = Inr True"
    and "cs ! i = (k, ttl, now)" and "cs ! j = (k, ttl', now')" and "0 \<le> now" and "now + of_int ttl < 2 ^ 53"
  shows "now < now' \<and> float_add_int now ttl \<le> now' \<and>
     (\<forall>m. now = of_int m \<longrightarrow> of_int (m + ttl) \<le> now')"
proof -
  have rs: "rs = ideal_answers float_add_int [] cs"
    using mem.run_ideal [OF assms(1), of mem_init "[]"] assms(2) by (simp add: held_def)
  have dl: "float_add_int now ttl \<le> now'"
    using ideal_grants_apart [of float_add_int "[]" cs i j k ttl now ttl' now'] assms rs by simp
  have "0 < ttl" using ideal_granted_valid [of float_add_int "[]" cs i] assms rs by simp
  with assms(9,10) have "now < float_add_int now ttl" by (intro float_add_int_greater)
  moreover have "of_int (m + ttl) \<le> now'" if m: "now = of_int m" for m
  proof -
    have "rat_of_int (m + ttl) < of_int (2 ^ 53)" using assms(10) m by simp
    then have "m + ttl < 2 ^ 53" by (simp only: of_int_less_iff)
    then show ?thesis using dl float_add_int_exact [of m ttl] assms(9) m \<open>0 < ttl\<close> by simp
  qed
  ultimately show ?thesis using dl by auto
qed

theorem memory_store_grants_apart_witness:
  "(0 :: py_float) < 5 \<and> float_add_int 0 5 \<le> 5 \<and> rat_of_int (0 + 5) \<le> 5"
proof -
  let ?cs = "[(''k'', 5, 0), (''k'', 5, 5)] :: py_float claim list"
  have d: "float_add_int 0 5 = 5" using float_add_int_exact [of 0 5] by simp
  have r: "fst (run_claims mem_try_claim ?cs mem_init) = [Inr True, Inr True]"
    using mem.run_ideal [of ?cs mem_init "[]"]
    by (simp add: validate_claim_inputs_def is_blank_iff py_isspace_def held_def d)
  show ?thesis
    using memory_store_grants_apart [OF _ r, of 0 1 "''k''" 5 0 5 5] by simp
qed

text \<open>
  \<open>cleanup_expired\<close> is invisible to the claims: it returns the number of entries it
  removes, keeps exactly the entries that have not expired, and changes no answer to a claim at
  that time or later.
\<close>

theorem cleanup_expired_transparent:
  assumes "dict_wf (expiry_by_key s)" and "mem_cleanup_expired s now = (n, s')"
  shows "expiry_by_key s' = filter (\<lambda>(k, expiry). now < expiry) (expiry_by_key s) \<and>
     n + length (expiry_by_key s') = length (expiry_by_key s) \<and>
     (\<forall>t k ttl. now \<le> t \<longrightarrow> fst (mem_try_claim s' t k ttl) = fst (mem_try_claim s t k ttl))"
proof -
  have e: "expiry_by_key s' = filter (\<lambda>(k, expiry). now < expiry) (expiry_by_key s)"
    using mem_cleanup_eq [OF assms(1), of now] assms(2) by simp
  have "n = length (filter (\<lambda>(k, expiry). \<not> now < expiry) (expiry_by_key s))"
    using assms(2) by (auto simp: mem_cleanup_expired_def Let_def not_less)
  then have n: "n + length (expiry_by_key s') = length (expiry_by_key s)"
    unfolding e by (simp add: length_filter_expired)
  have live: "mem_live s' t k = mem_live s t k" if "now \<le> t" for t k
    using that assms(1) e
    by (auto simp: mem_live_def dict_get_def dict_wf_def dict_keys_def map_of_filter_vals split: option.splits)
  have "fst (mem_try_claim s' t k ttl) = fst (mem_try_claim s t k ttl)" if "now \<le> t" for t k ttl
    unfolding mem.claim_result live [OF that] by (rule refl)
  then show ?thesis using e n by blast
qed


theorem cleanup_expired_transparent_witness:
  "mem_cleanup_expired \<lparr>expiry_by_key = [(''a'', 3), (''b'', 9)]\<rparr> 5 = (1, \<lparr>expiry_by_key = [(''b'', 9)]\<rparr>) \<and>
   fst (mem_try_claim \<lparr>expiry_by_key = [(''b'', 9)]\<rparr> 7 ''a'' 1) =
   fst (mem_try_claim \<lparr>expiry_by_key = [(''a'', 3), (''b'', 9)]\<rparr> 7 ''a'' 1)"
proof -
  let ?s = "\<lparr>expiry_by_key = [(''a'', 3), (''b'', 9)]\<rparr>"
  have w: "dict_wf (expiry_by_key ?s)" by (simp add: dict_wf_def dict_keys_def)
  have c: "mem_cleanup_expired ?s 5 = (1, \<lparr>expiry_by_key = [(''b'', 9)]\<rparr>)"
    by (simp add: mem_cleanup_expired_def AList.delete_eq)
  show ?thesis using cleanup_expired_transparent [OF w c] c by auto
qed

end
