(* ===== verification/Idempotency_Config.thy ===== *)
theory Idempotency_Config
  imports Idempotency_Store
begin

text \<open>
  \<open>kernelq/idempotency_config.py\<close>: the Redis client over the command line tool \<open>redis-cli\<close> and the
  choice of a store from environment variables. Running a command is a parameter, the \<open>run\<close> of
  \<open>RedisCliClient\<close>: it may raise, or end with a return code and its two output streams.
\<close>

definition ENV_BACKEND :: string where "ENV_BACKEND = ''KERNELQ_IDEMPOTENCY_BACKEND''"
definition ENV_REDIS_HOST :: string where "ENV_REDIS_HOST = ''KERNELQ_REDIS_HOST''"
definition ENV_REDIS_PORT :: string where "ENV_REDIS_PORT = ''KERNELQ_REDIS_PORT''"
definition ENV_REDIS_NAMESPACE :: string where "ENV_REDIS_NAMESPACE = ''KERNELQ_REDIS_NAMESPACE''"
definition DEFAULT_REDIS_HOST :: string where "DEFAULT_REDIS_HOST = ''localhost''"
definition DEFAULT_REDIS_PORT :: int where "DEFAULT_REDIS_PORT = 6379"
definition DEFAULT_REDIS_NAMESPACE :: string where "DEFAULT_REDIS_NAMESPACE = ''kernelq:idempotency''"

section \<open>The command line client\<close>

record completed_process =
  cp_returncode :: int
  cp_stdout :: string
  cp_stderr :: string

type_synonym ('r, 't) run_command = "'r \<Rightarrow> 't \<Rightarrow> string list \<Rightarrow> completed_process result \<times> 'r"

definition cli_set :: "('r, 't) run_command \<Rightarrow> string \<Rightarrow> int \<Rightarrow> ('r, 't) redis_set" where
  "cli_set run host port s now redis_key v nx ex =
     (let args = [''redis-cli'', ''-h'', host, ''-p'', str_int port, ''SET'', redis_key, v];
          args = (if nx then args @ [''NX''] else args);
          args = (case ex of None \<Rightarrow> args | Some n \<Rightarrow> args @ [''EX'', str_int n])
      in case run s now args of
           (Inl e, s') \<Rightarrow> (Inl e, s')
         | (Inr result, s') \<Rightarrow>
             if cp_returncode result \<noteq> 0 then
               (Inl (RuntimeError (''redis-cli failed: '' @
                  (if py_strip (cp_stderr result) = [] then py_strip (cp_stdout result) else py_strip (cp_stderr result)))), s')
             else (Inr (py_strip (cp_stdout result) = ''OK''), s'))"

section \<open>The environment\<close>

text \<open>\<open>str.lower\<close> on the code points below 256.\<close>

definition lower_char :: "char \<Rightarrow> char" where
  "lower_char c = (let n = of_char c :: nat in
     if (65 \<le> n \<and> n \<le> 90) \<or> (192 \<le> n \<and> n \<le> 222 \<and> n \<noteq> 215) then char_of (n + 32) else c)"

definition py_lower :: "string \<Rightarrow> string" where
  "py_lower s = map lower_char s"

text \<open>
  \<open>int\<close> of a string: blanks around it are ignored, a sign may come first, single underscores may
  separate digits, and more than 4300 digits are refused. \<open>None\<close> stands for the \<open>ValueError\<close>.
\<close>

fun int_digits :: "string \<Rightarrow> string option" where
  "int_digits [] = None"
| "int_digits [c] = (if is_digit c then Some [c] else None)"
| "int_digits (c # d # s) =
     (if is_digit c then
        map_option ((#) c) (if d = CHR ''_'' then int_digits s else int_digits (d # s))
      else None)"

definition py_int :: "string \<Rightarrow> int option" where
  "py_int s =
     (let t = py_strip s;
          (neg, u) = (case t of c # cs \<Rightarrow> if c = CHR ''-'' then (True, cs) else if c = CHR ''+'' then (False, cs) else (False, t)
                      | [] \<Rightarrow> (False, []))
      in case int_digits u of
           None \<Rightarrow> None
         | Some ds \<Rightarrow>
             if length ds > 4300 then None
             else Some (if neg then - int (read_nat ds) else int (read_nat ds)))"

type_synonym env = "(string, string) dict"

definition env_get :: "env \<Rightarrow> string \<Rightarrow> string \<Rightarrow> string" where
  "env_get env k default_value = (case dict_get env k of None \<Rightarrow> default_value | Some v \<Rightarrow> v)"

definition resolve_idempotency_backend :: "env \<Rightarrow> string result" where
  "resolve_idempotency_backend env =
     (let raw = py_lower (py_strip (env_get env ENV_BACKEND [])) in
      if raw = [] \<or> raw = ''memory'' then Inr ''memory''
      else if raw = ''redis'' then Inr ''redis''
      else Inl (ValueError (''invalid '' @ ENV_BACKEND @ '': '' @ py_repr raw @
             '' (expected '' @ py_repr ''memory'' @ '' or '' @ py_repr ''redis'' @ '')'')))"

text \<open>The store that is built: the in-memory one, or the Redis one with its client's address and its namespace.\<close>

datatype store_config = MemoryStore | RedisStore (rs_host: string) (rs_port: int) (rs_namespace: string)

definition build_idempotency_store_from_env :: "env \<Rightarrow> store_config result" where
  "build_idempotency_store_from_env env =
     bind_res (resolve_idempotency_backend env) (\<lambda>backend.
       if backend = ''memory'' then Inr MemoryStore
       else
         (let host = (let v = py_strip (env_get env ENV_REDIS_HOST DEFAULT_REDIS_HOST) in if v = [] then DEFAULT_REDIS_HOST else v);
              port_raw = py_strip (env_get env ENV_REDIS_PORT (str_int DEFAULT_REDIS_PORT))
          in case py_int port_raw of
               None \<Rightarrow> Inl (ValueError (''invalid '' @ ENV_REDIS_PORT @ '': '' @ py_repr port_raw))
             | Some port \<Rightarrow>
                 (let namespace = (let v = py_strip (env_get env ENV_REDIS_NAMESPACE DEFAULT_REDIS_NAMESPACE)
                                   in if v = [] then DEFAULT_REDIS_NAMESPACE else v)
                  in bind_res (redis_init namespace) (\<lambda>ns. Inr (RedisStore host port ns)))))"

text \<open>A setting that is missing or blank takes its default.\<close>

lemma py_strip_Nil: "py_strip [] = []"
  by (simp add: py_strip_def)

lemma env_setting:
  assumes "py_strip d = d"
  shows "(let v = py_strip (env_get env k d) in if v = [] then d else v) =
    (if is_blank (env_get env k []) then d else py_strip (env_get env k []))"
  using assms by (simp add: env_get_def is_blank_def py_strip_Nil Let_def split: option.split)

section \<open>Reading what was printed\<close>

lemma int_digits_all: "s \<noteq> [] \<Longrightarrow> \<forall>c \<in> set s. is_digit c \<Longrightarrow> int_digits s = Some s"
  by (induction s rule: int_digits.induct) (auto simp: is_digit_def)

lemma digit_not_space: "is_digit c \<Longrightarrow> \<not> py_isspace c"
  by (auto simp: is_digit_def py_isspace_def Let_def)

lemma dropWhile_none: "(\<And>c. c \<in> set s \<Longrightarrow> \<not> P c) \<Longrightarrow> dropWhile P s = s"
  by (cases s) auto

lemma py_strip_none: "(\<And>c. c \<in> set s \<Longrightarrow> \<not> py_isspace c) \<Longrightarrow> py_strip s = s"
  using dropWhile_none [of s py_isspace] dropWhile_none [of "rev s" py_isspace] by (simp add: py_strip_def)

lemma str_int_not_space: "c \<in> set (str_int i) \<Longrightarrow> \<not> py_isspace c"
  by (auto simp: str_int_def digit_not_space dest!: str_nat_digits split: if_splits) (simp add: py_isspace_def)

lemma length_str_nat: "n < 10 ^ k \<Longrightarrow> 0 < k \<Longrightarrow> length (str_nat n) \<le> k"
proof (induction n arbitrary: k rule: str_nat.induct)
  case (1 n)
  show ?case
  proof (cases "n < 10")
    case True
    then show ?thesis using "1.prems"(2) by (simp add: str_nat.simps [of n])
  next
    case False
    then obtain j where k: "k = Suc j" "0 < j" using "1.prems" by (cases k; cases "k - 1") auto
    then have "n div 10 < 10 ^ j" using "1.prems"(1) by (simp add: less_mult_imp_div_less mult.commute)
    then show ?thesis using "1.IH" [OF False, of j] False k by (simp add: str_nat.simps [of n])
  qed
qed

lemma py_int_str_int:
  assumes "length (str_nat (nat \<bar>i\<bar>)) \<le> 4300"
  shows "py_int (str_int i) = Some i"
proof -
  have d: "int_digits (str_nat n) = Some (str_nat n)" for n
    using int_digits_all [of "str_nat n"] str_nat_digits by auto
  have s: "py_strip (str_int i) = str_int i" by (rule py_strip_none) (rule str_int_not_space)
  obtain c cs where c: "str_nat (nat i) = c # cs" by (cases "str_nat (nat i)") auto
  then have "is_digit c" using str_nat_digits [of c "nat i"] by simp
  then have "c \<noteq> CHR ''-''" "c \<noteq> CHR ''+''" by (auto simp: is_digit_def)
  then show ?thesis
    using assms d [of "nat i"] d [of "nat (- i)"] c s read_str_nat [of "nat i"]
    by (cases "i < 0") (auto simp: py_int_def str_int_def Let_def)
qed

section \<open>Properties\<close>

text \<open>
  What \<open>redis-cli SET key value NX EX ttl\<close> documents: it ends with code 0 and prints \<open>OK\<close> when it
  set the key, an empty line when the key exists.
\<close>

definition redis_cli_documented ::
    "('r, 't :: linorder) run_command \<Rightarrow> string \<Rightarrow> int \<Rightarrow> ('r \<Rightarrow> 't \<Rightarrow> string \<Rightarrow> bool) \<Rightarrow> ('t \<Rightarrow> int \<Rightarrow> 't) \<Rightarrow> bool" where
  "redis_cli_documented run host port present deadline \<longleftrightarrow>
     (\<forall>s t t' k. present s t k \<longrightarrow> t' \<le> t \<longrightarrow> present s t' k) \<and>
     (\<forall>s now k v ttl. 0 < ttl \<longrightarrow>
        (case run s now [''redis-cli'', ''-h'', host, ''-p'', str_int port, ''SET'', k, v, ''NX'', ''EX'', str_int ttl] of (r, s') \<Rightarrow>
           (\<exists>err. r = Inr \<lparr>cp_returncode = 0, cp_stdout = (if present s now k then [CHR 0x0A] else ''OK'' @ [CHR 0x0A]),
              cp_stderr = err\<rparr>) \<and>
           (\<forall>t k'. now \<le> t \<longrightarrow>
              present s' t k' = (if k' = k \<and> \<not> present s now k then t < deadline now ttl else present s t k'))))"

lemma strip_ok: "py_strip (''OK'' @ [CHR 0x0A]) = ''OK''" "py_strip [CHR 0x0A] = []"
  by (simp_all add: py_strip_def py_isspace_def)

lemma cli_set_documented:
  assumes "redis_cli_documented run host port present deadline"
  shows "redis_set_nx_documented (cli_set run host port) present deadline"
  unfolding redis_set_nx_documented_def
proof (intro conjI allI impI)
  show "present s t' k" if "present s t k" "t' \<le> t" for s t t' k
    using assms that by (auto simp: redis_cli_documented_def)
  fix s now k v and ttl :: int
  assume ttl: "0 < ttl"
  let ?args = "[''redis-cli'', ''-h'', host, ''-p'', str_int port, ''SET'', k, v, ''NX'', ''EX'', str_int ttl]"
  obtain r s' where run: "run s now ?args = (r, s')" by fastforce
  have "(\<exists>err. r = Inr \<lparr>cp_returncode = 0, cp_stdout = (if present s now k then [CHR 0x0A] else ''OK'' @ [CHR 0x0A]), cp_stderr = err\<rparr>) \<and>
    (\<forall>t k'. now \<le> t \<longrightarrow> present s' t k' = (if k' = k \<and> \<not> present s now k then t < deadline now ttl else present s t k'))"
    using conjunct2 [OF assms [unfolded redis_cli_documented_def], rule_format, OF ttl, of s now k v] unfolding run by simp
  then show "case cli_set run host port s now k v True (Some ttl) of (r, s') \<Rightarrow>
      r = Inr (\<not> present s now k) \<and>
      (\<forall>t k'. now \<le> t \<longrightarrow> present s' t k' = (if k' = k \<and> \<not> present s now k then t < deadline now ttl else present s t k'))"
    using run strip_ok by (auto simp: cli_set_def Let_def)
qed

text \<open>
  C22: The Redis store over \<open>redis-cli\<close> implements the specification of duplicate suppression
  whenever the tool does what it documents for the exact command line the client builds: the
  strings of the arguments, the return code and the printed \<open>OK\<close> carry the answer faithfully.
\<close>

theorem redis_cli_store_correct:
  assumes "redis_cli_documented run host port present deadline"
    and "\<forall>t k. \<not> present s t (namespace @ '':'' @ k)" and "sorted (map (snd \<circ> snd) cs)"
  shows "fst (run_claims (redis_try_claim namespace (cli_set run host port)) cs s) = ideal_answers deadline [] cs"
  by (rule idempotency_store.run_ideal [OF redis_store [OF cli_set_documented [OF assms(1)]] assms(3)])
    (use assms(2) in \<open>simp add: held_def\<close>)

text \<open>A concrete tool for the witness: it parses the command line back.\<close>

definition demo_redis_cli :: "(string \<rightharpoonup> int, int) run_command" where
  "demo_redis_cli s now args =
     (let k = args ! 6; ttl = int (read_nat (last args)) in
      if \<exists>e. s k = Some e \<and> now < e
      then (Inr \<lparr>cp_returncode = 0, cp_stdout = [CHR 0x0A], cp_stderr = []\<rparr>, s)
      else (Inr \<lparr>cp_returncode = 0, cp_stdout = ''OK'' @ [CHR 0x0A], cp_stderr = []\<rparr>, s(k := Some (now + ttl))))"

lemma demo_redis_cli_documented:
  "redis_cli_documented demo_redis_cli host port (\<lambda>s t k. \<exists>e. s k = Some e \<and> t < e) (\<lambda>now ttl. now + ttl)"
  by (auto simp: redis_cli_documented_def demo_redis_cli_def Let_def str_int_def split: prod.splits)

theorem redis_cli_store_correct_witness:
  "fst (run_claims (redis_try_claim ''ns'' (cli_set demo_redis_cli ''localhost'' 6379)) [(''k'', 5, 0), (''k'', 5, 4), (''k'', 5, 5)] Map.empty) =
     [Inr True, Inr False, Inr True]"
  using redis_cli_store_correct [OF demo_redis_cli_documented, of Map.empty "''ns''" "[(''k'', 5, 0), (''k'', 5, 4), (''k'', 5, 5)]"]
  by (simp add: validate_claim_inputs_def is_blank_iff py_isspace_def held_def)

text \<open>
  The settings round-trip through the environment: if the backend variable is \<open>redis\<close> in any
  case and with any blanks around it, and the other variables hold a host, the decimal form of a
  port and a namespace without surrounding blanks, the built store has exactly these settings.
\<close>

theorem redis_settings_roundtrip:
  assumes "py_lower (py_strip backend) = ''redis''"
    and "py_strip host = host" and "host \<noteq> []" and "py_strip namespace = namespace" and "namespace \<noteq> []"
    and "0 \<le> port" and "port < 65536"
  shows "build_idempotency_store_from_env
      [(ENV_BACKEND, backend), (ENV_REDIS_HOST, host), (ENV_REDIS_PORT, str_int port), (ENV_REDIS_NAMESPACE, namespace)] =
    Inr (RedisStore host port namespace)"
proof -
  have "length (str_nat (nat \<bar>port\<bar>)) \<le> 5" using assms(6,7) by (intro length_str_nat) (simp_all add: nat_less_iff)
  then have p: "py_int (str_int port) = Some port" by (intro py_int_str_int) simp
  have s: "py_strip (str_int port) = str_int port" by (rule py_strip_none) (rule str_int_not_space)
  show ?thesis
    using assms(1-5) p s
    by (simp add: build_idempotency_store_from_env_def resolve_idempotency_backend_def env_get_def dict_get_def redis_init_def
        validate_namespace_def is_blank_def ENV_BACKEND_def ENV_REDIS_HOST_def ENV_REDIS_PORT_def ENV_REDIS_NAMESPACE_def Let_def)
qed

theorem redis_settings_roundtrip_witness:
  "build_idempotency_store_from_env
      [(ENV_BACKEND, '' Redis''), (ENV_REDIS_HOST, ''cache''), (ENV_REDIS_PORT, str_int 6380), (ENV_REDIS_NAMESPACE, ''kq'')] =
    Inr (RedisStore ''cache'' 6380 ''kq'')"
  by (rule redis_settings_roundtrip)
    (simp_all add: py_strip_def py_isspace_def py_lower_def lower_char_def char_of_def bit_0)

text \<open>
  Which environments are accepted: without a backend variable, or with a blank one, the
  in-memory store is built whatever else is set; with a backend that is neither \<open>memory\<close> nor
  \<open>redis\<close>, or with \<open>redis\<close> and a port that is not an integer, \<open>ValueError\<close> is raised; every other
  environment gives a store, whose namespace and host are never blank.
\<close>

theorem build_store_outcomes:
  "build_idempotency_store_from_env env =
     (let backend = py_lower (py_strip (env_get env ENV_BACKEND [])) in
      if backend \<in> {[], ''memory''} then Inr MemoryStore
      else if backend \<noteq> ''redis'' then Inl (ValueError (''invalid '' @ ENV_BACKEND @ '': '' @ py_repr backend @
             '' (expected '' @ py_repr ''memory'' @ '' or '' @ py_repr ''redis'' @ '')''))
      else case py_int (env_get env ENV_REDIS_PORT (str_int 6379)) of
        None \<Rightarrow> Inl (ValueError (''invalid '' @ ENV_REDIS_PORT @ '': '' @ py_repr (py_strip (env_get env ENV_REDIS_PORT (str_int 6379)))))
      | Some port \<Rightarrow>
          (let host = env_get env ENV_REDIS_HOST []; namespace = env_get env ENV_REDIS_NAMESPACE [] in
           Inr (RedisStore (if is_blank host then ''localhost'' else py_strip host) port
             (if is_blank namespace then ''kernelq:idempotency'' else py_strip namespace))))"
proof -
  have i: "py_int (py_strip x) = py_int x" for x by (simp add: py_int_def)
  have d: "py_strip ''localhost'' = ''localhost''" "py_strip ''kernelq:idempotency'' = ''kernelq:idempotency''"
    by (simp_all add: py_strip_def py_isspace_def)
  note host = env_setting [OF d(1), of env ENV_REDIS_HOST, unfolded Let_def]
    and namespace = env_setting [OF d(2), of env ENV_REDIS_NAMESPACE, unfolded Let_def]
  let ?ns = "if is_blank (env_get env ENV_REDIS_NAMESPACE []) then ''kernelq:idempotency'' else py_strip (env_get env ENV_REDIS_NAMESPACE [])"
  have "\<not> is_blank ?ns" using d(2) by (simp add: is_blank_def)
  then have r: "redis_init ?ns = Inr ?ns" by (auto simp: redis_init_def validate_namespace_def)
  show ?thesis
    unfolding build_idempotency_store_from_env_def resolve_idempotency_backend_def DEFAULT_REDIS_HOST_def DEFAULT_REDIS_NAMESPACE_def
      DEFAULT_REDIS_PORT_def Let_def
    unfolding host namespace i r
    by (cases "py_int (env_get env ENV_REDIS_PORT (str_int 6379))") simp_all
qed

end
