(* ===== verification/Job_State.thy ===== *)
theory Job_State
  imports Prelude
begin

text \<open>
  The job lifecycle of \<open>kernelq/job_state.py\<close>: the states and their stored strings, the
  terminal states, the table of allowed transitions, \<open>can_transition\<close> and
  \<open>explain_transition\<close>. A Python \<open>set\<close> of enum members has no fixed iteration order, so
  \<open>explain_transition\<close>, which prints such sets, takes the iteration order as an argument.
\<close>

section \<open>States\<close>

datatype job_state =
    CREATED | QUEUED | DISPATCHED | RUNNING | SUCCEEDED | FAILED
  | RETRY_SCHEDULED | DEAD_LETTERED | CANCELED

fun state_value :: "job_state \<Rightarrow> string" where
  "state_value CREATED = ''created''"
| "state_value QUEUED = ''queued''"
| "state_value DISPATCHED = ''dispatched''"
| "state_value RUNNING = ''running''"
| "state_value SUCCEEDED = ''succeeded''"
| "state_value FAILED = ''failed''"
| "state_value RETRY_SCHEDULED = ''retry_scheduled''"
| "state_value DEAD_LETTERED = ''dead_lettered''"
| "state_value CANCELED = ''canceled''"

fun state_name :: "job_state \<Rightarrow> string" where
  "state_name CREATED = ''CREATED''"
| "state_name QUEUED = ''QUEUED''"
| "state_name DISPATCHED = ''DISPATCHED''"
| "state_name RUNNING = ''RUNNING''"
| "state_name SUCCEEDED = ''SUCCEEDED''"
| "state_name FAILED = ''FAILED''"
| "state_name RETRY_SCHEDULED = ''RETRY_SCHEDULED''"
| "state_name DEAD_LETTERED = ''DEAD_LETTERED''"
| "state_name CANCELED = ''CANCELED''"

definition job_states :: "job_state list" where
  "job_states = [CREATED, QUEUED, DISPATCHED, RUNNING, SUCCEEDED, FAILED,
     RETRY_SCHEDULED, DEAD_LETTERED, CANCELED]"

text \<open>The enum call \<open>JobState(value)\<close>: the member with that value, or \<open>ValueError\<close>.\<close>

definition job_state_of_value :: "string \<Rightarrow> job_state option" where
  "job_state_of_value v = find (\<lambda>s. state_value s = v) job_states"

definition TERMINAL_STATES :: "job_state set" where
  "TERMINAL_STATES = {SUCCEEDED, DEAD_LETTERED, CANCELED}"

definition ALLOWED_TRANSITIONS :: "(job_state, job_state set) dict" where
  "ALLOWED_TRANSITIONS =
    [(CREATED, {QUEUED, CANCELED}),
     (QUEUED, {DISPATCHED, CANCELED}),
     (DISPATCHED, {RUNNING, QUEUED}),
     (RUNNING, {SUCCEEDED, FAILED, CANCELED}),
     (RETRY_SCHEDULED, {QUEUED, CANCELED}),
     (FAILED, {RETRY_SCHEDULED, DEAD_LETTERED}),
     (SUCCEEDED, {}),
     (DEAD_LETTERED, {}),
     (CANCELED, {})]"

definition allowed_to_states :: "job_state \<Rightarrow> job_state set" where
  "allowed_to_states from_state =
     (case dict_get ALLOWED_TRANSITIONS from_state of None \<Rightarrow> {} | Some S \<Rightarrow> S)"

definition can_transition :: "job_state \<Rightarrow> job_state \<Rightarrow> bool" where
  "can_transition from_state to_state =
     (if from_state \<in> TERMINAL_STATES then False
      else to_state \<in> allowed_to_states from_state)"

section \<open>Explanations\<close>

definition transition_explanations :: "(job_state \<times> job_state, string) dict" where
  "transition_explanations =
    [((CREATED, QUEUED), ''Job scheduled and moved to queue''),
     ((CREATED, CANCELED), ''Job canceled before scheduling''),
     ((QUEUED, DISPATCHED), ''Job sent to Kafka for worker pickup''),
     ((QUEUED, CANCELED), ''Job canceled while waiting in queue''),
     ((DISPATCHED, RUNNING), ''Worker picked up job and started execution''),
     ((DISPATCHED, QUEUED), ''Dispatch failed or timed out, re-queuing job''),
     ((RUNNING, SUCCEEDED), ''Job completed successfully''),
     ((RUNNING, FAILED), ''Job failed during execution''),
     ((RUNNING, CANCELED), ''Job canceled during execution''),
     ((RETRY_SCHEDULED, QUEUED), ''Retry time arrived, re-queuing job for retry''),
     ((RETRY_SCHEDULED, CANCELED), ''Job canceled before retry executes''),
     ((FAILED, RETRY_SCHEDULED), ''Retries remaining, scheduling retry attempt''),
     ((FAILED, DEAD_LETTERED), ''No retries remaining, moving to dead letter queue'')]"

text \<open>
  The fallback of the table lookup prints an arrow, code point U+2192, which the model writes
  as its three UTF-8 bytes; \<open>explanation_exists\<close> below shows that the fallback is never taken.
\<close>

definition arrow :: string where
  "arrow = [CHR '' '', CHR 0xE2, CHR 0x86, CHR 0x92, CHR '' '']"

definition explain_transition ::
    "(job_state set \<Rightarrow> job_state list) \<Rightarrow> job_state \<Rightarrow> job_state \<Rightarrow> string" where
  "explain_transition set_iter from_state to_state =
    (if \<not> can_transition from_state to_state then
       (if from_state \<in> TERMINAL_STATES then
          ''Invalid transition: Cannot transition from terminal state '' @ state_name from_state @ ''. '' @
          ''Terminal states ('' @ py_join '', '' (map state_name (set_iter TERMINAL_STATES)) @ '') are final.''
        else
          (let allowed = allowed_to_states from_state in
           if allowed = {} then
             ''Invalid transition: State '' @ state_name from_state @ '' has no allowed transitions''
           else
             (let allowed_names = map state_name (set_iter allowed) in
              ''Invalid transition: Cannot transition from '' @ state_name from_state @ '' to '' @
              state_name to_state @ ''. '' @
              ''Allowed transitions from '' @ state_name from_state @ '': '' @ py_join '', '' allowed_names)))
     else
       (let explanation =
          (case dict_get transition_explanations (from_state, to_state) of
             Some e \<Rightarrow> e
           | None \<Rightarrow> ''Valid transition: '' @ state_name from_state @ arrow @ state_name to_state)
        in ''Valid transition: '' @ explanation))"

section \<open>Correctness\<close>

lemma set_job_states [simp]: "set job_states = UNIV"
proof -
  have "s \<in> set job_states" for s by (cases s) (simp_all add: job_states_def)
  then show ?thesis by blast
qed

lemma state_value_inject [simp]: "state_value s = state_value t \<longleftrightarrow> s = t"
  by (cases s; cases t) simp_all

lemma job_state_of_value_roundtrip [simp]: "job_state_of_value (state_value s) = Some s"
  by (cases s) (simp_all add: job_state_of_value_def job_states_def)

lemma job_state_of_value_Some: "job_state_of_value v = Some s \<longleftrightarrow> v = state_value s"
proof
  assume "job_state_of_value v = Some s"
  then show "v = state_value s"
    unfolding job_state_of_value_def find_Some_iff by blast
qed simp

lemma allowed_to_states_simps [simp]:
  "allowed_to_states CREATED = {QUEUED, CANCELED}"
  "allowed_to_states QUEUED = {DISPATCHED, CANCELED}"
  "allowed_to_states DISPATCHED = {RUNNING, QUEUED}"
  "allowed_to_states RUNNING = {SUCCEEDED, FAILED, CANCELED}"
  "allowed_to_states RETRY_SCHEDULED = {QUEUED, CANCELED}"
  "allowed_to_states FAILED = {RETRY_SCHEDULED, DEAD_LETTERED}"
  "allowed_to_states SUCCEEDED = {}"
  "allowed_to_states DEAD_LETTERED = {}"
  "allowed_to_states CANCELED = {}"
  by (simp_all add: allowed_to_states_def ALLOWED_TRANSITIONS_def dict_get_def)

lemma terminal_iff_no_transition: "s \<in> TERMINAL_STATES \<longleftrightarrow> (\<forall>t. \<not> can_transition s t)"
  by (cases s) (auto simp: TERMINAL_STATES_def can_transition_def)

lemma explanation_exists:
  "can_transition s t \<longleftrightarrow> dict_get transition_explanations (s, t) \<noteq> None"
  by (cases s; cases t)
    (simp_all add: can_transition_def TERMINAL_STATES_def transition_explanations_def dict_get_def)

lemma created_reaches_all: "can_transition\<^sup>*\<^sup>* CREATED s"
proof -
  have q: "can_transition\<^sup>*\<^sup>* CREATED QUEUED" and c: "can_transition\<^sup>*\<^sup>* CREATED CANCELED"
    by (auto intro!: r_into_rtranclp simp: can_transition_def TERMINAL_STATES_def)
  have d: "can_transition\<^sup>*\<^sup>* CREATED DISPATCHED"
    using q by (rule rtranclp.rtrancl_into_rtrancl) (simp add: can_transition_def TERMINAL_STATES_def)
  have r: "can_transition\<^sup>*\<^sup>* CREATED RUNNING"
    using d by (rule rtranclp.rtrancl_into_rtrancl) (simp add: can_transition_def TERMINAL_STATES_def)
  have s: "can_transition\<^sup>*\<^sup>* CREATED SUCCEEDED" and f: "can_transition\<^sup>*\<^sup>* CREATED FAILED"
    using r by (auto intro: rtranclp.rtrancl_into_rtrancl simp: can_transition_def TERMINAL_STATES_def)
  have "can_transition\<^sup>*\<^sup>* CREATED RETRY_SCHEDULED" and "can_transition\<^sup>*\<^sup>* CREATED DEAD_LETTERED"
    using f by (auto intro: rtranclp.rtrancl_into_rtrancl simp: can_transition_def TERMINAL_STATES_def)
  with q c d r s f show ?thesis by (cases s) auto
qed

lemma terminal_absorbing:
  "can_transition\<^sup>*\<^sup>* s t \<Longrightarrow> s \<in> TERMINAL_STATES \<Longrightarrow> t = s"
  by (induction rule: converse_rtranclp_induct) (auto simp: terminal_iff_no_transition)

lemma reaches_terminal: "\<exists>t \<in> TERMINAL_STATES. can_transition\<^sup>*\<^sup>* s t"
proof -
  have q: "can_transition QUEUED CANCELED" "can_transition CREATED CANCELED"
    "can_transition RUNNING CANCELED" "can_transition RETRY_SCHEDULED CANCELED"
    "can_transition DISPATCHED QUEUED" "can_transition FAILED DEAD_LETTERED"
    by (simp_all add: can_transition_def TERMINAL_STATES_def)
  have "can_transition\<^sup>*\<^sup>* DISPATCHED CANCELED"
    using q by (meson converse_rtranclp_into_rtranclp r_into_rtranclp)
  with q show ?thesis
    by (cases s) (auto simp: TERMINAL_STATES_def intro: r_into_rtranclp)
qed

text \<open>
  The transition table is a well-formed lifecycle. Every state is reachable from
  \<open>CREATED\<close>; a terminal state, once entered, is never left along allowed transitions; the states
  without an outgoing transition are exactly the terminal ones; and from every state some
  terminal state can still be reached.
\<close>

theorem lifecycle_wellformed:
  "can_transition\<^sup>*\<^sup>* CREATED s \<and>
   (s \<in> TERMINAL_STATES \<longleftrightarrow> (\<forall>t. \<not> can_transition s t)) \<and>
   (s \<in> TERMINAL_STATES \<longrightarrow> {t. can_transition\<^sup>*\<^sup>* s t} = {s}) \<and>
   (\<exists>t \<in> TERMINAL_STATES. can_transition\<^sup>*\<^sup>* s t)"
  using created_reaches_all [of s] terminal_iff_no_transition [of s] terminal_absorbing [of s]
    reaches_terminal [of s] by blast

theorem lifecycle_wellformed_witness:
  "SUCCEEDED \<in> TERMINAL_STATES \<and> {t. can_transition\<^sup>*\<^sup>* SUCCEEDED t} = {SUCCEEDED}"
  using lifecycle_wellformed [of SUCCEEDED] by (simp add: TERMINAL_STATES_def)

lemma explain_valid:
  "can_transition s t \<Longrightarrow>
   \<exists>e. dict_get transition_explanations (s, t) = Some e \<and>
     explain_transition iter s t = ''Valid transition: '' @ e"
  using explanation_exists [of s t] by (auto simp: explain_transition_def)

text \<open>
  \<open>explain_transition\<close> agrees with \<open>can_transition\<close> for every pair of states and every set
  iteration order: its text starts with \<open>Valid transition:\<close> exactly when the transition is
  allowed, and then it is the table's entry for that pair, so the fallback with the arrow is
  unreachable.
\<close>

theorem explain_transition_agrees:
  "(take 16 (explain_transition set_iter s t) = ''Valid transition'' \<longleftrightarrow> can_transition s t) \<and>
   (can_transition s t \<longleftrightarrow>
     (\<exists>e. dict_get transition_explanations (s, t) = Some e \<and>
        explain_transition set_iter s t = ''Valid transition: '' @ e))"
proof (cases "can_transition s t")
  case True
  then obtain e where "dict_get transition_explanations (s, t) = Some e"
    "explain_transition set_iter s t = ''Valid transition: '' @ e"
    using explain_valid by blast
  with True show ?thesis by simp
next
  case False
  then have "take 2 (explain_transition set_iter s t) = ''In''"
    by (simp add: explain_transition_def Let_def)
  then have "take 2 (take 16 (explain_transition set_iter s t)) = ''In''"
    by (simp add: min_def)
  then have "take 16 (explain_transition set_iter s t) \<noteq> ''Valid transition''" by force
  moreover have "dict_get transition_explanations (s, t) = None"
    using False explanation_exists by blast
  ultimately show ?thesis using False by auto
qed

end
