(* ===== verification/Json.thy ===== *)
theory Json
  imports Prelude Py_Float
begin

text \<open>
  Python's \<open>json\<close> module as the control plane uses it: the values, \<open>json.dumps\<close> with its default
  settings (and with \<open>sort_keys\<close>), and \<open>json.loads\<close>, which answers \<open>None\<close> where the module raises
  \<open>JSONDecodeError\<close>; then \<open>bytes.decode("utf-8")\<close> and \<open>str()\<close> of a parsed value.

  Two arguments stand for what the model leaves open. \<open>frepr\<close> is the shortest decimal form
  \<open>float.__repr__\<close> prints. \<open>wide\<close> gives the characters by which the model writes a code point of
  256 or more (the type \<^typ>\<open>char\<close> has 256 values); nothing is assumed of either. The three
  non-finite constants \<open>json\<close> accepts are \<open>JConst\<close>, which is also what a literal too large for a
  float becomes.
\<close>

datatype json =
    JNull
  | JBool bool
  | JInt int
  | JFloat py_float
  | JConst string
  | JStr string
  | JList "json list"
  | JObj "(string \<times> json) list"

section \<open>Printing\<close>

definition hex4 :: "nat \<Rightarrow> string" where
  "hex4 n = [hex_digit (n div 4096 mod 16), hex_digit (n div 256 mod 16), hex_digit (n div 16 mod 16), hex_digit (n mod 16)]"

text \<open>\<open>ensure_ascii\<close>: everything outside the printable ASCII range is escaped.\<close>

definition json_escape :: "char \<Rightarrow> string" where
  "json_escape c =
     (let n = of_char c :: nat in
      if n = 34 then [CHR 0x5C, CHR 0x22]
      else if n = 92 then [CHR 0x5C, CHR 0x5C]
      else if n = 10 then [CHR 0x5C, CHR ''n'']
      else if n = 13 then [CHR 0x5C, CHR ''r'']
      else if n = 9 then [CHR 0x5C, CHR ''t'']
      else if n = 12 then [CHR 0x5C, CHR ''f'']
      else if n = 8 then [CHR 0x5C, CHR ''b'']
      else if 32 \<le> n \<and> n \<le> 126 then [c]
      else [CHR 0x5C, CHR ''u''] @ hex4 n)"

definition dumps_str :: "string \<Rightarrow> string" where
  "dumps_str s = CHR 0x22 # concat (map json_escape s) @ [CHR 0x22]"

fun json_dumps :: "(py_float \<Rightarrow> string) \<Rightarrow> bool \<Rightarrow> json \<Rightarrow> string" where
  "json_dumps frepr sort_keys JNull = ''null''"
| "json_dumps frepr sort_keys (JBool b) = (if b then ''true'' else ''false'')"
| "json_dumps frepr sort_keys (JInt i) = str_int i"
| "json_dumps frepr sort_keys (JFloat x) = frepr x"
| "json_dumps frepr sort_keys (JConst c) = c"
| "json_dumps frepr sort_keys (JStr s) = dumps_str s"
| "json_dumps frepr sort_keys (JList xs) = ''['' @ py_join '', '' (map (json_dumps frepr sort_keys) xs) @ '']''"
| "json_dumps frepr sort_keys (JObj d) =
     ''{'' @ py_join '', '' (map (\<lambda>(k, v). dumps_str k @ '': '' @ v)
       (let items = map (\<lambda>(k, v). (k, json_dumps frepr sort_keys v)) d
        in if sort_keys then sort_key fst items else items)) @ ''}''"

section \<open>Reading\<close>

definition json_ws :: "char \<Rightarrow> bool" where
  "json_ws c = (let n = of_char c :: nat in n = 32 \<or> n = 9 \<or> n = 10 \<or> n = 13)"

definition hex_val :: "char \<Rightarrow> nat option" where
  "hex_val c =
     (let n = of_char c :: nat in
      if 48 \<le> n \<and> n \<le> 57 then Some (n - 48)
      else if 97 \<le> n \<and> n \<le> 102 then Some (n - 87)
      else if 65 \<le> n \<and> n \<le> 70 then Some (n - 55)
      else None)"

text \<open>Four hexadecimal digits and the rest of the text.\<close>

definition read_hex4 :: "string \<Rightarrow> (nat \<times> string) option" where
  "read_hex4 s =
     (case s of
        a # b # c # d # r \<Rightarrow>
          (case (hex_val a, hex_val b, hex_val c, hex_val d) of
             (Some w, Some x, Some y, Some z) \<Rightarrow> Some (4096 * w + 256 * x + 16 * y + z, r)
           | _ \<Rightarrow> None)
      | _ \<Rightarrow> None)"

definition code_point :: "(nat \<Rightarrow> string) \<Rightarrow> nat \<Rightarrow> string" where
  "code_point wide n = (if n < 256 then [char_of n] else wide n)"

definition simple_escape :: "char \<Rightarrow> char option" where
  "simple_escape c =
     (let n = of_char c :: nat in
      if n = 34 \<or> n = 92 \<or> n = 47 then Some c
      else if n = 98 then Some (char_of (8 :: nat))
      else if n = 102 then Some (char_of (12 :: nat))
      else if n = 110 then Some (char_of (10 :: nat))
      else if n = 114 then Some (char_of (13 :: nat))
      else if n = 116 then Some (char_of (9 :: nat))
      else None)"

text \<open>A pair of surrogate escapes is one code point; a lone surrogate stands for itself.\<close>

definition read_unicode_escape :: "string \<Rightarrow> (nat \<times> string) option" where
  "read_unicode_escape s =
     (case read_hex4 s of
        None \<Rightarrow> None
      | Some (u, r) \<Rightarrow>
          if 55296 \<le> u \<and> u \<le> 56319 \<and> take 2 r = [CHR 0x5C, CHR ''u'']
          then (case read_hex4 (drop 2 r) of
                  None \<Rightarrow> None
                | Some (v, r') \<Rightarrow>
                    if 56320 \<le> v \<and> v \<le> 57343 then Some (65536 + (u - 55296) * 1024 + (v - 56320), r')
                    else Some (u, r))
          else Some (u, r))"

lemma read_hex4_length: "read_hex4 s = Some (u, r) \<Longrightarrow> length r < length s"
  by (auto simp: read_hex4_def split: list.splits option.splits)

lemma read_unicode_escape_length:
  assumes "read_unicode_escape s = Some (u, r)" shows "length r < length s"
proof -
  obtain u0 r0 where h: "read_hex4 s = Some (u0, r0)"
    using assms by (auto simp: read_unicode_escape_def split: option.splits)
  have "length r0 < length s" using read_hex4_length [OF h] .
  moreover have "r = r0 \<or> (\<exists>v. read_hex4 (drop 2 r0) = Some (v, r))"
    using assms h by (auto simp: read_unicode_escape_def split: option.splits if_splits)
  moreover have "read_hex4 (drop 2 r0) = Some (v, r) \<Longrightarrow> length r < length r0" for v
    using read_hex4_length [of "drop 2 r0" v r] by simp
  ultimately show ?thesis by fastforce
qed

text \<open>The characters of a string literal after its opening quote, and the text after its closing quote.\<close>

function (sequential) read_string :: "(nat \<Rightarrow> string) \<Rightarrow> string \<Rightarrow> (string \<times> string) option" where
  "read_string wide [] = None"
| "read_string wide (c # cs) =
     (if c = CHR 0x22 then Some ([], cs)
      else if c = CHR 0x5C then
        (case cs of
           [] \<Rightarrow> None
         | e # r \<Rightarrow>
             if e = CHR ''u'' then
               (case read_unicode_escape r of
                  None \<Rightarrow> None
                | Some (u, r') \<Rightarrow> map_option (\<lambda>(s, t). (code_point wide u @ s, t)) (read_string wide r'))
             else
               (case simple_escape e of
                  None \<Rightarrow> None
                | Some d \<Rightarrow> map_option (\<lambda>(s, t). (d # s, t)) (read_string wide r)))
      else if (of_char c :: nat) < 32 then None
      else map_option (\<lambda>(s, t). (c # s, t)) (read_string wide cs))"
  by pat_completeness auto
termination
  by (relation "measure (\<lambda>(wide, s). length s)") (auto dest: read_unicode_escape_length)

text \<open>A number: an integer part without leading zeros, then optionally a fraction and an exponent.\<close>

definition pow10 :: "int \<Rightarrow> rat" where
  "pow10 e = 10 powi e"

definition float_literal :: "rat \<Rightarrow> json" where
  "float_literal x =
     (if fl x \<ge> 2 powi 1024 then JConst ''Infinity'' else if fl x \<le> - (2 powi 1024) then JConst ''-Infinity''
      else JFloat (fl x))"

definition read_exponent :: "string \<Rightarrow> (int \<times> string) option" where
  "read_exponent s =
     (case s of
        [] \<Rightarrow> None
      | c # r \<Rightarrow>
          if c = CHR ''e'' \<or> c = CHR ''E'' then
            (let neg = (take 1 r = ''-''); r1 = (if take 1 r = ''-'' \<or> take 1 r = ''+'' then tl r else r);
                 ds = takeWhile is_digit r1
             in if ds = [] then None
                else Some ((if neg then - int (read_nat ds) else int (read_nat ds)), dropWhile is_digit r1))
          else None)"

definition int_part :: "string \<Rightarrow> string" where
  "int_part r = (if take 1 r = ''0'' then ''0'' else takeWhile is_digit r)"

definition frac_part :: "string \<Rightarrow> string" where
  "frac_part r = (if take 1 r = ''.'' then takeWhile is_digit (tl r) else [])"

definition number_from :: "int \<Rightarrow> string \<Rightarrow> string \<Rightarrow> json \<times> string" where
  "number_from sign ds r =
     (let fs = frac_part r;
          r1 = (if fs = [] then r else dropWhile is_digit (tl r));
          mant = of_nat (read_nat (ds @ fs)) / pow10 (int (length fs)) :: rat
      in case read_exponent r1 of
           Some (e, r2) \<Rightarrow> (float_literal (of_int sign * mant * pow10 e), r2)
         | None \<Rightarrow>
             if fs = [] then (JInt (sign * int (read_nat ds)), r1)
             else (float_literal (of_int sign * mant), r1))"

definition read_number :: "string \<Rightarrow> (json \<times> string) option" where
  "read_number s =
     (let neg = (take 1 s = ''-''); r = (if neg then tl s else s); ds = int_part r
      in if ds = [] then None else Some (number_from (if neg then - 1 else 1) ds (drop (length ds) r)))"

definition read_literal :: "string \<Rightarrow> (json \<times> string) option" where
  "read_literal s =
     (if take 4 s = ''null'' then Some (JNull, drop 4 s)
      else if take 4 s = ''true'' then Some (JBool True, drop 4 s)
      else if take 5 s = ''false'' then Some (JBool False, drop 5 s)
      else case read_number s of
        Some x \<Rightarrow> Some x
      | None \<Rightarrow>
          if take 3 s = ''NaN'' then Some (JConst ''NaN'', drop 3 s)
          else if take 8 s = ''Infinity'' then Some (JConst ''Infinity'', drop 8 s)
          else if take 9 s = ''-Infinity'' then Some (JConst ''-Infinity'', drop 9 s)
          else None)"

abbreviation skip_ws :: "string \<Rightarrow> string" where
  "skip_ws \<equiv> dropWhile json_ws"

text \<open>
  Values, the members of an object after \<open>{\<close> or a comma, and the elements of a list. The first
  argument bounds the nesting; the length of the text is always enough.
\<close>

fun read_value :: "nat \<Rightarrow> (nat \<Rightarrow> string) \<Rightarrow> string \<Rightarrow> (json \<times> string) option"
  and read_members :: "nat \<Rightarrow> (nat \<Rightarrow> string) \<Rightarrow> (string \<times> json) list \<Rightarrow> string \<Rightarrow> (json \<times> string) option"
  and read_elements :: "nat \<Rightarrow> (nat \<Rightarrow> string) \<Rightarrow> json list \<Rightarrow> string \<Rightarrow> (json \<times> string) option" where
  "read_value 0 wide s = None"
| "read_value (Suc n) wide s =
     (case s of
        [] \<Rightarrow> None
      | c # r \<Rightarrow>
          if c = CHR 0x22 then map_option (\<lambda>(x, t). (JStr x, t)) (read_string wide r)
          else if c = CHR ''{'' then
            (if take 1 (skip_ws r) = ''}'' then Some (JObj [], tl (skip_ws r)) else read_members n wide [] (skip_ws r))
          else if c = CHR ''['' then
            (if take 1 (skip_ws r) = '']'' then Some (JList [], tl (skip_ws r)) else read_elements n wide [] (skip_ws r))
          else read_literal s)"
| "read_members 0 wide acc s = None"
| "read_members (Suc n) wide acc s =
     (case s of
        [] \<Rightarrow> None
      | c # r \<Rightarrow>
          if c \<noteq> CHR 0x22 then None
          else case read_string wide r of
            None \<Rightarrow> None
          | Some (k, t) \<Rightarrow>
              if take 1 (skip_ws t) \<noteq> '':'' then None
              else case read_value n wide (skip_ws (tl (skip_ws t))) of
                None \<Rightarrow> None
              | Some (v, u) \<Rightarrow>
                  if take 1 (skip_ws u) = '','' then read_members n wide (dict_set k v acc) (skip_ws (tl (skip_ws u)))
                  else if take 1 (skip_ws u) = ''}'' then Some (JObj (dict_set k v acc), tl (skip_ws u))
                  else None)"
| "read_elements 0 wide acc s = None"
| "read_elements (Suc n) wide acc s =
     (case read_value n wide s of
        None \<Rightarrow> None
      | Some (v, u) \<Rightarrow>
          if take 1 (skip_ws u) = '','' then read_elements n wide (acc @ [v]) (skip_ws (tl (skip_ws u)))
          else if take 1 (skip_ws u) = '']'' then Some (JList (acc @ [v]), tl (skip_ws u))
          else None)"

definition json_loads :: "(nat \<Rightarrow> string) \<Rightarrow> string \<Rightarrow> json option" where
  "json_loads wide s =
     (case read_value (2 * length s + 2) wide (skip_ws s) of
        Some (v, r) \<Rightarrow> if skip_ws r = [] then Some v else None
      | None \<Rightarrow> None)"

section \<open>Bytes and text\<close>

text \<open>\<open>bytes.decode("utf-8")\<close> on bytes given as characters below 256; \<open>None\<close> is a \<open>UnicodeDecodeError\<close>.\<close>

abbreviation byte :: "char \<Rightarrow> nat" where
  "byte c \<equiv> of_char c"

definition is_cont :: "char \<Rightarrow> bool" where
  "is_cont c = (128 \<le> byte c \<and> byte c \<le> 191)"

fun utf8_decode :: "(nat \<Rightarrow> string) \<Rightarrow> string \<Rightarrow> string option" where
  "utf8_decode wide [] = Some []"
| "utf8_decode wide (a # r) =
     (if byte a < 128 then map_option (\<lambda>s. a # s) (utf8_decode wide r)
      else if 194 \<le> byte a \<and> byte a \<le> 223 then
        (case r of
           b # r1 \<Rightarrow>
             if is_cont b
             then map_option (\<lambda>s. code_point wide ((byte a - 192) * 64 + (byte b - 128)) @ s) (utf8_decode wide r1)
             else None
         | _ \<Rightarrow> None)
      else if 224 \<le> byte a \<and> byte a \<le> 239 then
        (case r of
           b # c # r1 \<Rightarrow>
             if is_cont b \<and> is_cont c \<and> (byte a = 224 \<longrightarrow> 160 \<le> byte b) \<and> (byte a = 237 \<longrightarrow> byte b \<le> 159)
             then map_option (\<lambda>s. code_point wide ((byte a - 224) * 4096 + (byte b - 128) * 64 + (byte c - 128)) @ s)
               (utf8_decode wide r1)
             else None
         | _ \<Rightarrow> None)
      else if 240 \<le> byte a \<and> byte a \<le> 244 then
        (case r of
           b # c # d # r1 \<Rightarrow>
             if is_cont b \<and> is_cont c \<and> is_cont d \<and> (byte a = 240 \<longrightarrow> 144 \<le> byte b) \<and> (byte a = 244 \<longrightarrow> byte b \<le> 143)
             then map_option (\<lambda>s. code_point wide
                 ((byte a - 240) * 262144 + (byte b - 128) * 4096 + (byte c - 128) * 64 + (byte d - 128)) @ s)
               (utf8_decode wide r1)
             else None
         | _ \<Rightarrow> None)
      else None)"

lemma utf8_decode_ascii: "\<forall>c \<in> set s. byte c < 128 \<Longrightarrow> utf8_decode wide s = Some s"
  by (induction s) simp_all

section \<open>Python's view of a parsed value\<close>

fun py_repr_json :: "(py_float \<Rightarrow> string) \<Rightarrow> json \<Rightarrow> string" where
  "py_repr_json frepr JNull = ''None''"
| "py_repr_json frepr (JBool b) = (if b then ''True'' else ''False'')"
| "py_repr_json frepr (JInt i) = str_int i"
| "py_repr_json frepr (JFloat x) = frepr x"
| "py_repr_json frepr (JConst c) = (if c = ''NaN'' then ''nan'' else if c = ''Infinity'' then ''inf'' else ''-inf'')"
| "py_repr_json frepr (JStr s) = py_repr s"
| "py_repr_json frepr (JList xs) = ''['' @ py_join '', '' (map (py_repr_json frepr) xs) @ '']''"
| "py_repr_json frepr (JObj d) =
     ''{'' @ py_join '', '' (map (\<lambda>(k, v). py_repr k @ '': '' @ v) (map (\<lambda>(k, v). (k, py_repr_json frepr v)) d)) @ ''}''"

text \<open>\<open>str(value)\<close>: a string is itself, everything else prints as its \<open>repr\<close>.\<close>

definition py_str_json :: "(py_float \<Rightarrow> string) \<Rightarrow> json \<Rightarrow> string" where
  "py_str_json frepr v = (case v of JStr s \<Rightarrow> s | _ \<Rightarrow> py_repr_json frepr v)"

end
