(* ===== verification/Job_Repository.thy ===== *)
theory Job_Repository
  imports Job_State Json
begin

text \<open>
  \<open>JobRepository\<close> of \<open>kernelq/job_repository.py\<close>: the statements it sends to PostgreSQL and what
  it makes of the answers. The \<open>jobs\<close> table is a list of rows in physical order with the columns
  of the migrations (and \<open>retry_after\<close>, a \<open>BIGINT\<close>). Each statement runs in a transaction of its
  own, so an operation is one atomic step on the table.

  What the server chooses is an argument, a record \<open>pg\<close>: the transaction's \<open>NOW()\<close>, the order in
  which it scans rows (which decides ties of an \<open>ORDER BY\<close>), the order in which \<open>RETURNING\<close> gives
  rows back, the ids of the rows other transactions have locked, and an error it may report
  instead of executing. Timestamps are integers (microseconds).
\<close>

section \<open>The table\<close>

record job_row =
  r_job_id :: string
  r_tenant_id :: string
  r_priority :: int
  r_state :: string
  r_payload :: json
  r_retry_count :: int
  r_max_retries :: int
  r_created_at :: int
  r_updated_at :: int
  r_dispatched_at :: "int option"
  r_retry_after :: "int option"

type_synonym jobs_table = "job_row list"

record pg =
  pg_now :: int
  pg_scan :: "job_row list \<Rightarrow> job_row list"
  pg_returning :: "job_row list \<Rightarrow> job_row list"
  pg_locked :: "string list"
  pg_fault :: "exc option"

text \<open>
  What PostgreSQL documents: a scan sees every row once, in some order; \<open>RETURNING\<close> gives every
  affected row once, in some order.
\<close>

definition pg_documented :: "pg \<Rightarrow> bool" where
  "pg_documented p \<longleftrightarrow> (\<forall>rows. mset (pg_scan p rows) = mset rows) \<and> (\<forall>rows. mset (pg_returning p rows) = mset rows)"

definition in_int4 :: "int \<Rightarrow> bool" where
  "in_int4 x \<longleftrightarrow> - (2 ^ 31) \<le> x \<and> x < 2 ^ 31"

definition in_int8 :: "int \<Rightarrow> bool" where
  "in_int8 x \<longleftrightarrow> - (2 ^ 63) \<le> x \<and> x < 2 ^ 63"

definition update_where :: "(job_row \<Rightarrow> bool) \<Rightarrow> (job_row \<Rightarrow> job_row) \<Rightarrow> jobs_table \<Rightarrow> jobs_table" where
  "update_where P f t = map (\<lambda>r. if P r then f r else r) t"

text \<open>\<open>SELECT ... WHERE P ORDER BY key LIMIT n\<close>: rows of equal key come in scan order.\<close>

definition select_ordered ::
    "pg \<Rightarrow> (job_row \<Rightarrow> bool) \<Rightarrow> (job_row \<Rightarrow> 'k :: linorder) \<Rightarrow> int \<Rightarrow> jobs_table \<Rightarrow> job_row list" where
  "select_ordered p P key n t = take (nat n) (sort_key key (filter P (pg_scan p t)))"

text \<open>\<open>FOR UPDATE SKIP LOCKED\<close>: rows another transaction has locked are passed over.\<close>

definition unlocked :: "pg \<Rightarrow> job_row \<Rightarrow> bool" where
  "unlocked p r \<longleftrightarrow> r_job_id r \<notin> set (pg_locked p)"

text \<open>\<open>UPDATE ... SET f WHERE job_id IN (ids)\<close>: the new table and the affected rows, as \<open>RETURNING\<close> orders them.\<close>

definition update_ids ::
    "pg \<Rightarrow> string list \<Rightarrow> (job_row \<Rightarrow> job_row) \<Rightarrow> jobs_table \<Rightarrow> job_row list \<times> jobs_table" where
  "update_ids p ids f t =
     (pg_returning p (map f (filter (\<lambda>r. r_job_id r \<in> set ids) t)),
      update_where (\<lambda>r. r_job_id r \<in> set ids) f t)"

section \<open>Records\<close>

record job_record =
  jr_job_id :: string
  jr_tenant_id :: string
  jr_priority :: int
  jr_state :: string
  jr_payload :: "(string \<times> json) list"
  jr_retry_count :: int
  jr_max_retries :: int
  jr_created_at :: int
  jr_updated_at :: int
  jr_dispatched_at :: "int option"

record schedule_retry_result =
  sr_outcome :: string
  sr_job_id :: string
  sr_state :: string
  sr_retry_count :: int
  sr_max_retries :: int
  sr_retry_after :: "int option"

definition row_to_record :: "job_row \<Rightarrow> job_record" where
  "row_to_record row =
     (let payload = (case r_payload row of JObj d \<Rightarrow> d | _ \<Rightarrow> [])
      in \<lparr>jr_job_id = r_job_id row, jr_tenant_id = r_tenant_id row, jr_priority = r_priority row,
          jr_state = r_state row, jr_payload = payload, jr_retry_count = r_retry_count row,
          jr_max_retries = r_max_retries row, jr_created_at = r_created_at row,
          jr_updated_at = r_updated_at row, jr_dispatched_at = r_dispatched_at row\<rparr>)"

definition DEFAULT_RETRY_DELAY_SECONDS :: int where
  "DEFAULT_RETRY_DELAY_SECONDS = 60"

section \<open>Operations\<close>

text \<open>
  \<open>INSERT\<close>: the primary key and the check constraints of migration 001 and the range of the
  \<open>INTEGER\<close> columns; the other columns take their defaults.
\<close>

definition create_job ::
    "pg \<Rightarrow> string \<Rightarrow> string \<Rightarrow> int \<Rightarrow> string \<Rightarrow> (string \<times> json) list option \<Rightarrow> int \<Rightarrow> jobs_table
     \<Rightarrow> job_record result \<times> jobs_table" where
  "create_job p job_id tenant_id priority state payload max_retries t =
     (let data = (case payload of Some d \<Rightarrow> d | None \<Rightarrow> []) in
      case pg_fault p of
        Some e \<Rightarrow> (Inl e, t)
      | None \<Rightarrow>
          if \<not> in_int4 priority \<or> \<not> in_int4 max_retries then (Inl (PsycopgError ''NumericValueOutOfRange''), t)
          else if priority < 0 \<or> max_retries < 0 then (Inl (PsycopgError ''CheckViolation''), t)
          else if job_id \<in> r_job_id ` set t then (Inl UniqueViolation, t)
          else
            (let row = \<lparr>r_job_id = job_id, r_tenant_id = tenant_id, r_priority = priority, r_state = state,
               r_payload = JObj data, r_retry_count = 0, r_max_retries = max_retries,
               r_created_at = pg_now p, r_updated_at = pg_now p, r_dispatched_at = None, r_retry_after = None\<rparr>
             in (Inr (row_to_record row), t @ [row])))"

definition get_job :: "pg \<Rightarrow> string \<Rightarrow> jobs_table \<Rightarrow> job_record option result" where
  "get_job p job_id t =
     (case pg_fault p of
        Some e \<Rightarrow> Inl e
      | None \<Rightarrow> Inr (map_option row_to_record (find (\<lambda>r. r_job_id r = job_id) (pg_scan p t))))"

definition update_job_state :: "pg \<Rightarrow> string \<Rightarrow> string \<Rightarrow> jobs_table \<Rightarrow> job_record option result \<times> jobs_table" where
  "update_job_state p job_id new_state t =
     (case pg_fault p of
        Some e \<Rightarrow> (Inl e, t)
      | None \<Rightarrow>
          (case update_ids p [job_id] (\<lambda>r. r\<lparr>r_state := new_state, r_updated_at := pg_now p\<rparr>) t of
             ([], t') \<Rightarrow> (Inr None, t)
           | (row # rows, t') \<Rightarrow> (Inr (Some (row_to_record row)), t')))"

definition update_job_state_from_worker_result ::
    "pg \<Rightarrow> string \<Rightarrow> string \<Rightarrow> jobs_table \<Rightarrow> bool result \<times> jobs_table" where
  "update_job_state_from_worker_result p job_id new_state t =
     (case pg_fault p of
        Some e \<Rightarrow> (Inl e, t)
      | None \<Rightarrow>
          (case update_ids p [job_id] (\<lambda>r. r\<lparr>r_state := new_state, r_updated_at := pg_now p\<rparr>) t of
             (rows, t') \<Rightarrow> (Inr (length rows > 0), t')))"

text \<open>The \<open>CASE\<close> expressions of the retry update; they all read the old row.\<close>

definition retry_update :: "pg \<Rightarrow> int \<Rightarrow> job_row \<Rightarrow> job_row" where
  "retry_update p retry_after r =
     r\<lparr>r_retry_count := (if r_retry_count r < r_max_retries r then r_retry_count r + 1 else r_retry_count r),
       r_state := (if r_retry_count r < r_max_retries r then state_value RETRY_SCHEDULED else state_value DEAD_LETTERED),
       r_retry_after := (if r_retry_count r < r_max_retries r then Some retry_after else r_retry_after r),
       r_updated_at := pg_now p\<rparr>"

text \<open>\<open>int(time.time())\<close>: truncation toward zero.\<close>

definition py_int_of_float :: "py_float \<Rightarrow> int" where
  "py_int_of_float x = (if 0 \<le> x then \<lfloor>x\<rfloor> else \<lceil>x\<rceil>)"

definition schedule_retry_from_worker_result ::
    "pg \<Rightarrow> py_float \<Rightarrow> string \<Rightarrow> int \<Rightarrow> jobs_table \<Rightarrow> schedule_retry_result option result \<times> jobs_table" where
  "schedule_retry_from_worker_result p clock job_id retry_delay_seconds t =
     (let now = py_int_of_float clock; retry_after = now + retry_delay_seconds in
      case pg_fault p of
        Some e \<Rightarrow> (Inl e, t)
      | None \<Rightarrow>
          if \<not> in_int8 retry_after then (Inl (PsycopgError ''NumericValueOutOfRange''), t)
          else
            (case update_ids p [job_id] (retry_update p retry_after) t of
               ([], t') \<Rightarrow> (Inr None, t)
             | (row # rows, t') \<Rightarrow>
                 (let outcome = (if r_state row = state_value RETRY_SCHEDULED then ''scheduled'' else ''exhausted'')
                  in (Inr (Some \<lparr>sr_outcome = outcome, sr_job_id = r_job_id row, sr_state = r_state row,
                        sr_retry_count = r_retry_count row, sr_max_retries = r_max_retries row,
                        sr_retry_after = r_retry_after row\<rparr>), t'))))"

text \<open>\<open>retry_after <= now\<close> is not true when the column is \<open>NULL\<close>.\<close>

definition retry_due :: "int \<Rightarrow> job_row \<Rightarrow> bool" where
  "retry_due now r \<longleftrightarrow> r_state r = state_value RETRY_SCHEDULED \<and>
     (case r_retry_after r of None \<Rightarrow> False | Some a \<Rightarrow> a \<le> now)"

definition retry_key :: "job_row \<Rightarrow> int \<times> int" where
  "retry_key r = (case r_retry_after r of Some a \<Rightarrow> (a, r_created_at r) | None \<Rightarrow> (0, r_created_at r))"

definition requeue_due_retries :: "pg \<Rightarrow> int \<Rightarrow> int \<Rightarrow> jobs_table \<Rightarrow> string list result \<times> jobs_table" where
  "requeue_due_retries p now limit t =
     (if limit \<le> 0 then (Inl (ValueError ''limit must be a positive integer''), t)
      else case pg_fault p of
        Some e \<Rightarrow> (Inl e, t)
      | None \<Rightarrow>
          (let ids = map r_job_id (select_ordered p (\<lambda>r. retry_due now r \<and> unlocked p r) retry_key limit t)
           in case update_ids p ids (\<lambda>r. r\<lparr>r_state := state_value QUEUED, r_updated_at := pg_now p\<rparr>) t of
             (rows, t') \<Rightarrow> (Inr (map r_job_id (sort_key retry_key rows)), t')))"

definition delete_job :: "pg \<Rightarrow> string \<Rightarrow> jobs_table \<Rightarrow> bool result \<times> jobs_table" where
  "delete_job p job_id t =
     (case pg_fault p of
        Some e \<Rightarrow> (Inl e, t)
      | None \<Rightarrow>
          (Inr (length (filter (\<lambda>r. r_job_id r = job_id) t) > 0), filter (\<lambda>r. r_job_id r \<noteq> job_id) t))"

definition dispatch_order :: "job_row \<Rightarrow> int \<times> int" where
  "dispatch_order r = (- r_priority r, r_created_at r)"

text \<open>This method does not check its limit; the server refuses a negative one.\<close>

definition list_schedulable_jobs :: "pg \<Rightarrow> int \<Rightarrow> jobs_table \<Rightarrow> job_record list result" where
  "list_schedulable_jobs p limit t =
     (case pg_fault p of
        Some e \<Rightarrow> Inl e
      | None \<Rightarrow>
          if limit < 0 then Inl (PsycopgError ''InvalidRowCountInLimitClause'')
          else Inr (map row_to_record (select_ordered p (\<lambda>r. r_state r = state_value QUEUED) dispatch_order limit t)))"

text \<open>The plain dict that \<open>list_dead_lettered_jobs\<close> builds of a row.\<close>

record dead_letter_view =
  dl_job_id :: string
  dl_tenant_id :: string
  dl_priority :: int
  dl_state :: string
  dl_retry_count :: int
  dl_max_retries :: int
  dl_created_at :: int
  dl_updated_at :: int
  dl_payload :: "(string \<times> json) list"

definition dead_letter_of_row :: "job_row \<Rightarrow> dead_letter_view" where
  "dead_letter_of_row row =
     (let payload = (case r_payload row of JObj d \<Rightarrow> d | _ \<Rightarrow> [])
      in \<lparr>dl_job_id = r_job_id row, dl_tenant_id = r_tenant_id row, dl_priority = r_priority row,
          dl_state = r_state row, dl_retry_count = r_retry_count row, dl_max_retries = r_max_retries row,
          dl_created_at = r_created_at row, dl_updated_at = r_updated_at row, dl_payload = payload\<rparr>)"

definition list_dead_lettered_jobs :: "pg \<Rightarrow> int \<Rightarrow> jobs_table \<Rightarrow> dead_letter_view list result" where
  "list_dead_lettered_jobs p limit t =
     (if limit \<le> 0 then Inl (ValueError ''limit must be a positive integer'')
      else case pg_fault p of
        Some e \<Rightarrow> Inl e
      | None \<Rightarrow> Inr (map dead_letter_of_row
          (select_ordered p (\<lambda>r. r_state r = state_value DEAD_LETTERED) (\<lambda>r. - r_updated_at r) limit t)))"

text \<open>\<open>GROUP BY state\<close> gives the groups in an order of the server's: here that of the first row of each group in the scan.\<close>

definition count_jobs_by_state :: "pg \<Rightarrow> jobs_table \<Rightarrow> (string, int) dict result" where
  "count_jobs_by_state p t =
     (case pg_fault p of
        Some e \<Rightarrow> Inl e
      | None \<Rightarrow> Inr (map (\<lambda>s. (s, int (count_list (map r_state t) s))) (remdups (map r_state (pg_scan p t)))))"

definition list_jobs :: "pg \<Rightarrow> int \<Rightarrow> jobs_table \<Rightarrow> job_record list result" where
  "list_jobs p limit t =
     (if limit \<le> 0 then Inl (ValueError ''limit must be a positive integer'')
      else case pg_fault p of
        Some e \<Rightarrow> Inl e
      | None \<Rightarrow> Inr (map row_to_record (select_ordered p (\<lambda>r. True) r_created_at limit t)))"

definition requeue_dead_lettered_job :: "pg \<Rightarrow> string \<Rightarrow> jobs_table \<Rightarrow> bool result \<times> jobs_table" where
  "requeue_dead_lettered_job p job_id t =
     (case pg_fault p of
        Some e \<Rightarrow> (Inl e, t)
      | None \<Rightarrow>
          (let P = (\<lambda>r. r_job_id r = job_id \<and> r_state r = state_value DEAD_LETTERED)
           in (Inr (length (filter P t) > 0),
               update_where P (\<lambda>r. r\<lparr>r_state := state_value QUEUED, r_retry_after := None, r_updated_at := pg_now p\<rparr>) t)))"

text \<open>\<open>COALESCE(dispatched_at, NOW())\<close>: only the first dispatch sets the column.\<close>

definition dispatch_update :: "pg \<Rightarrow> job_row \<Rightarrow> job_row" where
  "dispatch_update p r =
     r\<lparr>r_state := state_value DISPATCHED, r_updated_at := pg_now p,
       r_dispatched_at := (case r_dispatched_at r of Some d \<Rightarrow> Some d | None \<Rightarrow> Some (pg_now p))\<rparr>"

text \<open>
  Two statements in two transactions: the state the first one read may have changed by the time
  of the second, so the table of the second is an argument of its own.
\<close>

definition mark_dispatched_update :: "pg \<Rightarrow> string \<Rightarrow> jobs_table \<Rightarrow> job_record option result \<times> jobs_table" where
  "mark_dispatched_update p job_id t =
     (case pg_fault p of
        Some e \<Rightarrow> (Inl e, t)
      | None \<Rightarrow>
          (let P = (\<lambda>r. r_job_id r = job_id \<and> r_state r = state_value QUEUED)
           in case pg_returning p (map (dispatch_update p) (filter P t)) of
                [] \<Rightarrow> (Inr None, t)
              | row # rows \<Rightarrow> (Inr (Some (row_to_record row)), update_where P (dispatch_update p) t)))"

definition mark_job_dispatched ::
    "pg \<Rightarrow> jobs_table \<Rightarrow> pg \<Rightarrow> string \<Rightarrow> jobs_table \<Rightarrow> job_record option result \<times> jobs_table" where
  "mark_job_dispatched p0 t0 p job_id t =
     (case get_job p0 job_id t0 of
        Inl e \<Rightarrow> (Inl e, t)
      | Inr current \<Rightarrow>
          if current = None \<or> jr_state (the current) \<noteq> state_value QUEUED then (Inr None, t)
          else mark_dispatched_update p job_id t)"

definition claim_order :: "job_record \<Rightarrow> int \<times> int" where
  "claim_order job = (- jr_priority job, jr_created_at job)"

definition claim_schedulable_jobs :: "pg \<Rightarrow> int \<Rightarrow> jobs_table \<Rightarrow> job_record list result \<times> jobs_table" where
  "claim_schedulable_jobs p limit t =
     (if limit \<le> 0 then (Inl (ValueError ''limit must be a positive integer''), t)
      else case pg_fault p of
        Some e \<Rightarrow> (Inl e, t)
      | None \<Rightarrow>
          (let ids = map r_job_id
             (select_ordered p (\<lambda>r. r_state r = state_value QUEUED \<and> unlocked p r) dispatch_order limit t)
           in case update_ids p ids (dispatch_update p) t of
             (rows, t') \<Rightarrow> (Inr (sort_key claim_order (map row_to_record rows)), t')))"

end
