(* ===== verification/Repository_Claim.thy ===== *)
theory Repository_Claim
  imports Job_Repository
begin

text \<open>
  Correctness of the queries and updates of \<open>Job_Repository\<close> that move rows in batches: the
  scheduler's claim and the requeueing of due retries. The lemmas on \<open>select_ordered\<close> and
  \<open>update_ids\<close> hold for every scan and returning order the server may choose.
\<close>

section \<open>Ordered selection\<close>

definition ids_distinct :: "jobs_table \<Rightarrow> bool" where
  "ids_distinct t = distinct (map r_job_id t)"

lemma scan_set: "pg_documented p \<Longrightarrow> set (pg_scan p t) = set t"
  by (metis mset_eq_setD pg_documented_def)

lemma scan_filter_length: "pg_documented p \<Longrightarrow> length (filter P (pg_scan p t)) = length (filter P t)"
  by (metis mset_filter pg_documented_def size_mset)

lemma ids_distinct_eq: "ids_distinct t \<Longrightarrow> r \<in> set t \<Longrightarrow> s \<in> set t \<Longrightarrow> r_job_id r = r_job_id s \<Longrightarrow> r = s"
  unfolding ids_distinct_def by (metis distinct_map inj_on_def)

lemma scan_distinct:
  assumes "pg_documented p" "ids_distinct t" shows "ids_distinct (pg_scan p t)"
proof -
  have "mset (pg_scan p t) = mset t" using assms(1) unfolding pg_documented_def by blast
  then have "mset (map r_job_id (pg_scan p t)) = mset (map r_job_id t)" by simp
  from mset_eq_imp_distinct_iff [OF this] show ?thesis using assms(2) unfolding ids_distinct_def by (rule iffD2)
qed

lemma select_set: "pg_documented p \<Longrightarrow> set (select_ordered p P key n t) \<subseteq> {r \<in> set t. P r}"
  using scan_set [of p t] set_take_subset [of "nat n" "sort_key key (filter P (pg_scan p t))"]
  unfolding select_ordered_def by simp

lemma select_length:
  "pg_documented p \<Longrightarrow> length (select_ordered p P key n t) = min (nat n) (length (filter P t))"
  by (simp add: select_ordered_def scan_filter_length min.commute)

lemma select_sorted: "sorted (map key (select_ordered p P key n t))"
  by (simp add: select_ordered_def take_map [symmetric] sorted_wrt_take)

text \<open>A row that qualifies and is not selected does not rank before a selected one.\<close>

lemma select_best:
  assumes "pg_documented p" "r \<in> set t" "P r" "r \<notin> set (select_ordered p P key n t)"
    and "s \<in> set (select_ordered p P key n t)"
  shows "key s \<le> key r"
proof -
  let ?xs = "sort_key key (filter P (pg_scan p t))"
  have "r \<in> set ?xs" using assms(2,3) scan_set [OF assms(1)] by simp
  then have "r \<in> set (drop (nat n) ?xs)"
    using assms(4) unfolding select_ordered_def by (metis Un_iff append_take_drop_id set_append)
  moreover have "s \<in> set (take (nat n) ?xs)" using assms(5) by (simp add: select_ordered_def)
  moreover have "sorted (map key (take (nat n) ?xs @ drop (nat n) ?xs))" by simp
  ultimately show ?thesis unfolding map_append sorted_append by auto
qed

lemma select_distinct:
  assumes "pg_documented p" "ids_distinct t"
  shows "distinct (map r_job_id (select_ordered p P key n t))"
proof -
  have "distinct (map r_job_id (filter P (pg_scan p t)))"
    using scan_distinct [OF assms] by (simp add: ids_distinct_def distinct_map_filter)
  moreover have "mset (map r_job_id (sort_key key (filter P (pg_scan p t)))) =
      mset (map r_job_id (filter P (pg_scan p t)))" by simp
  ultimately have "distinct (map r_job_id (sort_key key (filter P (pg_scan p t))))"
    by (metis mset_eq_imp_distinct_iff)
  then show ?thesis by (simp add: select_ordered_def take_map [symmetric])
qed

text \<open>Selecting rows and then their ids is selecting the rows with these ids.\<close>

lemma selected_ids:
  assumes "pg_documented p" "ids_distinct t"
  shows "mset (filter (\<lambda>r. r_job_id r \<in> r_job_id ` set (select_ordered p P key n t)) t) =
    mset (select_ordered p P key n t)"
proof -
  let ?s = "select_ordered p P key n t"
  have sub: "set ?s \<subseteq> set t" using select_set [OF assms(1)] by blast
  have "set (filter (\<lambda>r. r_job_id r \<in> r_job_id ` set ?s) t) = set ?s"
    using sub ids_distinct_eq [OF assms(2)] by auto
  moreover have "distinct (filter (\<lambda>r. r_job_id r \<in> r_job_id ` set ?s) t)" "distinct ?s"
    using assms(2) select_distinct [OF assms] by (auto simp: ids_distinct_def distinct_map)
  ultimately show ?thesis by (metis set_eq_iff_mset_eq_distinct)
qed

section \<open>Claiming\<close>

lemma row_to_record_simps [simp]:
  "jr_job_id (row_to_record r) = r_job_id r" "jr_priority (row_to_record r) = r_priority r"
  "jr_created_at (row_to_record r) = r_created_at r" "jr_state (row_to_record r) = r_state r"
  "jr_retry_count (row_to_record r) = r_retry_count r" "jr_tenant_id (row_to_record r) = r_tenant_id r"
  "jr_max_retries (row_to_record r) = r_max_retries r" "jr_dispatched_at (row_to_record r) = r_dispatched_at r"
  by (simp_all add: row_to_record_def Let_def)

lemma dispatch_update_simps [simp]:
  "r_job_id (dispatch_update p r) = r_job_id r" "r_priority (dispatch_update p r) = r_priority r"
  "r_created_at (dispatch_update p r) = r_created_at r" "r_state (dispatch_update p r) = state_value DISPATCHED"
  "r_retry_count (dispatch_update p r) = r_retry_count r" "r_max_retries (dispatch_update p r) = r_max_retries r"
  "r_tenant_id (dispatch_update p r) = r_tenant_id r" "r_payload (dispatch_update p r) = r_payload r"
  "r_retry_after (dispatch_update p r) = r_retry_after r"
  by (simp_all add: dispatch_update_def)

lemma claim_order_row [simp]: "claim_order (row_to_record r) = dispatch_order r"
  by (simp add: claim_order_def dispatch_order_def)

definition schedulable :: "pg \<Rightarrow> job_row \<Rightarrow> bool" where
  "schedulable p r \<longleftrightarrow> r_state r = state_value QUEUED \<and> unlocked p r"

text \<open>The rows a claim takes.\<close>

definition claimed_rows :: "pg \<Rightarrow> int \<Rightarrow> jobs_table \<Rightarrow> job_row list" where
  "claimed_rows p limit t = select_ordered p (schedulable p) dispatch_order limit t"

lemma claim_eq:
  assumes "pg_fault p = None" "0 < limit"
  shows "claim_schedulable_jobs p limit t =
    (Inr (sort_key claim_order (map row_to_record (pg_returning p
       (map (dispatch_update p) (filter (\<lambda>r. r_job_id r \<in> r_job_id ` set (claimed_rows p limit t)) t))))),
     update_where (\<lambda>r. r_job_id r \<in> r_job_id ` set (claimed_rows p limit t)) (dispatch_update p) t)"
  using assms by (simp add: claim_schedulable_jobs_def update_ids_def claimed_rows_def schedulable_def [abs_def])

lemma claim_cases:
  "claim_schedulable_jobs p limit t = (Inr jobs, t') \<Longrightarrow> pg_fault p = None \<and> 0 < limit"
  by (auto simp: claim_schedulable_jobs_def split: if_splits option.splits prod.splits)

lemma claim_mset:
  assumes "pg_documented p" "ids_distinct t" "claim_schedulable_jobs p limit t = (Inr jobs, t')"
  shows "mset jobs = mset (map (row_to_record \<circ> dispatch_update p) (claimed_rows p limit t))"
proof -
  have ok: "pg_fault p = None" "0 < limit" using claim_cases [OF assms(3)] by auto
  let ?f = "filter (\<lambda>r. r_job_id r \<in> r_job_id ` set (claimed_rows p limit t)) t"
  have "mset jobs = mset (map row_to_record (pg_returning p (map (dispatch_update p) ?f)))"
    using assms(3) claim_eq [OF ok] by auto
  also have "\<dots> = image_mset row_to_record (mset (map (dispatch_update p) ?f))"
    using assms(1) by (simp add: pg_documented_def)
  finally have "mset jobs = image_mset (row_to_record \<circ> dispatch_update p) (mset ?f)"
    by (simp add: image_mset.compositionality)
  then show ?thesis unfolding claimed_rows_def selected_ids [OF assms(1,2)] by simp
qed

lemma claim_ids:
  assumes "pg_documented p" "ids_distinct t" "claim_schedulable_jobs p limit t = (Inr jobs, t')"
  shows "jr_job_id ` set jobs = r_job_id ` set (claimed_rows p limit t)"
    and "t' = update_where (\<lambda>r. r_job_id r \<in> jr_job_id ` set jobs) (dispatch_update p) t"
    and "set jobs = (row_to_record \<circ> dispatch_update p) ` set (claimed_rows p limit t)"
proof -
  show s: "set jobs = (row_to_record \<circ> dispatch_update p) ` set (claimed_rows p limit t)"
    using mset_eq_setD [OF claim_mset [OF assms]] by simp
  then show i: "jr_job_id ` set jobs = r_job_id ` set (claimed_rows p limit t)"
    by (simp add: image_image)
  show "t' = update_where (\<lambda>r. r_job_id r \<in> jr_job_id ` set jobs) (dispatch_update p) t"
    using assms(3) claim_eq [of p limit t] claim_cases [OF assms(3)] i by auto
qed

section \<open>Properties of the claim\<close>

text \<open>
  C5: What one \<open>claim_schedulable_jobs\<close> does, for every scan order, returning order and set of
  locked rows. It claims as many rows as the limit allows; each is a different row that was
  queued and not locked; no schedulable row it leaves behind ranks before a claimed one (higher
  priority first, then older); the records come back in that order; the claimed rows become
  \<open>dispatched\<close>, with \<open>dispatched_at\<close> set at the first dispatch only, and no other row changes.
\<close>

theorem claim_correct:
  assumes "pg_documented p" and "ids_distinct t" and "pg_fault p = None" and "0 < limit"
  shows "\<exists>jobs t'. claim_schedulable_jobs p limit t = (Inr jobs, t') \<and>
     length jobs = min (nat limit) (length (filter (schedulable p) t)) \<and>
     distinct (map jr_job_id jobs) \<and> sorted (map (\<lambda>j. (- jr_priority j, jr_created_at j)) jobs) \<and>
     (\<forall>r \<in> set t. r_job_id r \<in> jr_job_id ` set jobs \<longrightarrow> schedulable p r \<and>
        row_to_record (dispatch_update p r) \<in> set jobs) \<and>
     (\<forall>r \<in> set t. schedulable p r \<and> r_job_id r \<notin> jr_job_id ` set jobs \<longrightarrow>
        (\<forall>j \<in> set jobs. (- jr_priority j, jr_created_at j) \<le> (- r_priority r, r_created_at r))) \<and>
     t' = map (\<lambda>r. if r_job_id r \<in> jr_job_id ` set jobs
       then r\<lparr>r_state := ''dispatched'', r_updated_at := pg_now p,
              r_dispatched_at := Some (case r_dispatched_at r of Some d \<Rightarrow> d | None \<Rightarrow> pg_now p)\<rparr>
       else r) t"
proof -
  obtain jobs t' where c: "claim_schedulable_jobs p limit t = (Inr jobs, t')"
    using claim_eq [OF assms(3,4), of t] by blast
  let ?s = "claimed_rows p limit t"
  have sub: "set ?s \<subseteq> {r \<in> set t. schedulable p r}" unfolding claimed_rows_def by (rule select_set [OF assms(1)])
  note ids = claim_ids [OF assms(1,2) c] and ms = claim_mset [OF assms(1,2) c]
  have len: "length jobs = length ?s" using mset_eq_length [OF ms] by simp
  have "mset (map jr_job_id jobs) = image_mset jr_job_id (mset jobs)" by simp
  also have "\<dots> = mset (map r_job_id ?s)" unfolding ms by (simp add: image_mset.compositionality comp_def)
  finally have dist: "distinct (map jr_job_id jobs)"
    using select_distinct [OF assms(1,2)] mset_eq_imp_distinct_iff unfolding claimed_rows_def by metis
  have srt: "sorted (map claim_order jobs)" using c claim_eq [OF assms(3,4), of t] by auto
  have mem: "schedulable p r \<and> row_to_record (dispatch_update p r) \<in> set jobs"
    if "r \<in> set t" "r_job_id r \<in> jr_job_id ` set jobs" for r
  proof -
    have "r \<in> set ?s" using that ids(1) sub ids_distinct_eq [OF assms(2)] by auto
    then show ?thesis using sub ids(3) by auto
  qed
  have best: "claim_order j \<le> dispatch_order r"
    if r: "r \<in> set t" "schedulable p r" "r_job_id r \<notin> jr_job_id ` set jobs" and j: "j \<in> set jobs" for r j
  proof -
    obtain s where s: "s \<in> set ?s" "j = row_to_record (dispatch_update p s)" using j ids(3) by auto
    have "r \<notin> set ?s" using r(3) ids(1) by auto
    then have "dispatch_order s \<le> dispatch_order r"
      using select_best [OF assms(1) r(1), where P = "schedulable p" and s = s] r(2) s(1) unfolding claimed_rows_def by blast
    then show ?thesis using s(2) by (simp add: dispatch_order_def)
  qed
  have len': "length jobs = min (nat limit) (length (filter (schedulable p) t))"
    using len select_length [OF assms(1), of "schedulable p" dispatch_order limit t] by (simp add: claimed_rows_def)
  show ?thesis
    by (intro exI conjI ballI impI, rule c, rule len', rule dist)
      (use srt mem best ids(2) in \<open>auto simp: update_where_def claim_order_def [abs_def] dispatch_order_def dispatch_update_def split: option.split\<close>)
qed

text \<open>A server and rows for the witnesses: it returns rows in reverse order.\<close>

definition demo_pg :: "int \<Rightarrow> string list \<Rightarrow> pg" where
  "demo_pg now locked = \<lparr>pg_now = now, pg_scan = (\<lambda>t. t), pg_returning = rev, pg_locked = locked, pg_fault = None\<rparr>"

definition demo_row :: "string \<Rightarrow> int \<Rightarrow> job_state \<Rightarrow> int \<Rightarrow> int option \<Rightarrow> job_row" where
  "demo_row i prio st retries retry_after =
     \<lparr>r_job_id = i, r_tenant_id = ''t'', r_priority = prio, r_state = state_value st, r_payload = JObj [],
      r_retry_count = retries, r_max_retries = 3, r_created_at = 0, r_updated_at = 0, r_dispatched_at = None,
      r_retry_after = retry_after\<rparr>"

lemma demo_pg_documented [simp]: "pg_documented (demo_pg now locked)" "pg_fault (demo_pg now locked) = None"
  by (simp_all add: pg_documented_def demo_pg_def)

theorem claim_correct_witness:
  "let t = [demo_row ''a'' 1 QUEUED 0 None, demo_row ''b'' 5 QUEUED 0 None, demo_row ''c'' 9 RUNNING 0 None] in
   \<exists>jobs t'. claim_schedulable_jobs (demo_pg 7 [''b'']) 5 t = (Inr jobs, t') \<and> length jobs = 1 \<and>
     (\<forall>r \<in> set t. r_job_id r \<in> jr_job_id ` set jobs \<longrightarrow> schedulable (demo_pg 7 [''b'']) r)"
proof -
  let ?t = "[demo_row ''a'' 1 QUEUED 0 None, demo_row ''b'' 5 QUEUED 0 None, demo_row ''c'' 9 RUNNING 0 None]"
  have d: "ids_distinct ?t" by (simp add: ids_distinct_def demo_row_def)
  have n: "length (filter (schedulable (demo_pg 7 [''b''])) ?t) = 1"
    by (simp add: schedulable_def unlocked_def demo_pg_def demo_row_def)
  show ?thesis
    unfolding Let_def using claim_correct [of "demo_pg 7 [''b'']" ?t 5] d n by auto
qed

text \<open>
  C6: Two schedulers never claim the same job. Whether the second claim runs after the first
  has committed, or at the same time on the same snapshot with the first one's rows locked, the
  claimed job ids are disjoint.
\<close>

theorem concurrent_claims_disjoint:
  assumes "pg_documented p" and "pg_documented q" and "ids_distinct t"
    and "claim_schedulable_jobs p m t = (Inr jobs, t1)"
    and "t2 = t1 \<or> t2 = t \<and> jr_job_id ` set jobs \<subseteq> set (pg_locked q)"
    and "claim_schedulable_jobs q n t2 = (Inr jobs', t3)"
  shows "jr_job_id ` set jobs \<inter> jr_job_id ` set jobs' = {}"
proof -
  note ids = claim_ids [OF assms(1,3,4)]
  have d: "ids_distinct t2"
    using assms(3,5) ids(2) by (auto simp: ids_distinct_def update_where_def comp_def if_distrib cong: if_cong)
  have second: "\<exists>r \<in> set t2. r_job_id r = i \<and> schedulable q r" if "i \<in> jr_job_id ` set jobs'" for i
    using that claim_ids(1) [OF assms(2) d assms(6)] select_set [OF assms(2), of "schedulable q" dispatch_order n t2]
    unfolding claimed_rows_def by auto
  have "i \<notin> jr_job_id ` set jobs'" if i: "i \<in> jr_job_id ` set jobs" for i
  proof
    assume "i \<in> jr_job_id ` set jobs'"
    then obtain r where r: "r \<in> set t2" "r_job_id r = i" "schedulable q r" using second by blast
    from assms(5) show False
    proof
      assume "t2 = t1"
      then have "r_state r = state_value DISPATCHED" using r(1,2) i ids(2) by (auto simp: update_where_def split: if_splits)
      then show False using r(3) by (simp add: schedulable_def)
    next
      assume "t2 = t \<and> jr_job_id ` set jobs \<subseteq> set (pg_locked q)"
      then show False using r(2,3) i by (auto simp: schedulable_def unlocked_def)
    qed
  qed
  then show ?thesis by blast
qed


theorem concurrent_claims_disjoint_witness:
  "let t = [demo_row ''a'' 1 QUEUED 0 None, demo_row ''b'' 5 QUEUED 0 None];
       jobs = projr (fst (claim_schedulable_jobs (demo_pg 7 []) 1 t));
       jobs' = projr (fst (claim_schedulable_jobs (demo_pg 8 [''b'']) 1 t))
   in map jr_job_id jobs = [''b''] \<and> map jr_job_id jobs' = [''a''] \<and>
      jr_job_id ` set jobs \<inter> jr_job_id ` set jobs' = {}"
proof -
  let ?t = "[demo_row ''a'' 1 QUEUED 0 None, demo_row ''b'' 5 QUEUED 0 None]"
  let ?c = "claim_schedulable_jobs (demo_pg 7 []) 1 ?t" and ?d = "claim_schedulable_jobs (demo_pg 8 [''b'']) 1 ?t"
  have i: "ids_distinct ?t" by (simp add: ids_distinct_def demo_row_def)
  have c: "?c = (Inr [row_to_record (dispatch_update (demo_pg 7 []) (demo_row ''b'' 5 QUEUED 0 None))], snd ?c)"
    and d: "?d = (Inr [row_to_record (dispatch_update (demo_pg 8 [''b'']) (demo_row ''a'' 1 QUEUED 0 None))], snd ?d)"
    by (simp_all add: claim_schedulable_jobs_def update_ids_def select_ordered_def unlocked_def demo_pg_def demo_row_def
        dispatch_order_def)
  have l: "jr_job_id ` set [row_to_record (dispatch_update (demo_pg 7 []) (demo_row ''b'' 5 QUEUED 0 None))] \<subseteq>
      set (pg_locked (demo_pg 8 [''b'']))" by (simp add: demo_row_def demo_pg_def)
  note disj = concurrent_claims_disjoint [OF demo_pg_documented(1) demo_pg_documented(1) i c disjI2 [OF conjI [OF refl l]] d]
  show ?thesis
    unfolding Let_def arg_cong [OF c, of fst, unfolded fst_conv] arg_cong [OF d, of fst, unfolded fst_conv]
    using disj by (simp add: demo_row_def)
qed

end
