(* ===== verification/Repository_Retry.thy ===== *)
theory Repository_Retry
  imports Repository_Claim
begin

text \<open>
  The retry policy: \<open>schedule_retry_from_worker_result\<close> spends the retry budget or dead-letters,
  and \<open>requeue_due_retries\<close> brings back the rows whose time has come.
\<close>

lemma update_one:
  assumes "ids_distinct t" "r \<in> set t"
  shows "filter (\<lambda>s. r_job_id s = r_job_id r) t = [r]"
proof -
  obtain xs ys where t: "t = xs @ r # ys" using assms(2) by (meson split_list)
  have "r_job_id r \<notin> r_job_id ` set xs" "r_job_id r \<notin> r_job_id ` set ys"
    using assms(1) by (auto simp: t ids_distinct_def)
  then have "filter (\<lambda>s. r_job_id s = r_job_id r) xs = []" "filter (\<lambda>s. r_job_id s = r_job_id r) ys = []"
    unfolding filter_empty_conv by (metis image_eqI)+
  then show ?thesis by (simp add: t)
qed

lemma returning_one: "pg_documented p \<Longrightarrow> pg_returning p [x] = [x]"
  unfolding pg_documented_def by (metis mset_single_iff mset.simps(1,2) add_mset_add_single)

lemma returning_nil: "pg_documented p \<Longrightarrow> pg_returning p [] = []"
  unfolding pg_documented_def by (metis mset_zero_iff_right mset.simps(1))

lemma returning_nil_iff: "pg_documented p \<Longrightarrow> pg_returning p xs = [] \<longleftrightarrow> xs = []"
  unfolding pg_documented_def by (metis mset_zero_iff_right mset.simps(1))

lemma returning_set: "pg_documented p \<Longrightarrow> set (pg_returning p xs) = set xs"
  unfolding pg_documented_def by (metis mset_eq_setD)

lemma update_ids_one:
  assumes "pg_documented p" "ids_distinct t" "r \<in> set t"
  shows "update_ids p [r_job_id r] f t = ([f r], update_where (\<lambda>s. r_job_id s = r_job_id r) f t)"
  using update_one [OF assms(2,3)] returning_one [OF assms(1)] by (simp add: update_ids_def)

lemma update_ids_none:
  assumes "pg_documented p" "i \<notin> r_job_id ` set t"
  shows "update_ids p [i] f t = ([], t)"
proof -
  have "filter (\<lambda>r. r_job_id r = i) t = []" using assms(2) by (auto simp: filter_empty_conv)
  moreover have "update_where (\<lambda>r. r_job_id r = i) f t = t"
    unfolding update_where_def using assms(2) by (intro map_idI) auto
  ultimately show ?thesis using returning_nil [OF assms(1)] by (simp add: update_ids_def)
qed

definition retry_outcome :: "int \<Rightarrow> job_row \<Rightarrow> schedule_retry_result" where
  "retry_outcome a r =
     (if r_retry_count r < r_max_retries r
      then \<lparr>sr_outcome = ''scheduled'', sr_job_id = r_job_id r, sr_state = ''retry_scheduled'',
            sr_retry_count = r_retry_count r + 1, sr_max_retries = r_max_retries r, sr_retry_after = Some a\<rparr>
      else \<lparr>sr_outcome = ''exhausted'', sr_job_id = r_job_id r, sr_state = ''dead_lettered'',
            sr_retry_count = r_retry_count r, sr_max_retries = r_max_retries r, sr_retry_after = r_retry_after r\<rparr>)"

lemma schedule_retry_eq:
  assumes "pg_documented p" "ids_distinct t" "pg_fault p = None" "in_int8 (py_int_of_float clock + delay)"
  shows "schedule_retry_from_worker_result p clock i delay t =
    (case find (\<lambda>r. r_job_id r = i) t of
       None \<Rightarrow> (Inr None, t)
     | Some r \<Rightarrow> (Inr (Some (retry_outcome (py_int_of_float clock + delay) (r\<lparr>r_job_id := i\<rparr>))),
          map (\<lambda>s. if r_job_id s = i then retry_update p (py_int_of_float clock + delay) s else s) t))"
proof (cases "find (\<lambda>r. r_job_id r = i) t")
  case None
  then have "i \<notin> r_job_id ` set t" by (auto simp: find_None_iff)
  then show ?thesis
    using None assms(3,4) update_ids_none [OF assms(1)] by (simp add: schedule_retry_from_worker_result_def)
next
  case (Some r)
  let ?a = "py_int_of_float clock + delay"
  have r: "r \<in> set t" "r_job_id r = i" using Some unfolding find_Some_iff by auto
  have "update_ids p [i] (retry_update p ?a) t =
      ([retry_update p ?a r], map (\<lambda>s. if r_job_id s = i then retry_update p ?a s else s) t)"
    using update_ids_one [OF assms(1,2) r(1)] r(2) by (simp add: update_where_def)
  then show ?thesis
    using Some assms(3,4) r(2)
    by (simp add: schedule_retry_from_worker_result_def Let_def) (simp add: retry_update_def retry_outcome_def)
qed

text \<open>
  C13: The retry policy on every branch. For a job that does not exist nothing happens; while
  the budget is not used up the attempt is counted, the row waits as \<open>retry_scheduled\<close> until the
  current second plus the delay, and the outcome is \<open>scheduled\<close>; with the budget used up the row
  is \<open>dead_lettered\<close> with its count and outcome \<open>exhausted\<close>. No other row changes.
\<close>

theorem retry_policy:
  assumes "pg_documented p" and "ids_distinct t" and "pg_fault p = None"
    and "0 \<le> clock" and "in_int8 (\<lfloor>clock\<rfloor> + delay)"
  shows "schedule_retry_from_worker_result p clock i delay t =
    (case find (\<lambda>r. r_job_id r = i) t of
       None \<Rightarrow> (Inr None, t)
     | Some r \<Rightarrow>
         (Inr (Some (if r_retry_count r < r_max_retries r
            then \<lparr>sr_outcome = ''scheduled'', sr_job_id = i, sr_state = ''retry_scheduled'',
                  sr_retry_count = r_retry_count r + 1, sr_max_retries = r_max_retries r,
                  sr_retry_after = Some (\<lfloor>clock\<rfloor> + delay)\<rparr>
            else \<lparr>sr_outcome = ''exhausted'', sr_job_id = i, sr_state = ''dead_lettered'',
                  sr_retry_count = r_retry_count r, sr_max_retries = r_max_retries r,
                  sr_retry_after = r_retry_after r\<rparr>)),
          map (\<lambda>s. if r_job_id s \<noteq> i then s
            else if r_retry_count s < r_max_retries s
            then s\<lparr>r_retry_count := r_retry_count s + 1, r_state := ''retry_scheduled'',
                   r_retry_after := Some (\<lfloor>clock\<rfloor> + delay), r_updated_at := pg_now p\<rparr>
            else s\<lparr>r_state := ''dead_lettered'', r_updated_at := pg_now p\<rparr>) t))"
proof -
  have u: "retry_update p a s = (if r_retry_count s < r_max_retries s
      then s\<lparr>r_retry_count := r_retry_count s + 1, r_state := ''retry_scheduled'', r_retry_after := Some a, r_updated_at := pg_now p\<rparr>
      else s\<lparr>r_state := ''dead_lettered'', r_updated_at := pg_now p\<rparr>)" for a s
    by (cases s) (simp add: retry_update_def)
  have c: "py_int_of_float clock = \<lfloor>clock\<rfloor>" using assms(4) by (simp add: py_int_of_float_def)
  show ?thesis
    using schedule_retry_eq [OF assms(1-3), of clock delay i] assms(5) unfolding c retry_outcome_def u
    by (auto split: option.split)
qed

theorem retry_policy_witness:
  "schedule_retry_from_worker_result (demo_pg 7 []) 100 ''a'' 60 [demo_row ''a'' 1 RUNNING 3 (Some 9)] =
     (Inr (Some \<lparr>sr_outcome = ''exhausted'', sr_job_id = ''a'', sr_state = ''dead_lettered'', sr_retry_count = 3,
        sr_max_retries = 3, sr_retry_after = Some 9\<rparr>),
      [(demo_row ''a'' 1 DEAD_LETTERED 3 (Some 9))\<lparr>r_updated_at := 7\<rparr>])"
  using retry_policy [of "demo_pg 7 []" "[demo_row ''a'' 1 RUNNING 3 (Some 9)]" 100 60 "''a''"]
  by (simp add: ids_distinct_def demo_row_def in_int8_def retry_update_def) (simp add: demo_pg_def)

section \<open>Requeueing due retries\<close>

definition requeueable :: "pg \<Rightarrow> int \<Rightarrow> job_row \<Rightarrow> bool" where
  "requeueable p now r \<longleftrightarrow>
     r_state r = ''retry_scheduled'' \<and> (\<exists>deadline \<le> now. r_retry_after r = Some deadline) \<and> r_job_id r \<notin> set (pg_locked p)"

definition deadline_key :: "job_row \<Rightarrow> int \<times> int" where
  "deadline_key r = (the (r_retry_after r), r_created_at r)"

lemma requeueable_alt: "requeueable p now r \<longleftrightarrow> retry_due now r \<and> unlocked p r"
  by (auto simp: requeueable_def retry_due_def unlocked_def split: option.splits)

lemma retry_key_deadline: "requeueable p now r \<Longrightarrow> retry_key r = deadline_key r"
  by (auto simp: requeueable_def retry_key_def deadline_key_def)

definition due_rows :: "pg \<Rightarrow> int \<Rightarrow> int \<Rightarrow> jobs_table \<Rightarrow> job_row list" where
  "due_rows p now limit t = select_ordered p (requeueable p now) retry_key limit t"

definition requeue_update :: "pg \<Rightarrow> job_row \<Rightarrow> job_row" where
  "requeue_update p r = r\<lparr>r_state := state_value QUEUED, r_updated_at := pg_now p\<rparr>"

lemma requeue_eq:
  assumes "pg_fault p = None" "0 < limit"
  shows "requeue_due_retries p now limit t =
    (Inr (map r_job_id (sort_key retry_key (pg_returning p (map (requeue_update p)
       (filter (\<lambda>r. r_job_id r \<in> r_job_id ` set (due_rows p now limit t)) t))))),
     update_where (\<lambda>r. r_job_id r \<in> r_job_id ` set (due_rows p now limit t)) (requeue_update p) t)"
  using assms
  by (simp add: requeue_due_retries_def update_ids_def due_rows_def requeueable_alt [abs_def] requeue_update_def [abs_def])

lemma requeue_update_simps [simp]:
  "r_job_id (requeue_update p r) = r_job_id r" "retry_key (requeue_update p r) = retry_key r"
  "r_retry_after (requeue_update p r) = r_retry_after r" "r_created_at (requeue_update p r) = r_created_at r"
  by (simp_all add: requeue_update_def retry_key_def split: option.split)

text \<open>The ids come back in the order of the deadlines, of rows that are in the new table.\<close>

lemma due_row:
  assumes "pg_documented p" "ids_distinct t" "r \<in> set t" "r_job_id r \<in> r_job_id ` set (due_rows p now limit t)"
  shows "r \<in> set (due_rows p now limit t) \<and> requeueable p now r"
  using select_set [OF assms(1), of "requeueable p now" retry_key limit t] ids_distinct_eq [OF assms(2,3)] assms(4)
  unfolding due_rows_def by fastforce

lemma requeue_order:
  assumes "pg_documented p" "ids_distinct t" "pg_fault p = None" "0 < limit"
    and "requeue_due_retries p now limit t = (Inr ids, t')"
  shows "\<exists>rows. ids = map r_job_id rows \<and> set rows \<subseteq> set t' \<and> sorted (map deadline_key rows)"
proof -
  let ?f = "filter (\<lambda>r. r_job_id r \<in> r_job_id ` set (due_rows p now limit t)) t"
  let ?rows = "sort_key retry_key (pg_returning p (map (requeue_update p) ?f))"
  note eq = requeue_eq [OF assms(3,4), of now t]
  have rows: "set ?rows = requeue_update p ` set ?f" using returning_set [OF assms(1)] by simp
  then have "set ?rows \<subseteq> set t'" using assms(5) eq by (auto simp: update_where_def)
  moreover have "retry_key r = deadline_key r" if "r \<in> set ?rows" for r
  proof -
    obtain s where s: "r = requeue_update p s" "s \<in> set t" "r_job_id s \<in> r_job_id ` set (due_rows p now limit t)"
      using \<open>r \<in> set ?rows\<close> unfolding rows by auto
    then have "retry_key s = deadline_key s" using due_row [OF assms(1,2)] retry_key_deadline by blast
    then show ?thesis by (simp add: s(1) deadline_key_def)
  qed
  then have "map deadline_key ?rows = map retry_key ?rows" by (intro map_cong) simp_all
  then have "sorted (map deadline_key ?rows)" by (simp only: sorted_sort_key)
  ultimately show ?thesis using assms(5) eq by (intro exI [of _ ?rows]) simp
qed

text \<open>
  C14: One pass of \<open>requeue_due_retries\<close>: it requeues as many rows as the limit allows, each a
  different unlocked \<open>retry_scheduled\<close> row whose \<open>retry_after\<close> has come, and returns their ids in
  the order of \<open>retry_after\<close>; a due row it leaves behind is not due earlier than one it takes;
  the taken rows become \<open>queued\<close> and no other row changes. A row whose \<open>retry_after\<close> is \<open>NULL\<close>
  is never taken.
\<close>

theorem requeue_correct:
  assumes "pg_documented p" and "ids_distinct t" and "pg_fault p = None" and "0 < limit"
  shows "\<exists>ids t'. requeue_due_retries p now limit t = (Inr ids, t') \<and>
     length ids = min (nat limit) (length (filter (requeueable p now) t)) \<and> distinct ids \<and>
     (\<exists>rows. ids = map r_job_id rows \<and> set rows \<subseteq> set t' \<and> sorted (map deadline_key rows)) \<and>
     (\<forall>r \<in> set t. r_job_id r \<in> set ids \<longrightarrow> requeueable p now r \<and> r_retry_after r \<noteq> None) \<and>
     (\<forall>r \<in> set t. \<forall>s \<in> set t. requeueable p now r \<and> r_job_id r \<notin> set ids \<and> r_job_id s \<in> set ids \<longrightarrow>
        deadline_key s \<le> deadline_key r) \<and>
     t' = map (\<lambda>r. if r_job_id r \<in> set ids then requeue_update p r else r) t"
proof -
  let ?s = "due_rows p now limit t"
  obtain ids t' where c: "requeue_due_retries p now limit t = (Inr ids, t')" using requeue_eq [OF assms(3,4)] by blast
  have sub: "set ?s \<subseteq> {r \<in> set t. requeueable p now r}" unfolding due_rows_def by (rule select_set [OF assms(1)])
  have "mset ids = image_mset r_job_id (mset (filter (\<lambda>r. r_job_id r \<in> r_job_id ` set ?s) t))"
    using c requeue_eq [OF assms(3,4), of now t] assms(1)
    by (auto simp: pg_documented_def image_mset.compositionality comp_def)
  then have ms: "mset ids = mset (map r_job_id ?s)"
    unfolding due_rows_def selected_ids [OF assms(1,2)] by simp
  have ids: "set ids = r_job_id ` set ?s" using mset_eq_setD [OF ms] by simp
  have in_s: "r \<in> set ?s" if "r \<in> set t" "r_job_id r \<in> set ids" for r
    using due_row [OF assms(1,2) that(1), of now limit] that(2) ids by simp
  have len: "length ids = min (nat limit) (length (filter (requeueable p now) t))"
    using mset_eq_length [OF ms] select_length [OF assms(1)] by (simp add: due_rows_def)
  have "distinct ids"
    using mset_eq_imp_distinct_iff [OF ms] select_distinct [OF assms(1,2)] unfolding due_rows_def by (rule iffD2)
  moreover have "requeueable p now r \<and> r_retry_after r \<noteq> None" if "r \<in> set t" "r_job_id r \<in> set ids" for r
    using in_s [OF that] sub by (auto simp: requeueable_def)
  moreover have "deadline_key s \<le> deadline_key r"
    if "r \<in> set t" "s \<in> set t" "requeueable p now r" "r_job_id r \<notin> set ids" "r_job_id s \<in> set ids" for r s
  proof -
    have "r \<notin> set ?s" using that(4) ids by auto
    then have "retry_key s \<le> retry_key r"
      using select_best [OF assms(1) that(1), where P = "requeueable p now"] that(3) in_s [OF that(2,5)]
      unfolding due_rows_def by blast
    moreover have "requeueable p now s" using in_s [OF that(2,5)] sub by blast
    ultimately show ?thesis using that(3) by (simp add: retry_key_deadline)
  qed
  moreover have "t' = map (\<lambda>r. if r_job_id r \<in> set ids then requeue_update p r else r) t"
    using c requeue_eq [OF assms(3,4), of now t] ids by (simp add: update_where_def)
  moreover note requeue_order [OF assms c]
  ultimately show ?thesis
    using c len by - (rule exI [of _ ids], rule exI [of _ t'], intro conjI ballI impI, blast+)
qed

theorem requeue_correct_witness:
  "\<exists>ids t'. requeue_due_retries (demo_pg 7 []) 100 10
      [demo_row ''a'' 1 RETRY_SCHEDULED 1 (Some 90), demo_row ''b'' 1 RETRY_SCHEDULED 1 None] = (Inr ids, t') \<and>
    length ids = 1 \<and> ''b'' \<notin> set ids"
proof -
  let ?t = "[demo_row ''a'' 1 RETRY_SCHEDULED 1 (Some 90), demo_row ''b'' 1 RETRY_SCHEDULED 1 None]"
  have d: "ids_distinct ?t" by (simp add: ids_distinct_def demo_row_def)
  have n: "length (filter (requeueable (demo_pg 7 []) 100) ?t) = 1"
    by (simp add: requeueable_def demo_pg_def demo_row_def)
  have b: "r_job_id (demo_row ''b'' 1 RETRY_SCHEDULED 1 None) = ''b''" "r_retry_after (demo_row ''b'' 1 RETRY_SCHEDULED 1 None) = None"
    by (simp_all add: demo_row_def)
  from requeue_correct [of "demo_pg 7 []" ?t 10 100] d n b show ?thesis by fastforce
qed

end
