(* ===== verification/Repository_Steps.thy ===== *)
theory Repository_Steps
  imports Repository_Retry
begin

text \<open>
  The repository as a state machine: every operation that changes the table is a \<open>repo_op\<close>, a
  run is a sequence of them, in any order and from any number of callers (each is one atomic
  transaction). Invariants of the table and what a row keeps over its life.
\<close>

datatype repo_op =
    CreateJob pg string string int job_state "(string \<times> json) list option" int
  | UpdateState pg string job_state
  | WorkerState pg string job_state
  | ScheduleRetry pg py_float string int
  | RequeueDue pg int int
  | DeleteJob pg string
  | ReplayDeadLetter pg string
  | MarkDispatched pg jobs_table pg string
  | ClaimJobs pg int

fun repo_apply :: "repo_op \<Rightarrow> jobs_table \<Rightarrow> jobs_table" where
  "repo_apply (CreateJob p i tenant priority st payload max_retries) t =
     snd (create_job p i tenant priority (state_value st) payload max_retries t)"
| "repo_apply (UpdateState p i st) t = snd (update_job_state p i (state_value st) t)"
| "repo_apply (WorkerState p i st) t = snd (update_job_state_from_worker_result p i (state_value st) t)"
| "repo_apply (ScheduleRetry p clock i delay) t = snd (schedule_retry_from_worker_result p clock i delay t)"
| "repo_apply (RequeueDue p now limit) t = snd (requeue_due_retries p now limit t)"
| "repo_apply (DeleteJob p i) t = snd (delete_job p i t)"
| "repo_apply (ReplayDeadLetter p i) t = snd (requeue_dead_lettered_job p i t)"
| "repo_apply (MarkDispatched p0 t0 p i) t = snd (mark_job_dispatched p0 t0 p i t)"
| "repo_apply (ClaimJobs p limit) t = snd (claim_schedulable_jobs p limit t)"

definition run_ops :: "repo_op list \<Rightarrow> jobs_table \<Rightarrow> jobs_table" where
  "run_ops ops t = foldl (\<lambda>t op. repo_apply op t) t ops"

lemma run_ops_simps [simp]: "run_ops [] t = t" "run_ops (op # ops) t = run_ops ops (repo_apply op t)"
  by (simp_all add: run_ops_def)

section \<open>What an operation does to a row\<close>

definition valid_state :: "job_row \<Rightarrow> bool" where
  "valid_state r \<longleftrightarrow> r_state r \<in> range state_value"

text \<open>
  A row keeps its identity, tenant, priority, payload, budget and creation time; once set,
  \<open>dispatched_at\<close> stays; the retry count never decreases and stays within the budget.
\<close>

definition row_evolves :: "job_row \<Rightarrow> job_row \<Rightarrow> bool" where
  "row_evolves r r' \<longleftrightarrow>
     r_job_id r' = r_job_id r \<and> r_tenant_id r' = r_tenant_id r \<and> r_priority r' = r_priority r \<and>
     r_payload r' = r_payload r \<and> r_max_retries r' = r_max_retries r \<and> r_created_at r' = r_created_at r \<and>
     (r_dispatched_at r \<noteq> None \<longrightarrow> r_dispatched_at r' = r_dispatched_at r) \<and>
     r_retry_count r \<le> r_retry_count r' \<and> r_retry_count r' \<le> max (r_retry_count r) (r_max_retries r) \<and>
     (valid_state r \<longrightarrow> valid_state r')"

lemma row_evolves_refl [simp]: "row_evolves r r"
  by (simp add: row_evolves_def)

lemma row_evolves_trans: "row_evolves r s \<Longrightarrow> row_evolves s u \<Longrightarrow> row_evolves r u"
  by (auto simp: row_evolves_def)

text \<open>Every update but the retry's leaves the retry count alone.\<close>

definition row_keeps :: "job_row \<Rightarrow> job_row \<Rightarrow> bool" where
  "row_keeps r r' \<longleftrightarrow> row_evolves r r' \<and> r_retry_count r' = r_retry_count r"

lemma row_keeps_refl [simp]: "row_keeps r r"
  by (simp add: row_keeps_def)

lemma row_updates_evolve:
  "row_keeps r (dispatch_update p r)"
  "row_keeps r (requeue_update p r)"
  "row_evolves r (retry_update p a r)"
  "row_keeps r (r\<lparr>r_state := state_value st, r_updated_at := n\<rparr>)"
  "row_keeps r (r\<lparr>r_state := state_value st, r_retry_after := None, r_updated_at := n\<rparr>)"
  by (auto simp: row_evolves_def row_keeps_def valid_state_def dispatch_update_def requeue_update_def retry_update_def
      simp del: state_value.simps split: option.splits)

text \<open>The three shapes of a table after an operation: rows updated in place, one row added, one id removed.\<close>

definition rows_updated :: "(job_row \<Rightarrow> job_row \<Rightarrow> bool) \<Rightarrow> jobs_table \<Rightarrow> jobs_table \<Rightarrow> bool" where
  "rows_updated R t t' \<longleftrightarrow> (\<exists>f. t' = map f t \<and> (\<forall>r. R r (f r)))"

definition fresh_row :: "jobs_table \<Rightarrow> job_row \<Rightarrow> bool" where
  "fresh_row t r \<longleftrightarrow> r_job_id r \<notin> r_job_id ` set t \<and> r_retry_count r = 0 \<and> 0 \<le> r_max_retries r \<and> 0 \<le> r_priority r \<and>
     in_int4 (r_priority r) \<and> in_int4 (r_max_retries r) \<and> valid_state r"

lemma rows_updated_refl: "(\<And>r. R r r) \<Longrightarrow> rows_updated R t t"
  unfolding rows_updated_def by (intro exI [of _ "\<lambda>r. r"]) simp

lemma rows_updated_where: "(\<And>r. R r r) \<Longrightarrow> (\<And>r. R r (f r)) \<Longrightarrow> rows_updated R t (update_where P f t)"
  unfolding rows_updated_def update_where_def by (intro exI [of _ "\<lambda>r. if P r then f r else r"]) simp

lemma snd_update_ids: "snd (update_ids p ids f t) = update_where (\<lambda>r. r_job_id r \<in> set ids) f t"
  by (simp add: update_ids_def)

lemma repo_apply_updates:
  assumes "\<forall>p i tn pr st pl m. op \<noteq> CreateJob p i tn pr st pl m" "\<forall>p i. op \<noteq> DeleteJob p i"
    and "\<forall>p c i d. op \<noteq> ScheduleRetry p c i d"
  shows "rows_updated row_keeps t (repo_apply op t)"
proof (cases op)
  case (UpdateState p i st)
  then show ?thesis
    by (auto simp: update_job_state_def update_ids_def row_updates_evolve intro!: rows_updated_where rows_updated_refl
        simp del: state_value.simps split: option.splits list.splits)
next
  case (WorkerState p i st)
  then show ?thesis
    by (auto simp: update_job_state_from_worker_result_def update_ids_def row_updates_evolve intro!: rows_updated_where rows_updated_refl
        simp del: state_value.simps split: option.splits)
next
  case (RequeueDue p now limit)
  then show ?thesis
    by (auto simp: requeue_due_retries_def update_ids_def row_updates_evolve Let_def intro!: rows_updated_where rows_updated_refl
        simp del: state_value.simps split: option.splits)
next
  case (ReplayDeadLetter p i)
  then show ?thesis
    by (auto simp: requeue_dead_lettered_job_def row_updates_evolve Let_def intro!: rows_updated_where rows_updated_refl
        simp del: state_value.simps split: option.splits)
next
  case (MarkDispatched p0 t0 p i)
  then show ?thesis
    by (auto simp: mark_job_dispatched_def mark_dispatched_update_def row_updates_evolve Let_def intro!: rows_updated_where rows_updated_refl
        simp del: state_value.simps split: option.splits list.splits sum.splits)
next
  case (ClaimJobs p limit)
  then show ?thesis
    by (auto simp: claim_schedulable_jobs_def update_ids_def row_updates_evolve Let_def intro!: rows_updated_where rows_updated_refl
        simp del: state_value.simps split: option.splits)
qed (use assms in auto)

lemma repo_apply_retry: "rows_updated row_evolves t (repo_apply (ScheduleRetry p clock i delay) t)"
  by (auto simp: schedule_retry_from_worker_result_def update_ids_def row_updates_evolve Let_def
      intro!: rows_updated_where rows_updated_refl simp del: state_value.simps split: option.splits list.splits)

lemma rows_updated_evolves: "rows_updated row_keeps t t' \<Longrightarrow> rows_updated row_evolves t t'"
  by (auto simp: rows_updated_def row_keeps_def)

lemma repo_apply_create:
  "repo_apply (CreateJob p i tn pr st pl m) t = t \<or>
   (\<exists>r. fresh_row t r \<and> r_job_id r = i \<and> repo_apply (CreateJob p i tn pr st pl m) t = t @ [r])"
  by (auto simp: create_job_def fresh_row_def valid_state_def Let_def simp del: state_value.simps split: option.splits)

lemma repo_apply_delete:
  "repo_apply (DeleteJob p i) t = t \<or> repo_apply (DeleteJob p i) t = filter (\<lambda>r. r_job_id r \<noteq> i) t"
  by (auto simp: delete_job_def split: option.splits)

lemma repo_apply_shapes:
  obtains (updated) "rows_updated row_evolves t (repo_apply op t)"
  | (created) r where "fresh_row t r" "repo_apply op t = t @ [r]"
  | (deleted) p i where "op = DeleteJob p i" "repo_apply op t = filter (\<lambda>r. r_job_id r \<noteq> i) t"
proof (cases op)
  case (CreateJob p i tn pr st pl m)
  then show ?thesis using repo_apply_create [of p i tn pr st pl m t] that(1,2) rows_updated_refl by fastforce
next
  case (DeleteJob p i)
  then show ?thesis using repo_apply_delete [of p i t] that(1,3) rows_updated_refl by fastforce
next
  case (ScheduleRetry p c i d)
  then show ?thesis using repo_apply_retry that(1) by blast
qed (use rows_updated_evolves [OF repo_apply_updates] that(1) in blast)+

section \<open>The invariant\<close>

definition repo_inv :: "jobs_table \<Rightarrow> bool" where
  "repo_inv t \<longleftrightarrow> ids_distinct t \<and>
     (\<forall>r \<in> set t. 0 \<le> r_retry_count r \<and> r_retry_count r \<le> r_max_retries r \<and> in_int4 (r_max_retries r) \<and>
        0 \<le> r_priority r \<and> in_int4 (r_priority r) \<and> valid_state r)"

lemma rows_updated_ids: "rows_updated row_evolves t t' \<Longrightarrow> map r_job_id t' = map r_job_id t"
  by (auto simp: rows_updated_def row_evolves_def)

lemma repo_apply_inv: "repo_inv t \<Longrightarrow> repo_inv (repo_apply op t)"
proof -
  assume inv: "repo_inv t"
  show ?thesis
  proof (cases rule: repo_apply_shapes [of t op])
    case updated
    then obtain f where f: "repo_apply op t = map f t" "\<And>r. row_evolves r (f r)" by (auto simp: rows_updated_def)
    have "0 \<le> r_retry_count (f r) \<and> r_retry_count (f r) \<le> r_max_retries (f r) \<and> in_int4 (r_max_retries (f r)) \<and>
        0 \<le> r_priority (f r) \<and> in_int4 (r_priority (f r)) \<and> valid_state (f r)" if "r \<in> set t" for r
      using inv that f(2) [of r] by (auto simp: repo_inv_def row_evolves_def)
    moreover have "ids_distinct (repo_apply op t)"
      using inv rows_updated_ids [OF updated] by (simp add: repo_inv_def ids_distinct_def)
    ultimately show ?thesis using f(1) by (auto simp: repo_inv_def)
  next
    case (created r)
    then show ?thesis using inv by (auto simp: repo_inv_def ids_distinct_def fresh_row_def)
  next
    case (deleted p i)
    then show ?thesis using inv by (auto simp: repo_inv_def ids_distinct_def distinct_map_filter)
  qed
qed

lemma run_ops_inv: "repo_inv t \<Longrightarrow> repo_inv (run_ops ops t)"
  by (induction ops arbitrary: t) (simp_all add: repo_apply_inv)

text \<open>
  C10: The invariant of the \<open>jobs\<close> table. After any sequence of repository operations on an empty
  table, with any server behaviour, the job ids are unique, every row's retry count is between
  zero and its budget, priorities are not negative and fit their column, and every stored state
  is the value of a lifecycle state.
\<close>

theorem repository_invariant:
  "distinct (map r_job_id (run_ops ops [])) \<and>
   (\<forall>r. r \<in> set (run_ops ops []) \<longrightarrow>
      0 \<le> r_retry_count r \<and> r_retry_count r \<le> r_max_retries r \<and> 0 \<le> r_priority r \<and> r_priority r < 2 ^ 31 \<and>
      (\<exists>s. r_state r = state_value s))"
proof -
  have "repo_inv []" by (simp add: repo_inv_def ids_distinct_def)
  then have "repo_inv (run_ops ops [])" by (rule run_ops_inv)
  then show ?thesis by (auto simp: repo_inv_def ids_distinct_def in_int4_def valid_state_def)
qed

theorem repository_invariant_witness:
  "let t = run_ops [CreateJob (demo_pg 1 []) ''a'' ''t'' 5 QUEUED None 3, ClaimJobs (demo_pg 2 []) 1] [] in
   map r_job_id t = [''a''] \<and> (\<forall>r \<in> set t. r_retry_count r \<le> r_max_retries r)"
proof -
  let ?ops = "[CreateJob (demo_pg 1 []) ''a'' ''t'' 5 QUEUED None 3, ClaimJobs (demo_pg 2 []) 1]"
  have "map r_job_id (run_ops ?ops []) = [''a'']"
    by (simp add: create_job_def claim_schedulable_jobs_def demo_pg_def in_int4_def update_ids_def update_where_def
        select_ordered_def unlocked_def Let_def)
  then show ?thesis unfolding Let_def using repository_invariant [of ?ops] by blast
qed

section \<open>The life of a row\<close>

fun op_documented :: "repo_op \<Rightarrow> bool" where
  "op_documented (ScheduleRetry p clock i delay) = pg_documented p"
| "op_documented _ = True"

text \<open>Whether an operation reports a granted retry of a job, and how many a run reports.\<close>

definition retry_granted :: "string \<Rightarrow> repo_op \<Rightarrow> jobs_table \<Rightarrow> bool" where
  "retry_granted i op t =
     (case op of
        ScheduleRetry p clock j delay \<Rightarrow>
          (case fst (schedule_retry_from_worker_result p clock j delay t) of
             Inr (Some res) \<Rightarrow> sr_job_id res = i \<and> sr_outcome res = ''scheduled''
           | _ \<Rightarrow> False)
      | _ \<Rightarrow> False)"

fun granted_retries :: "string \<Rightarrow> repo_op list \<Rightarrow> jobs_table \<Rightarrow> int" where
  "granted_retries i [] t = 0"
| "granted_retries i (op # ops) t = of_bool (retry_granted i op t) + granted_retries i ops (repo_apply op t)"

lemma retry_step:
  assumes "ids_distinct t" "r \<in> set t" "pg_documented p"
  shows "\<exists>r' \<in> set (repo_apply (ScheduleRetry p clock j delay) t). row_evolves r r' \<and>
    r_retry_count r' = r_retry_count r + of_bool (retry_granted (r_job_id r) (ScheduleRetry p clock j delay) t)"
proof (cases "pg_fault p = None \<and> in_int8 (py_int_of_float clock + delay)")
  case False
  then have "repo_apply (ScheduleRetry p clock j delay) t = t" "\<not> retry_granted i (ScheduleRetry p clock j delay) t" for i
    by (auto simp: schedule_retry_from_worker_result_def retry_granted_def Let_def split: option.splits)
  then show ?thesis using assms(2) by (intro bexI [of _ r]) auto
next
  case True
  let ?a = "py_int_of_float clock + delay"
  let ?s = "schedule_retry_from_worker_result p clock j delay t"
  have eq: "?s = (case find (\<lambda>r. r_job_id r = j) t of None \<Rightarrow> (Inr None, t)
     | Some r \<Rightarrow> (Inr (Some (retry_outcome ?a (r\<lparr>r_job_id := j\<rparr>))),
          map (\<lambda>s. if r_job_id s = j then retry_update p ?a s else s) t))"
    using schedule_retry_eq [OF assms(3,1)] True by blast
  show ?thesis
  proof (cases "r_job_id r = j")
    case j: True
    then have "find (\<lambda>r. r_job_id r = j) t \<noteq> None" using assms(2) by (auto simp: find_None_iff)
    then obtain u where u: "find (\<lambda>r. r_job_id r = j) t = Some u" "u \<in> set t" "r_job_id u = j"
      using find_Some_mem [of "\<lambda>r. r_job_id r = j" t] by blast
    then have "u = r" using ids_distinct_eq [OF assms(1)] assms(2) j by simp
    with u eq have s: "?s = (Inr (Some (retry_outcome ?a (r\<lparr>r_job_id := j\<rparr>))),
        map (\<lambda>s. if r_job_id s = j then retry_update p ?a s else s) t)" by simp
    have g: "retry_granted j (ScheduleRetry p clock j delay) t \<longleftrightarrow> r_retry_count r < r_max_retries r"
      by (simp add: retry_granted_def s retry_outcome_def)
    have "retry_update p ?a r \<in> set (repo_apply (ScheduleRetry p clock j delay) t)"
      unfolding repo_apply.simps s snd_conv using assms(2) j by (auto intro: rev_image_eqI)
    moreover have "r_retry_count (retry_update p ?a r) = r_retry_count r + of_bool (r_retry_count r < r_max_retries r)"
      by (simp add: retry_update_def)
    ultimately show ?thesis
      unfolding j g using row_updates_evolve(3) [of r p ?a] by (intro bexI [of _ "retry_update p ?a r"] conjI)
  next
    case j: False
    have "r \<in> set (repo_apply (ScheduleRetry p clock j delay) t)"
      using eq assms(2) j by (force split: option.splits)
    moreover have "\<not> retry_granted (r_job_id r) (ScheduleRetry p clock j delay) t"
      using j by (auto simp: retry_granted_def eq retry_outcome_def split: option.splits)
    ultimately show ?thesis by force
  qed
qed

lemma step_history:
  assumes "ids_distinct t" "r \<in> set t" "op_documented op" "\<forall>p. op \<noteq> DeleteJob p (r_job_id r)"
  shows "\<exists>r' \<in> set (repo_apply op t). row_evolves r r' \<and>
    r_retry_count r' = r_retry_count r + of_bool (retry_granted (r_job_id r) op t)"
proof (cases "\<exists>p c i d. op = ScheduleRetry p c i d")
  case True
  then obtain p c i d where op: "op = ScheduleRetry p c i d" by blast
  show ?thesis unfolding op by (rule retry_step [OF assms(1,2)]) (use assms(3) op in simp)
next
  case False
  then have g: "\<not> retry_granted (r_job_id r) op t" by (cases op) (auto simp: retry_granted_def)
  have "\<exists>r' \<in> set (repo_apply op t). row_keeps r r'"
  proof (cases op)
    case (CreateJob p i tn pr st pl m)
    then show ?thesis using repo_apply_create [of p i tn pr st pl m t] assms(2) by force
  next
    case (DeleteJob p i)
    then show ?thesis using repo_apply_delete [of p i t] assms(2,4) by force
  qed (use False repo_apply_updates [of op t] assms(2) in \<open>auto simp: rows_updated_def\<close>)
  then show ?thesis using g by (auto simp: row_keeps_def)
qed

text \<open>
  C11: The life of a job. As long as its row is not deleted, a job survives every sequence of
  repository operations by any callers; it keeps its tenant, priority, payload, retry budget
  and creation time, and its first \<open>dispatched_at\<close>; its retry count is exactly the number of
  retries that were reported as scheduled, and never exceeds the budget.
\<close>

theorem row_history:
  assumes "repo_inv t" and "r \<in> set t" and "\<forall>op \<in> set ops. op_documented op"
    and "\<forall>p. DeleteJob p (r_job_id r) \<notin> set ops"
  shows "\<exists>r' \<in> set (run_ops ops t). row_evolves r r' \<and>
    r_retry_count r' = r_retry_count r + granted_retries (r_job_id r) ops t \<and>
    r_retry_count r' \<le> r_max_retries r"
  using assms
proof (induction ops arbitrary: t r)
  case Nil
  then show ?case by (intro bexI [of _ r]) (auto simp: repo_inv_def)
next
  case (Cons op ops)
  obtain r1 where r1: "r1 \<in> set (repo_apply op t)" "row_evolves r r1"
    "r_retry_count r1 = r_retry_count r + of_bool (retry_granted (r_job_id r) op t)"
    using step_history [of t r op] Cons.prems by (auto simp: repo_inv_def)
  have i: "r_job_id r1 = r_job_id r" "r_max_retries r1 = r_max_retries r" using r1(2) by (auto simp: row_evolves_def)
  obtain r' where r': "r' \<in> set (run_ops ops (repo_apply op t))" "row_evolves r1 r'"
    "r_retry_count r' = r_retry_count r1 + granted_retries (r_job_id r1) ops (repo_apply op t)"
    "r_retry_count r' \<le> r_max_retries r1"
    using Cons.IH [OF repo_apply_inv [OF Cons.prems(1)] r1(1)] Cons.prems(3,4) i by auto
  then show ?case using r1(3) i row_evolves_trans [OF r1(2) r'(2)] by auto
qed

theorem row_history_witness:
  "let t = [demo_row ''a'' 1 RUNNING 2 None] in
   \<exists>r' \<in> set (run_ops [ScheduleRetry (demo_pg 5 []) 100 ''a'' 60, ScheduleRetry (demo_pg 6 []) 200 ''a'' 60] t).
     r_retry_count r' \<le> 3"
proof -
  let ?r = "demo_row ''a'' 1 RUNNING 2 None"
  have "repo_inv [?r]"
    by (auto simp: repo_inv_def ids_distinct_def demo_row_def in_int4_def valid_state_def simp del: state_value.simps)
  then show ?thesis
    unfolding Let_def
    using row_history [of "[?r]" ?r "[ScheduleRetry (demo_pg 5 []) 100 ''a'' 60, ScheduleRetry (demo_pg 6 []) 200 ''a'' 60]"]
    by (auto simp: demo_row_def)
qed

section \<open>The lifecycle\<close>

text \<open>A row that an update of selected rows changes was selected.\<close>

lemma selected_changes:
  assumes "pg_documented p" "ids_distinct t" "k < length t"
    and "t' = update_where (\<lambda>r. r_job_id r \<in> r_job_id ` set (select_ordered p P key n t)) f t"
    and "r_state (t' ! k) \<noteq> r_state (t ! k)"
  shows "P (t ! k) \<and> t' ! k = f (t ! k)"
proof -
  have k: "t ! k \<in> set t" using assms(3) by simp
  have "r_job_id (t ! k) \<in> r_job_id ` set (select_ordered p P key n t)" "t' ! k = f (t ! k)"
    using assms(3-5) by (auto simp: update_where_def split: if_splits)
  moreover from this have "t ! k \<in> set (select_ordered p P key n t)"
    using select_set [OF assms(1)] ids_distinct_eq [OF assms(2) k] by fastforce
  ultimately show ?thesis using select_set [OF assms(1)] by fastforce
qed

text \<open>
  The operations of the dispatch path follow the lifecycle. Whatever the table and the
  server, a row whose state is changed by a claim, by \<open>mark_job_dispatched\<close> (even when another
  scheduler got there between its two statements) or by a pass of the retry scanner makes a
  transition that \<open>can_transition\<close> allows.
\<close>

theorem dispatch_path_follows_lifecycle:
  assumes "op = ClaimJobs p limit \<or> op = MarkDispatched p0 t0 p i \<or> op = RequeueDue p now limit"
    and "k < length t" and "ids_distinct t" and "pg_documented p"
    and "r_state (repo_apply op t ! k) \<noteq> r_state (t ! k)"
  shows "\<exists>s s'. r_state (t ! k) = state_value s \<and> r_state (repo_apply op t ! k) = state_value s' \<and> can_transition s s'"
proof -
  have q: "can_transition QUEUED DISPATCHED" "can_transition RETRY_SCHEDULED QUEUED"
    by (simp_all add: can_transition_def TERMINAL_STATES_def)
  from assms(1) consider "op = ClaimJobs p limit" | "op = MarkDispatched p0 t0 p i" | "op = RequeueDue p now limit" by blast
  then show ?thesis
  proof cases
  case 1
    then have ok: "pg_fault p = None" "0 < limit"
      using assms(5) by (auto simp: claim_schedulable_jobs_def split: if_splits option.splits)
    then have "repo_apply op t = update_where (\<lambda>r. r_job_id r \<in> r_job_id ` set (claimed_rows p limit t)) (dispatch_update p) t"
      using claim_eq [OF ok] by (simp add: 1)
    from selected_changes [OF assms(4,3,2) this [unfolded claimed_rows_def] assms(5)] show ?thesis
      using q(1) by (intro exI [of _ QUEUED] exI [of _ DISPATCHED]) (simp add: schedulable_def)
  next
    case 2
    let ?P = "\<lambda>r. r_job_id r = i \<and> r_state r = state_value QUEUED"
    have "repo_apply op t = t \<or> repo_apply op t = update_where ?P (dispatch_update p) t"
      by (auto simp: 2 mark_job_dispatched_def mark_dispatched_update_def Let_def simp del: state_value.simps
          split: sum.splits option.splits list.splits)
    then have "?P (t ! k) \<and> repo_apply op t ! k = dispatch_update p (t ! k)"
      using assms(2,5) by (auto simp: update_where_def split: if_splits)
    then show ?thesis using q(1) by (intro exI [of _ QUEUED] exI [of _ DISPATCHED]) simp
  next
    case 3
    then have ok: "pg_fault p = None" "0 < limit"
      using assms(5) by (auto simp: requeue_due_retries_def split: if_splits option.splits)
    then have "repo_apply op t = update_where (\<lambda>r. r_job_id r \<in> r_job_id ` set (due_rows p now limit t)) (requeue_update p) t"
      using requeue_eq [OF ok] by (simp add: 3)
    from selected_changes [OF assms(4,3,2) this [unfolded due_rows_def] assms(5)] show ?thesis
      using q(2) by (intro exI [of _ RETRY_SCHEDULED] exI [of _ QUEUED]) (simp add: requeueable_alt retry_due_def requeue_update_def)
  qed
qed

theorem dispatch_path_follows_lifecycle_witness:
  "\<exists>s s'. r_state (demo_row ''a'' 1 QUEUED 0 None) = state_value s \<and>
     r_state (repo_apply (ClaimJobs (demo_pg 3 []) 1) [demo_row ''a'' 1 QUEUED 0 None] ! 0) = state_value s' \<and> can_transition s s'"
proof -
  let ?t = "[demo_row ''a'' 1 QUEUED 0 None]"
  have "r_state (repo_apply (ClaimJobs (demo_pg 3 []) 1) ?t ! 0) \<noteq> r_state (?t ! 0)"
    by (simp add: claim_schedulable_jobs_def demo_pg_def demo_row_def update_ids_def update_where_def
        select_ordered_def unlocked_def)
  moreover have "ids_distinct ?t" by (simp add: ids_distinct_def)
  ultimately show ?thesis
    using dispatch_path_follows_lifecycle [of "ClaimJobs (demo_pg 3 []) 1" "demo_pg 3 []" 1 _ _ _ _ 0 ?t] by simp
qed

text \<open>
  C33: The writes that apply worker results do not check the lifecycle: a result that arrives
  after the job was canceled takes the row out of the terminal state \<open>canceled\<close>, a transition
  that \<open>can_transition\<close> forbids (\<open>succeeded\<close> for a success, \<open>retry_scheduled\<close> for a retryable
  failure with budget left).
\<close>

theorem worker_result_leaves_terminal_state:
  assumes "pg_documented p" and "ids_distinct t" and "pg_fault p = None" and "k < length t"
    and "r_state (t ! k) = state_value CANCELED" and "r_retry_count (t ! k) < r_max_retries (t ! k)"
    and "in_int8 (py_int_of_float clock + delay)"
  shows "r_state (repo_apply (WorkerState p (r_job_id (t ! k)) SUCCEEDED) t ! k) = state_value SUCCEEDED \<and>
     r_state (repo_apply (ScheduleRetry p clock (r_job_id (t ! k)) delay) t ! k) = state_value RETRY_SCHEDULED \<and>
     \<not> can_transition CANCELED SUCCEEDED \<and> \<not> can_transition CANCELED RETRY_SCHEDULED"
proof -
  let ?i = "r_job_id (t ! k)"
  have k: "t ! k \<in> set t" using assms(4) by simp
  then have f: "find (\<lambda>r. r_job_id r = ?i) t \<noteq> None" by (auto simp: find_None_iff)
  have "repo_apply (WorkerState p ?i SUCCEEDED) t ! k = (t ! k)\<lparr>r_state := state_value SUCCEEDED, r_updated_at := pg_now p\<rparr>"
    using assms(3,4) by (simp add: update_job_state_from_worker_result_def update_ids_def update_where_def)
  moreover have "repo_apply (ScheduleRetry p clock ?i delay) t ! k = retry_update p (py_int_of_float clock + delay) (t ! k)"
    using schedule_retry_eq [OF assms(1-3,7), of ?i] f assms(4) by auto
  ultimately show ?thesis using assms(6) by (simp add: retry_update_def can_transition_def TERMINAL_STATES_def)
qed

theorem worker_result_leaves_terminal_state_witness:
  "r_state (repo_apply (ScheduleRetry (demo_pg 3 []) 100 ''a'' 60) [demo_row ''a'' 1 CANCELED 0 None] ! 0) = ''retry_scheduled''"
  using worker_result_leaves_terminal_state [of "demo_pg 3 []" "[demo_row ''a'' 1 CANCELED 0 None]" 0 100 60]
  by (simp add: ids_distinct_def demo_row_def in_int8_def py_int_of_float_def)

text \<open>
  C32: A job put into \<open>retry_scheduled\<close> without a \<open>retry_after\<close> (as a plain state update of a job
  that never went through the retry policy does) is never requeued: no number of scanner passes
  at any time changes its row.
\<close>

theorem retry_without_deadline_is_stuck:
  assumes "ids_distinct t" and "r \<in> set t" and "r_retry_after r = None"
    and "\<forall>op \<in> set ops. \<exists>p now limit. op = RequeueDue p now limit \<and> pg_documented p"
  shows "r \<in> set (run_ops ops t)"
  using assms
proof (induction ops arbitrary: t)
  case Nil
  then show ?case by simp
next
  case (Cons op ops)
  obtain p now limit where op: "op = RequeueDue p now limit" and p: "pg_documented p" using Cons.prems(4) by auto
  have "rows_updated row_keeps t (repo_apply op t)" by (rule repo_apply_updates) (auto simp: op)
  then have "ids_distinct (repo_apply op t)"
    using rows_updated_ids [OF rows_updated_evolves] Cons.prems(1) by (simp add: ids_distinct_def)
  moreover have "r \<in> set (repo_apply op t)"
  proof (cases "pg_fault p = None \<and> 0 < limit")
    case True
    have "r_job_id r \<notin> r_job_id ` set (due_rows p now limit t)"
    proof
      assume "r_job_id r \<in> r_job_id ` set (due_rows p now limit t)"
      then obtain s where s: "s \<in> set (due_rows p now limit t)" "r_job_id s = r_job_id r" by auto
      have "s \<in> set t" "requeueable p now s"
        using s(1) select_set [OF p, of "requeueable p now" retry_key limit t] by (auto simp: due_rows_def)
      then show False
        using ids_distinct_eq [OF Cons.prems(1), of s r] Cons.prems(2,3) s(2) by (auto simp: requeueable_alt retry_due_def)
    qed
    then show ?thesis using True Cons.prems(2) requeue_eq [of p limit now t] by (force simp: op update_where_def)
  next
    case False
    then show ?thesis using Cons.prems(2) by (auto simp: op requeue_due_retries_def split: option.splits)
  qed
  ultimately show ?case using Cons by simp
qed

theorem retry_without_deadline_is_stuck_witness:
  "demo_row ''a'' 1 RETRY_SCHEDULED 1 None \<in>
     set (run_ops [RequeueDue (demo_pg 5 []) 1000000 100] [demo_row ''a'' 1 RETRY_SCHEDULED 1 None])"
proof -
  have "r_retry_after (demo_row ''a'' 1 RETRY_SCHEDULED 1 None) = None" by (simp add: demo_row_def)
  moreover have "ids_distinct [demo_row ''a'' 1 RETRY_SCHEDULED 1 None]" by (simp add: ids_distinct_def)
  ultimately show ?thesis
    using retry_without_deadline_is_stuck [of "[demo_row ''a'' 1 RETRY_SCHEDULED 1 None]" "demo_row ''a'' 1 RETRY_SCHEDULED 1 None"
        "[RequeueDue (demo_pg 5 []) 1000000 100]"] by auto
qed

end
