(* ===== verification/Json_Roundtrip.thy ===== *)
theory Json_Roundtrip
  imports Json
begin

text \<open>
  What \<open>json.dumps\<close> prints for an object whose values are strings, integers and Booleans,
  \<open>json.loads\<close> reads back. This covers every message of the control plane but the free payload.
\<close>

section \<open>Strings\<close>

lemma hex_digit_val: "n < 16 \<Longrightarrow> hex_val (hex_digit n) = Some n"
  by (auto simp: hex_val_def hex_digit_def Let_def)

lemma read_hex4_hex4: "n < 256 \<Longrightarrow> read_hex4 (hex4 n @ r) = Some (n, r)"
  by (simp add: read_hex4_def hex4_def hex_digit_val)

lemma read_unicode_hex4: "n < 256 \<Longrightarrow> read_unicode_escape (hex4 n @ r) = Some (n, r)"
  by (simp add: read_unicode_escape_def read_hex4_hex4)

lemma of_char_eq_iff: "(of_char c :: nat) = n \<longleftrightarrow> n < 256 \<and> c = char_of n"
  using nat_of_char_less_256 [of c] by auto

lemma read_string_escape:
  "read_string wide (json_escape c @ r) = map_option (\<lambda>(s, t). (c # s, t)) (read_string wide r)"
proof -
  let ?n = "of_char c :: nat"
  have n: "?n < 256" by (rule nat_of_char_less_256)
  consider "?n = 34" | "?n = 92" | "?n = 10" | "?n = 13" | "?n = 9" | "?n = 12" | "?n = 8"
    | "?n \<noteq> 34" "?n \<noteq> 92" "32 \<le> ?n" "?n \<le> 126"
    | "?n \<noteq> 34" "?n \<noteq> 92" "?n \<noteq> 10" "?n \<noteq> 13" "?n \<noteq> 9" "?n \<noteq> 12" "?n \<noteq> 8" "?n < 32 \<or> 126 < ?n" by linarith
  then show ?thesis
  proof cases
    case 8
    have "c \<noteq> CHR 0x22" "c \<noteq> CHR 0x5C" using 8(1,2) by auto
    then show ?thesis using 8 by (simp add: json_escape_def)
  next
    case 9
    have e: "json_escape c = [CHR 0x5C, CHR ''u''] @ hex4 ?n" using 9 by (auto simp: json_escape_def Let_def)
    show ?thesis unfolding e by (simp add: read_unicode_hex4 [OF n] code_point_def n)
  qed (simp_all add: json_escape_def simple_escape_def, simp_all add: of_char_eq_iff char_of_def bit_0)
qed

lemma read_string_dumps:
  "read_string wide (concat (map json_escape s) @ CHR 0x22 # r) = Some (s, r)"
  by (induction s) (simp_all add: read_string_escape)

section \<open>Integers\<close>

lemma str_nat_zero: "str_nat 0 = ''0''"
  by (simp add: str_nat.simps digit_char_def char_of_def bit_0)

lemma str_nat_hd_zero: "0 < n \<Longrightarrow> hd (str_nat n) \<noteq> CHR ''0''"
proof (induction n rule: str_nat.induct)
  case (1 n)
  show ?case
  proof (cases "n < 10")
    case True
    have "(of_char (digit_char n) :: nat) \<noteq> 48" using True "1.prems" by (simp add: of_char_digit_char)
    then have "digit_char n \<noteq> CHR ''0''" by auto
    then show ?thesis using True by (simp add: str_nat.simps [of n])
  next
    case False
    then have "hd (str_nat n) = hd (str_nat (n div 10))" by (simp add: str_nat.simps [of n])
    then show ?thesis using "1.IH" False by simp
  qed
qed

lemma takeWhile_str_nat:
  assumes "r = [] \<or> \<not> is_digit (hd r)"
  shows "takeWhile is_digit (str_nat n @ r) = str_nat n"
  using assms str_nat_digits [of _ n] by (cases r) (auto simp: takeWhile_append takeWhile_eq_all_conv)

text \<open>A text that does not continue a number.\<close>

definition number_ends :: "string \<Rightarrow> bool" where
  "number_ends r \<longleftrightarrow> r = [] \<or> \<not> is_digit (hd r) \<and> hd r \<noteq> CHR ''.'' \<and> hd r \<noteq> CHR ''e'' \<and> hd r \<noteq> CHR ''E''"

lemma take1_iff: "take 1 s = [c] \<longleftrightarrow> s \<noteq> [] \<and> hd s = c"
  by (cases s) auto

lemma take1_append: "s \<noteq> [] \<Longrightarrow> take 1 (s @ r) = [hd s]"
  by (cases s) auto

lemma read_number_nat:
  assumes "number_ends r"
  shows "int_part (str_nat n @ r) = str_nat n"
proof (cases "n = 0")
  case True
  then show ?thesis by (simp add: str_nat_zero int_part_def)
next
  case False
  have "take 1 (str_nat n @ r) \<noteq> ''0''" using str_nat_hd_zero [of n] False unfolding take1_append [OF str_nat_not_Nil] by simp
  then show ?thesis using takeWhile_str_nat [of r n] assms unfolding int_part_def by (auto simp: number_ends_def)
qed

lemma number_from_int:
  assumes "number_ends r" shows "number_from sign ds r = (JInt (sign * int (read_nat ds)), r)"
proof -
  have "frac_part r = []" and "read_exponent r = None"
    using assms by (cases r; auto simp: number_ends_def frac_part_def read_exponent_def)+
  then show ?thesis by (simp add: number_from_def)
qed

lemma read_number_str_int:
  assumes "number_ends r" shows "read_number (str_int i @ r) = Some (JInt i, r)"
proof -
  have m: "take 1 (str_nat n @ r) \<noteq> ''-''" for n
    using hd_str_nat [of n] unfolding take1_append [OF str_nat_not_Nil] by (auto simp: is_digit_def)
  show ?thesis
  proof (cases "i < 0")
    case True
    then show ?thesis
      using read_number_nat [OF assms, of "nat (- i)"] by (simp add: read_number_def str_int_def number_from_int [OF assms])
  next
    case False
    then show ?thesis
      using read_number_nat [OF assms, of "nat i"] m [of "nat i"]
      unfolding read_number_def str_int_def Let_def by (simp add: number_from_int [OF assms] del: take_append)
  qed
qed

section \<open>Flat objects\<close>

datatype flat = FStr string | FInt int | FBool bool

fun flat_json :: "flat \<Rightarrow> json" where
  "flat_json (FStr s) = JStr s"
| "flat_json (FInt i) = JInt i"
| "flat_json (FBool b) = JBool b"

lemma read_literal_int:
  assumes "number_ends r" shows "read_literal (str_int i @ r) = Some (JInt i, r)"
proof -
  have h: "hd (str_int i @ r) = CHR ''-'' \<or> is_digit (hd (str_int i @ r))" and ne: "str_int i \<noteq> []"
    using hd_str_int [of i] by (auto simp: str_int_def)
  have "take 4 (str_int i @ r) \<noteq> ''null''" "take 4 (str_int i @ r) \<noteq> ''true''" "take 5 (str_int i @ r) \<noteq> ''false''"
    using h ne by (cases "str_int i"; auto simp: is_digit_def)+
  then show ?thesis using read_number_str_int [OF assms] by (simp add: read_literal_def)
qed

lemma read_value_flat:
  assumes "number_ends r"
  shows "read_value (Suc n) wide (json_dumps frepr sk (flat_json v) @ r) = Some (flat_json v, r)"
proof (cases v)
  case (FStr s)
  then show ?thesis by (simp add: dumps_str_def read_string_dumps)
next
  case (FInt i)
  have h: "hd (str_int i @ r) = CHR ''-'' \<or> is_digit (hd (str_int i @ r))"
    and ne: "str_int i \<noteq> []" using hd_str_int [of i] by (auto simp: str_int_def)
  obtain c cs where s: "str_int i @ r = c # cs" using ne by (cases "str_int i") auto
  have "c \<noteq> CHR 0x22" "c \<noteq> CHR ''{''" "c \<noteq> CHR ''[''" using h unfolding s by (auto simp: is_digit_def)
  then show ?thesis using read_literal_int [OF assms, of i] FInt s by simp
next
  case (FBool b)
  then show ?thesis by (cases b) (simp_all add: read_literal_def)
qed

lemma json_ws_chars [simp]:
  "\<not> json_ws CHR 0x22" "\<not> json_ws CHR ''}''" "\<not> json_ws CHR '',''" "\<not> json_ws CHR '':''" "json_ws CHR '' ''"
  "\<not> json_ws CHR ''{''"
  by (simp_all add: json_ws_def)

lemma skip_ws_flat: "skip_ws (json_dumps frepr sk (flat_json v) @ r) = json_dumps frepr sk (flat_json v) @ r"
proof (cases v)
  case (FStr s)
  then show ?thesis by (simp add: dumps_str_def)
next
  case (FInt i)
  have h: "hd (str_int i) = CHR ''-'' \<or> is_digit (hd (str_int i))" and ne: "str_int i \<noteq> []"
    using hd_str_int [of i] by (auto simp: str_int_def)
  then obtain c cs where s: "str_int i = c # cs" by (cases "str_int i") auto
  have "\<not> json_ws c" using h unfolding s by (auto simp: json_ws_def is_digit_def)
  then show ?thesis using FInt s by simp
next
  case (FBool b)
  then show ?thesis by (cases b) (simp_all add: json_ws_def)
qed

definition dump_member :: "(py_float \<Rightarrow> string) \<Rightarrow> string \<times> flat \<Rightarrow> string" where
  "dump_member frepr m = dumps_str (fst m) @ '': '' @ json_dumps frepr False (flat_json (snd m))"

lemma read_member:
  assumes "number_ends r"
  shows "read_members (Suc (Suc n)) wide acc (dump_member frepr (k, v) @ r) =
    (if take 1 (skip_ws r) = '','' then read_members (Suc n) wide (dict_set k (flat_json v) acc) (skip_ws (tl (skip_ws r)))
     else if take 1 (skip_ws r) = ''}'' then Some (JObj (dict_set k (flat_json v) acc), tl (skip_ws r)) else None)"
proof -
  have "read_string wide (concat (map json_escape k) @ CHR 0x22 # '': '' @ json_dumps frepr False (flat_json v) @ r) =
      Some (k, '': '' @ json_dumps frepr False (flat_json v) @ r)" by (rule read_string_dumps)
  then show ?thesis
    using read_value_flat [OF assms, of n wide frepr False v] skip_ws_flat [of frepr False v r]
    by (simp add: dump_member_def dumps_str_def)
qed

lemma read_members_flat:
  assumes "ms \<noteq> []" "length ms < n"
  shows "read_members n wide acc (py_join '', '' (map (dump_member frepr) ms) @ ''}'' @ r) =
    Some (JObj (foldl (\<lambda>d (k, v). dict_set k (flat_json v) d) acc ms), r)"
  using assms
proof (induction ms arbitrary: n acc)
  case Nil
  then show ?case by simp
next
  case (Cons m ms)
  obtain k v where m: "m = (k, v)" by fastforce
  obtain n' where n: "n = Suc (Suc n')" using Cons.prems(2) by (cases n; cases "n - 1") auto
  show ?case
  proof (cases ms)
    case Nil
    have e: "number_ends (''}'' @ r)" by (simp add: number_ends_def is_digit_def)
    show ?thesis using read_member [OF e, of n' wide acc frepr k v] by (simp add: Nil m n)
  next
    case (Cons m2 ms2)
    let ?rest = "py_join '', '' (map (dump_member frepr) ms) @ ''}'' @ r"
    have e: "number_ends ('', '' @ ?rest)" by (simp add: number_ends_def is_digit_def)
    have j: "py_join '', '' (map (dump_member frepr) (m # ms)) @ ''}'' @ r = dump_member frepr (k, v) @ '', '' @ ?rest"
      by (simp add: Cons m)
    have q: "skip_ws ?rest = ?rest"
      using Cons by (cases ms2) (simp_all add: dump_member_def dumps_str_def)
    have "read_members (Suc n') wide (dict_set k (flat_json v) acc) ?rest =
        Some (JObj (foldl (\<lambda>d (k, v). dict_set k (flat_json v) d) (dict_set k (flat_json v) acc) ms), r)"
      using Cons.IH [of "Suc n'"] Cons.prems(2) Cons n by simp
    then show ?thesis unfolding j n using read_member [OF e, of n' wide acc frepr k v] q by (simp add: m)
  qed
qed

lemma foldl_dict_set:
  "distinct (map fst (acc @ ms)) \<Longrightarrow>
   foldl (\<lambda>d (k, v). dict_set k (f v) d) (map (\<lambda>(k, v). (k, f v)) acc) ms = map (\<lambda>(k, v). (k, f v)) (acc @ ms)"
proof (induction ms arbitrary: acc)
  case Nil
  then show ?case by simp
next
  case (Cons m ms)
  obtain k v where m: "m = (k, v)" by fastforce
  have "k \<notin> set (map fst (map (\<lambda>(k, v). (k, f v)) acc))" using Cons.prems m by (auto simp: rev_image_eqI)
  then have "dict_set k (f v) (map (\<lambda>(k, v). (k, f v)) acc) = map (\<lambda>(k, v). (k, f v)) (acc @ [(k, v)])"
    unfolding dict_set_def by (induction acc) auto
  then show ?case using Cons.IH [of "acc @ [(k, v)]"] Cons.prems m by simp
qed

lemma join_length: "length xs \<le> length (py_join '', '' xs) + 1"
  by (induction "'', ''" xs rule: py_join.induct) auto

text \<open>Dumping a flat object and loading it gives it back.\<close>

lemma json_flat_roundtrip:
  assumes "ms \<noteq> []" "distinct (map fst ms)"
  shows "json_loads wide (json_dumps frepr False (JObj (map (\<lambda>(k, v). (k, flat_json v)) ms))) =
    Some (JObj (map (\<lambda>(k, v). (k, flat_json v)) ms))"
proof -
  let ?body = "py_join '', '' (map (dump_member frepr) ms) @ ''}''"
  have d: "json_dumps frepr False (JObj (map (\<lambda>(k, v). (k, flat_json v)) ms)) = CHR ''{'' # ?body"
    by (simp add: dump_member_def [abs_def] comp_def case_prod_beta)
  have q: "skip_ws ?body = ?body" "take 1 ?body \<noteq> ''}''"
    using assms(1) by (cases ms; cases "tl ms"; simp add: dump_member_def dumps_str_def)+
  have len: "length ms \<le> length ?body" using join_length [of "map (dump_member frepr) ms"] by simp
  have "read_members (Suc (2 * length ?body + 2)) wide [] (?body @ []) =
      Some (JObj (foldl (\<lambda>d (k, v). dict_set k (flat_json v) d) [] ms), [])"
    using read_members_flat [OF assms(1), of "Suc (2 * length ?body + 2)" wide "[]" frepr "[]"] len by simp
  then have "read_members (Suc (2 * length ?body + 2)) wide [] ?body = Some (JObj (map (\<lambda>(k, v). (k, flat_json v)) ms), [])"
    using foldl_dict_set [of "[]" ms flat_json] assms(2) by simp
  then show ?thesis unfolding json_loads_def d using q by simp
qed

end
