(* ===== verification/Idempotency_Keys.thy ===== *)
theory Idempotency_Keys
  imports Prelude
begin

text \<open>
  The key builders of \<open>kernelq/idempotency_keys.py\<close>. The arguments are Python values, because
  the builders test their types: a string, a value that passes \<open>isinstance(_, int)\<close> (an \<open>int\<close>
  or a \<open>bool\<close>), or anything else.
\<close>

datatype py_arg = ArgStr string | ArgInt py_int | ArgOther

definition validate_job_id :: "py_arg \<Rightarrow> string result" where
  "validate_job_id job_id =
     (case job_id of
        ArgStr s \<Rightarrow>
          (let stripped = py_strip s in
           if stripped = [] then Inl (ValueError ''job_id must be a non-empty string'') else Inr stripped)
      | _ \<Rightarrow> Inl (ValueError ''job_id must be a non-empty string''))"

definition validate_attempt :: "py_arg \<Rightarrow> py_int result" where
  "validate_attempt attempt =
     (case attempt of
        ArgInt a \<Rightarrow>
          if int_of a < 0 then Inl (ValueError ''attempt must be a non-negative integer'') else Inr a
      | _ \<Rightarrow> Inl (ValueError ''attempt must be a non-negative integer''))"

definition validate_event_id :: "py_arg \<Rightarrow> string result" where
  "validate_event_id event_id =
     (case event_id of
        ArgStr s \<Rightarrow>
          (let stripped = py_strip s in
           if stripped = [] then Inl (ValueError ''event_id must be a non-empty string'') else Inr stripped)
      | _ \<Rightarrow> Inl (ValueError ''event_id must be a non-empty string''))"

definition worker_result_key :: "py_arg \<Rightarrow> py_arg \<Rightarrow> string result" where
  "worker_result_key job_id attempt =
     bind_res (validate_job_id job_id) (\<lambda>job.
     bind_res (validate_attempt attempt) (\<lambda>gen.
       Inr (''worker-result:'' @ job @ '':'' @ str_py_int gen)))"

definition dispatch_key :: "py_arg \<Rightarrow> py_arg \<Rightarrow> string result" where
  "dispatch_key job_id attempt =
     bind_res (validate_job_id job_id) (\<lambda>job.
     bind_res (validate_attempt attempt) (\<lambda>gen.
       Inr (''dispatch:'' @ job @ '':'' @ str_py_int gen)))"

definition execution_key :: "py_arg \<Rightarrow> py_arg \<Rightarrow> string result" where
  "execution_key job_id attempt =
     bind_res (validate_job_id job_id) (\<lambda>job.
     bind_res (validate_attempt attempt) (\<lambda>gen.
       Inr (''execution:'' @ job @ '':'' @ str_py_int gen)))"

definition event_key :: "py_arg \<Rightarrow> string result" where
  "event_key event_id = bind_res (validate_event_id event_id) (\<lambda>event. Inr (''event:'' @ event))"

section \<open>When the builders accept\<close>

lemma validate_job_id_Inr:
  "validate_job_id a = Inr j \<longleftrightarrow> (\<exists>s. a = ArgStr s \<and> \<not> is_blank s \<and> j = py_strip s)"
  by (auto simp: validate_job_id_def is_blank_def Let_def split: py_arg.splits if_splits)

lemma validate_attempt_Inr:
  "validate_attempt a = Inr g \<longleftrightarrow> a = ArgInt g \<and> 0 \<le> int_of g"
  by (auto simp: validate_attempt_def split: py_arg.splits if_splits)

lemma validate_event_id_Inr:
  "validate_event_id a = Inr e \<longleftrightarrow> (\<exists>s. a = ArgStr s \<and> \<not> is_blank s \<and> e = py_strip s)"
  by (auto simp: validate_event_id_def is_blank_def Let_def split: py_arg.splits if_splits)

lemma stage_key_Inr [key_simps]:
  "worker_result_key j a = Inr k \<longleftrightarrow> (\<exists>s g. j = ArgStr s \<and> a = ArgInt g \<and> \<not> is_blank s \<and> 0 \<le> int_of g \<and>
     k = ''worker-result:'' @ py_strip s @ '':'' @ str_py_int g)"
  "dispatch_key j a = Inr k \<longleftrightarrow> (\<exists>s g. j = ArgStr s \<and> a = ArgInt g \<and> \<not> is_blank s \<and> 0 \<le> int_of g \<and>
     k = ''dispatch:'' @ py_strip s @ '':'' @ str_py_int g)"
  "execution_key j a = Inr k \<longleftrightarrow> (\<exists>s g. j = ArgStr s \<and> a = ArgInt g \<and> \<not> is_blank s \<and> 0 \<le> int_of g \<and>
     k = ''execution:'' @ py_strip s @ '':'' @ str_py_int g)"
  "event_key j = Inr k \<longleftrightarrow> (\<exists>s. j = ArgStr s \<and> \<not> is_blank s \<and> k = ''event:'' @ py_strip s)"
  by (auto simp: worker_result_key_def dispatch_key_def execution_key_def event_key_def bind_res_eq_Inr
      validate_job_id_Inr validate_attempt_Inr validate_event_id_Inr)

text \<open>A built key never raises in \<open>try_claim\<close>: it is not blank.\<close>

lemma stage_key_not_blank:
  "worker_result_key j a = Inr k \<Longrightarrow> \<not> is_blank k"
  "dispatch_key j a = Inr k \<Longrightarrow> \<not> is_blank k"
  "execution_key j a = Inr k \<Longrightarrow> \<not> is_blank k"
  "event_key j = Inr k \<Longrightarrow> \<not> is_blank k"
  by (auto simp: key_simps is_blank_iff py_isspace_def)

lemma job_segment_inject:
  assumes "s @ '':'' @ str_py_int g = s' @ '':'' @ str_py_int g'"
  shows "s = s' \<and> g = g'"
  using append_sep_inject [of s "CHR '':''" "str_py_int g" s' "str_py_int g'"] assms by simp

text \<open>
  C26: The keys of one pipeline stage identify the job and the attempt: two accepted calls of a
  builder give the same key exactly when the job ids agree after stripping surrounding white
  space and the attempts are the same value. A job id may contain the separator; the last colon
  of the key is the one before the attempt.
\<close>

theorem stage_keys_injective:
  assumes "key = worker_result_key \<or> key = dispatch_key \<or> key = execution_key"
    and "key (ArgStr i) (ArgInt a) = Inr k" and "key (ArgStr j) (ArgInt b) = Inr l"
  shows "k = l \<longleftrightarrow> py_strip i = py_strip j \<and> a = b"
proof -
  note seg = job_segment_inject [of "py_strip i" a "py_strip j" b]
  from assms(1) show ?thesis
    by (elim disjE; use assms(2,3) seg in \<open>fastforce simp: key_simps\<close>)
qed

theorem stage_keys_injective_witness:
  "dispatch_key (ArgStr ''job:1'') (ArgInt (PyInt 2)) = Inr ''dispatch:job:1:2'' \<and>
   dispatch_key (ArgStr ''job'') (ArgInt (PyInt 12)) = Inr ''dispatch:job:12'' \<and>
   ''dispatch:job:1:2'' \<noteq> ''dispatch:job:12''"
proof -
  have k: "dispatch_key (ArgStr ''job:1'') (ArgInt (PyInt 2)) = Inr ''dispatch:job:1:2''"
    "dispatch_key (ArgStr ''job'') (ArgInt (PyInt 12)) = Inr ''dispatch:job:12''"
    by (simp_all add: dispatch_key_def validate_job_id_def validate_attempt_def py_strip_def py_isspace_def
        str_int_def str_nat.simps digit_char_def char_of_def bit_0)
  then show ?thesis using stage_keys_injective [OF _ k] by simp
qed

text \<open>
  The stages do not block each other: a key of one builder is never a key of another.
\<close>

theorem stage_keys_disjoint:
  "{k. \<exists>i a. worker_result_key i a = Inr k} \<inter> {k. \<exists>i a. dispatch_key i a = Inr k} = {} \<and>
   {k. \<exists>i a. worker_result_key i a = Inr k} \<inter> {k. \<exists>i a. execution_key i a = Inr k} = {} \<and>
   {k. \<exists>i a. dispatch_key i a = Inr k} \<inter> {k. \<exists>i a. execution_key i a = Inr k} = {} \<and>
   {k. \<exists>i. event_key i = Inr k} \<inter> ({k. \<exists>i a. worker_result_key i a = Inr k} \<union>
     {k. \<exists>i a. dispatch_key i a = Inr k} \<union> {k. \<exists>i a. execution_key i a = Inr k}) = {}"
  by (auto simp: key_simps)

end
