(* ===== verification/Result_Event.thy ===== *)
theory Result_Event
  imports Json_Roundtrip Idempotency_Keys
begin

text \<open>
  \<open>WorkerResultEvent\<close> and \<open>parse_worker_result_event\<close> of \<open>kernelq/result_event.py\<close>. The
  \<open>attempt\<close> field holds any Python value, because \<open>validate\<close> tests its type.
\<close>

definition RESULT_TOPIC :: string where
  "RESULT_TOPIC = ''kernelq.jobs.results''"

definition WORKER_RESULT_EVENT_TYPE :: string where
  "WORKER_RESULT_EVENT_TYPE = ''job.result''"

definition ALLOWED_STATUSES :: "string set" where
  "ALLOWED_STATUSES = {''succeeded'', ''retryable_failure'', ''terminal_failure''}"

record worker_result =
  we_event_type :: string
  we_job_id :: string
  we_status :: string
  we_message :: string
  we_worker :: string
  we_attempt :: py_arg

definition validate_result :: "worker_result \<Rightarrow> exc option" where
  "validate_result ev =
     (if we_event_type ev \<noteq> WORKER_RESULT_EVENT_TYPE then
        Some (ValueError (''event_type must be '' @ py_repr WORKER_RESULT_EVENT_TYPE @ '', got '' @ py_repr (we_event_type ev)))
      else if is_blank (we_job_id ev) then Some (ValueError ''job_id must not be blank'')
      else if we_status ev \<notin> ALLOWED_STATUSES then
        Some (ValueError (''status must be one of: '' @
          py_join '', '' (sorted_list_of_set ALLOWED_STATUSES) @ '', got '' @ py_repr (we_status ev)))
      else if is_blank (we_worker ev) then Some (ValueError ''worker must not be blank'')
      else case we_attempt ev of
        ArgInt a \<Rightarrow> if int_of a < 0 then Some (ValueError ''attempt must be a non-negative integer'') else None
      | _ \<Rightarrow> Some (ValueError ''attempt must be a non-negative integer''))"

text \<open>\<open>to_dict\<close>, for an event whose attempt is an integer, and \<open>to_json\<close>, which validates first.\<close>

fun flat_of_py_int :: "py_int \<Rightarrow> flat" where
  "flat_of_py_int (PyInt i) = FInt i"
| "flat_of_py_int (PyBool b) = FBool b"

definition result_to_dict :: "worker_result \<Rightarrow> py_int \<Rightarrow> (string \<times> flat) list" where
  "result_to_dict ev a =
     [(''event_type'', FStr (we_event_type ev)), (''job_id'', FStr (we_job_id ev)), (''status'', FStr (we_status ev)),
      (''message'', FStr (we_message ev)), (''worker'', FStr (we_worker ev)), (''attempt'', flat_of_py_int a)]"

definition result_to_json :: "(py_float \<Rightarrow> string) \<Rightarrow> worker_result \<Rightarrow> string result" where
  "result_to_json frepr ev =
     (case validate_result ev of
        Some e \<Rightarrow> Inl e
      | None \<Rightarrow>
          (case we_attempt ev of
             ArgInt a \<Rightarrow> Inr (json_dumps frepr False (JObj (map (\<lambda>(k, v). (k, flat_json v)) (result_to_dict ev a))))
           | _ \<Rightarrow> Inl (TypeError ''not JSON serializable'')))"

text \<open>Raw data: bytes, a string, or \<open>None\<close> (a Kafka message without a value), on which \<open>json.loads\<close> raises \<open>TypeError\<close>.\<close>

datatype raw_data = RawBytes string | RawStr string | RawNone

definition raw_text :: "(nat \<Rightarrow> string) \<Rightarrow> raw_data \<Rightarrow> string result" where
  "raw_text wide data =
     (case data of
        RawBytes b \<Rightarrow>
          (case utf8_decode wide b of
             None \<Rightarrow> Inl (ValueError ''result event must be valid UTF-8'')
           | Some text \<Rightarrow> Inr text)
      | RawStr s \<Rightarrow> Inr s
      | RawNone \<Rightarrow> Inl (TypeError ''the JSON object must be str, bytes or bytearray, not NoneType''))"

definition dict_str :: "(py_float \<Rightarrow> string) \<Rightarrow> (string \<times> json) list \<Rightarrow> string \<Rightarrow> string" where
  "dict_str frepr d k = (case dict_get d k of None \<Rightarrow> [] | Some v \<Rightarrow> py_str_json frepr v)"

definition event_of_payload :: "(py_float \<Rightarrow> string) \<Rightarrow> (string \<times> json) list \<Rightarrow> worker_result result" where
  "event_of_payload frepr d =
     bind_res
       (case dict_get d ''attempt'' of
          None \<Rightarrow> Inr (PyInt 0)
        | Some (JInt i) \<Rightarrow> Inr (PyInt i)
        | Some (JBool b) \<Rightarrow> Inr (PyBool b)
        | Some _ \<Rightarrow> Inl (ValueError ''attempt must be a non-negative integer''))
       (\<lambda>raw_attempt.
          let event = \<lparr>we_event_type = dict_str frepr d ''event_type'', we_job_id = dict_str frepr d ''job_id'',
                we_status = dict_str frepr d ''status'', we_message = dict_str frepr d ''message'',
                we_worker = dict_str frepr d ''worker'', we_attempt = ArgInt raw_attempt\<rparr>
          in case validate_result event of Some e \<Rightarrow> Inl e | None \<Rightarrow> Inr event)"

definition parse_worker_result_event ::
    "(py_float \<Rightarrow> string) \<Rightarrow> (nat \<Rightarrow> string) \<Rightarrow> raw_data \<Rightarrow> worker_result result" where
  "parse_worker_result_event frepr wide data =
     bind_res (raw_text wide data) (\<lambda>text.
       case json_loads wide text of
         None \<Rightarrow> Inl (ValueError ''invalid JSON for worker result event'')
       | Some (JObj d) \<Rightarrow> event_of_payload frepr d
       | Some _ \<Rightarrow> Inl (ValueError ''worker result event must be a JSON object''))"

section \<open>Properties\<close>

definition result_valid :: "worker_result \<Rightarrow> bool" where
  "result_valid ev \<longleftrightarrow> validate_result ev = None"

lemma result_valid_iff:
  "result_valid ev \<longleftrightarrow> we_event_type ev = ''job.result'' \<and> \<not> is_blank (we_job_id ev) \<and> we_status ev \<in> ALLOWED_STATUSES \<and>
     \<not> is_blank (we_worker ev) \<and> (\<exists>a. we_attempt ev = ArgInt a \<and> 0 \<le> int_of a)"
  by (auto simp: result_valid_def validate_result_def WORKER_RESULT_EVENT_TYPE_def not_less split: py_arg.splits)

text \<open>What \<open>dumps\<close> prints is ASCII, so its UTF-8 bytes are its characters.\<close>

lemma hex_digit_ascii: "n < 16 \<Longrightarrow> byte (hex_digit n) < 128"
  by (simp add: hex_digit_def)

lemma json_escape_ascii: "c \<in> set (json_escape d) \<Longrightarrow> byte c < 128"
  by (auto simp: json_escape_def Let_def hex4_def hex_digit_ascii split: if_splits)

lemma dumps_str_ascii: "c \<in> set (dumps_str s) \<Longrightarrow> byte c < 128"
  by (auto simp: dumps_str_def json_escape_ascii)

lemma str_int_ascii: "c \<in> set (str_int i) \<Longrightarrow> byte c < 128"
  by (auto simp: str_int_def is_digit_def dest!: str_nat_digits split: if_splits)

lemma flat_ascii: "c \<in> set (json_dumps frepr sk (flat_json v)) \<Longrightarrow> byte c < 128"
  by (cases v) (auto simp: dumps_str_ascii str_int_ascii split: if_splits)

lemma flat_object_ascii:
  assumes "c \<in> set (json_dumps frepr False (JObj (map (\<lambda>(k, v). (k, flat_json v)) ms)))"
  shows "byte c < 128"
proof -
  have "json_dumps frepr False (JObj (map (\<lambda>(k, v). (k, flat_json v)) ms)) =
      ''{'' @ py_join '', '' (map (dump_member frepr) ms) @ ''}''"
    by (simp add: dump_member_def [abs_def] comp_def case_prod_beta)
  then consider "c \<in> set ''{'' \<union> set '', '' \<union> set ''}''" | m where "m \<in> set ms" "c \<in> set (dump_member frepr m)"
    using assms join_chars [of c "'', ''" "map (dump_member frepr) ms"] by auto
  then show ?thesis
  proof cases
    case 1
    then show ?thesis by auto
  next
    case 2
    then show ?thesis by (auto simp: dump_member_def dumps_str_ascii dest: flat_ascii)
  qed
qed

lemma event_of_dict:
  assumes "result_valid ev" "we_attempt ev = ArgInt a"
  shows "event_of_payload frepr (map (\<lambda>(k, v). (k, flat_json v)) (result_to_dict ev a)) = Inr ev"
proof -
  have "event_of_payload frepr (map (\<lambda>(k, v). (k, flat_json v)) (result_to_dict ev a)) =
      (case validate_result ev of Some e \<Rightarrow> Inl e | None \<Rightarrow> Inr ev)"
    using assms(2)
    by (cases a; cases ev) (simp_all add: event_of_payload_def result_to_dict_def dict_get_def dict_str_def py_str_json_def
        Let_def split: option.split)
  then show ?thesis using assms(1) by (simp add: result_valid_def)
qed

lemma wire_roundtrip:
  assumes "validate_result ev = None"
  shows "\<exists>text. result_to_json frepr ev = Inr text \<and>
     parse_worker_result_event frepr wide (RawStr text) = Inr ev \<and>
     parse_worker_result_event frepr wide (RawBytes text) = Inr ev"
proof -
  have v: "result_valid ev" using assms by (simp add: result_valid_def)
  then obtain a where a: "we_attempt ev = ArgInt a" by (auto simp: result_valid_iff)
  let ?d = "map (\<lambda>(k, v). (k, flat_json v)) (result_to_dict ev a)"
  let ?t = "json_dumps frepr False (JObj ?d)"
  have "json_loads wide ?t = Some (JObj ?d)"
    by (rule json_flat_roundtrip) (simp_all add: result_to_dict_def)
  then have p: "parse_worker_result_event frepr wide (RawStr ?t) = Inr ev"
    using event_of_dict [OF v a] by (simp add: parse_worker_result_event_def raw_text_def)
  have "utf8_decode wide ?t = Some ?t" by (rule utf8_decode_ascii) (use flat_object_ascii in blast)
  then have "parse_worker_result_event frepr wide (RawBytes ?t) = Inr ev"
    using p by (simp add: parse_worker_result_event_def raw_text_def)
  moreover have "result_to_json frepr ev = Inr ?t" using assms a by (simp add: result_to_json_def)
  ultimately show ?thesis using p by blast
qed

text \<open>
  C24: The wire format round-trips: every valid event (message and ids may hold any characters)
  is encoded by \<open>to_json\<close>, and \<open>parse_worker_result_event\<close> of that text, or of its bytes, is the
  event again, attempt included.
\<close>

theorem result_event_roundtrip:
  assumes "validate_result ev = None"
  shows "\<exists>text. result_to_json frepr ev = Inr text \<and>
     parse_worker_result_event frepr wide (RawStr text) = Inr ev \<and>
     parse_worker_result_event frepr wide (RawBytes text) = Inr ev"
  by (rule wire_roundtrip [OF assms])

theorem result_event_roundtrip_witness:
  "let ev = \<lparr>we_event_type = ''job.result'', we_job_id = ''job-1'', we_status = ''succeeded'', we_message = [],
              we_worker = ''w'', we_attempt = ArgInt (PyInt 2)\<rparr>
   in \<exists>text. result_to_json (\<lambda>_. []) ev = Inr text \<and> parse_worker_result_event (\<lambda>_. []) (\<lambda>_. []) (RawBytes text) = Inr ev"
proof -
  let ?ev = "\<lparr>we_event_type = ''job.result'', we_job_id = ''job-1'', we_status = ''succeeded'', we_message = [],
              we_worker = ''w'', we_attempt = ArgInt (PyInt 2)\<rparr>"
  have "validate_result ?ev = None"
    by (simp add: validate_result_def WORKER_RESULT_EVENT_TYPE_def ALLOWED_STATUSES_def is_blank_iff py_isspace_def)
  then show ?thesis unfolding Let_def using result_event_roundtrip by blast
qed

lemma checked_event_valid: "(case validate_result e of Some x \<Rightarrow> Inl x | None \<Rightarrow> Inr e) = Inr ev \<Longrightarrow> result_valid ev"
  by (cases "validate_result e") (auto simp: result_valid_def)

lemma event_of_payload_valid: "event_of_payload frepr d = Inr ev \<Longrightarrow> result_valid ev"
  unfolding event_of_payload_def Let_def bind_res_eq_Inr using checked_event_valid by blast

lemma parse_valid:
  assumes "parse_worker_result_event frepr wide data = Inr ev" shows "result_valid ev"
proof -
  obtain s where t: "(case json_loads wide s of
         None \<Rightarrow> Inl (ValueError ''invalid JSON for worker result event'')
       | Some (JObj d) \<Rightarrow> event_of_payload frepr d
       | Some _ \<Rightarrow> Inl (ValueError ''worker result event must be a JSON object'')) = Inr ev"
    using assms unfolding parse_worker_result_event_def bind_res_eq_Inr by blast
  then obtain d where "event_of_payload frepr d = Inr ev"
    by (cases "json_loads wide s"; cases "the (json_loads wide s)") auto
  then show ?thesis by (rule event_of_payload_valid)
qed

lemma valid_result_key: "result_valid ev \<Longrightarrow> \<exists>key. worker_result_key (ArgStr (we_job_id ev)) (we_attempt ev) = Inr key"
  by (auto simp: result_valid_iff key_simps)

text \<open>
  C25: Whatever bytes arrive, an event that \<open>parse_worker_result_event\<close> returns has the one
  allowed type, a non-blank job id and worker, an allowed status and a non-negative integer
  attempt, so a dedupe key for it always exists.
\<close>

theorem parsed_events_are_valid:
  assumes "parse_worker_result_event frepr wide data = Inr ev"
  shows "we_event_type ev = ''job.result'' \<and> \<not> is_blank (we_job_id ev) \<and> \<not> is_blank (we_worker ev) \<and>
     we_status ev \<in> ALLOWED_STATUSES \<and> (\<exists>a. we_attempt ev = ArgInt a \<and> 0 \<le> int_of a) \<and>
     (\<exists>key. worker_result_key (ArgStr (we_job_id ev)) (we_attempt ev) = Inr key)"
  using parse_valid [OF assms] valid_result_key [of ev] by (simp add: result_valid_iff)

theorem parsed_events_are_valid_witness:
  "\<exists>ev. event_of_payload (\<lambda>_. []) [(''event_type'', JStr ''job.result''), (''job_id'', JInt 7), (''status'', JStr ''succeeded''),
      (''worker'', JStr ''w'')] = Inr ev \<and> we_attempt ev = ArgInt (PyInt 0) \<and>
    (\<exists>key. worker_result_key (ArgStr (we_job_id ev)) (we_attempt ev) = Inr key)"
proof -
  let ?d = "[(''event_type'', JStr ''job.result''), (''job_id'', JInt 7), (''status'', JStr ''succeeded''), (''worker'', JStr ''w'')]"
  let ?ev = "\<lparr>we_event_type = ''job.result'', we_job_id = str_int 7, we_status = ''succeeded'', we_message = [],
              we_worker = ''w'', we_attempt = ArgInt (PyInt 0)\<rparr>"
  let ?ms = "[(''event_type'', FStr ''job.result''), (''job_id'', FInt 7), (''status'', FStr ''succeeded''), (''worker'', FStr ''w'')]"
  have b: "\<not> is_blank (str_int 7)"
    by (simp add: str_int_def str_nat.simps is_blank_iff py_isspace_def of_char_digit_char)
  have e: "event_of_payload (\<lambda>_. []) ?d = Inr ?ev"
    using b by (simp add: event_of_payload_def dict_get_def dict_str_def py_str_json_def Let_def validate_result_def
        WORKER_RESULT_EVENT_TYPE_def ALLOWED_STATUSES_def) (simp add: is_blank_iff py_isspace_def)
  have "json_loads (\<lambda>_. []) (json_dumps (\<lambda>_. []) False (JObj (map (\<lambda>(k, v). (k, flat_json v)) ?ms))) = Some (JObj ?d)"
    using json_flat_roundtrip [of ?ms "\<lambda>_. []" "\<lambda>_. []"] by simp
  then have "parse_worker_result_event (\<lambda>_. []) (\<lambda>_. [])
      (RawStr (json_dumps (\<lambda>_. []) False (JObj (map (\<lambda>(k, v). (k, flat_json v)) ?ms)))) = Inr ?ev"
    using e unfolding parse_worker_result_event_def raw_text_def by simp
  from parsed_events_are_valid [OF this] e show ?thesis by auto
qed

end
