(* ===== verification/Result_Handler.thy ===== *)
theory Result_Handler
  imports Result_Event Repository_Steps
begin

text \<open>
  \<open>ResultStateHandler\<close> of \<open>kernelq/result_handler.py\<close>: what a worker's result does to the \<open>jobs\<close>
  table. The handler's state is the table; the server's choices \<open>p\<close> and the reading of
  \<open>time.time()\<close> are arguments. An exception is \<open>Some\<close>.
\<close>

definition map_result_status_to_job_state :: "string \<Rightarrow> string result" where
  "map_result_status_to_job_state status =
     (if status = ''succeeded'' then Inr (state_value SUCCEEDED)
      else if status = ''terminal_failure'' then Inr (state_value FAILED)
      else Inl (ValueError (''unknown result status: '' @ py_repr status)))"

definition handle_result :: "bool \<Rightarrow> pg \<Rightarrow> py_float \<Rightarrow> worker_result \<Rightarrow> jobs_table \<Rightarrow> exc option \<times> jobs_table" where
  "handle_result has_repository p clock event t =
     (if \<not> has_repository then (Some (ValueError ''repository must not be None''), t)
      else if we_status event = ''retryable_failure'' then
        (case schedule_retry_from_worker_result p clock (we_job_id event) DEFAULT_RETRY_DELAY_SECONDS t of
           (Inl e, t') \<Rightarrow> (Some e, t')
         | (Inr None, t') \<Rightarrow> (Some (ValueError (''job not found: '' @ py_repr (we_job_id event))), t')
         | (Inr (Some res), t') \<Rightarrow> (None, t'))
      else
        (case map_result_status_to_job_state (we_status event) of
           Inl e \<Rightarrow> (Some e, t)
         | Inr new_state \<Rightarrow>
             (case update_job_state_from_worker_result p (we_job_id event) new_state t of
                (Inl e, t') \<Rightarrow> (Some e, t')
              | (Inr updated, t') \<Rightarrow>
                  if \<not> updated then (Some (ValueError (''job not found: '' @ py_repr (we_job_id event))), t')
                  else (None, t'))))"

text \<open>The state a row is in after its result was handled.\<close>

definition state_after :: "string \<Rightarrow> job_row \<Rightarrow> job_state" where
  "state_after status r =
     (if status = ''succeeded'' then SUCCEEDED
      else if status = ''terminal_failure'' then FAILED
      else if r_retry_count r < r_max_retries r then RETRY_SCHEDULED else DEAD_LETTERED)"

lemma worker_update_eq:
  assumes "pg_documented p" "ids_distinct t" "pg_fault p = None" "r \<in> set t"
  shows "update_job_state_from_worker_result p (r_job_id r) new_state t =
    (Inr True, update_where (\<lambda>s. r_job_id s = r_job_id r) (\<lambda>s. s\<lparr>r_state := new_state, r_updated_at := pg_now p\<rparr>) t)"
  using assms(3) update_ids_one [OF assms(1,2,4)] by (simp add: update_job_state_from_worker_result_def)

lemma worker_update_missing:
  assumes "pg_documented p" "pg_fault p = None" "i \<notin> r_job_id ` set t"
  shows "update_job_state_from_worker_result p i new_state t = (Inr False, t)"
  using assms(2) update_ids_none [OF assms(1,3)] by (simp add: update_job_state_from_worker_result_def)

text \<open>
  C12: Handling a result moves exactly the row it names to the state its status means:
  \<open>succeeded\<close> to \<open>succeeded\<close>, \<open>terminal_failure\<close> to \<open>failed\<close>, \<open>retryable_failure\<close> to
  \<open>retry_scheduled\<close> while the budget lasts and to \<open>dead_lettered\<close> afterwards; the other rows stay
  as they are, and nothing is raised. A result for a job that does not exist raises
  \<open>ValueError\<close> and changes nothing.
\<close>

theorem handle_result_correct:
  assumes "pg_documented p" and "ids_distinct t" and "pg_fault p = None"
    and "we_status event \<in> ALLOWED_STATUSES" and "0 \<le> clock" and "in_int8 (\<lfloor>clock\<rfloor> + 60)"
    and "handle_result True p clock event t = (err, t')"
  shows "(\<forall>r \<in> set t. r_job_id r = we_job_id event \<longrightarrow> err = None) \<and>
     (err \<noteq> None \<longrightarrow> t' = t \<and> we_job_id event \<notin> r_job_id ` set t \<and> (\<exists>m. err = Some (ValueError m))) \<and>
     length t' = length t \<and>
     (\<forall>k < length t. if r_job_id (t ! k) = we_job_id event
        then r_job_id (t' ! k) = r_job_id (t ! k) \<and> r_state (t' ! k) = state_value (state_after (we_status event) (t ! k))
        else t' ! k = t ! k)"
proof -
  let ?i = "we_job_id event" and ?st = "we_status event"
  have c: "py_int_of_float clock = \<lfloor>clock\<rfloor>" using assms(5) by (simp add: py_int_of_float_def)
  have absent: "r_job_id (t ! k) \<noteq> ?i" if "?i \<notin> r_job_id ` set t" "k < length t" for k
    using that nth_mem [OF that(2)] by (metis image_eqI)
  consider (retry) "?st = ''retryable_failure''"
    | (direct) s where "?st \<noteq> ''retryable_failure''" "map_result_status_to_job_state ?st = Inr (state_value s)" "\<And>r. state_after ?st r = s"
    using assms(4) by (fastforce simp: ALLOWED_STATUSES_def map_result_status_to_job_state_def state_after_def simp del: state_value.simps)
  then show ?thesis
  proof cases
    case retry
    note eq = schedule_retry_eq [OF assms(1-3), of clock 60 ?i, unfolded c, OF assms(6)]
    show ?thesis
    proof (cases "find (\<lambda>r. r_job_id r = ?i) t")
      case None
      then have no: "?i \<notin> r_job_id ` set t" by (auto simp: find_None_iff)
      have "t' = t" "\<exists>m. err = Some (ValueError m)"
        using assms(7) eq None retry by (auto simp: handle_result_def DEFAULT_RETRY_DELAY_SECONDS_def)
      then show ?thesis using no absent [OF no] by (auto simp: rev_image_eqI)
    next
      case (Some r)
      then have "err = None" "t' = map (\<lambda>s. if r_job_id s = ?i then retry_update p (\<lfloor>clock\<rfloor> + 60) s else s) t"
        using assms(7) eq retry by (auto simp: handle_result_def DEFAULT_RETRY_DELAY_SECONDS_def)
      then show ?thesis using retry by (auto simp: state_after_def retry_update_def)
    qed
  next
    case direct
    show ?thesis
    proof (cases "?i \<in> r_job_id ` set t")
      case True
      then obtain r where r: "r \<in> set t" "r_job_id r = ?i" by auto
      have "err = None" "t' = update_where (\<lambda>s. r_job_id s = ?i) (\<lambda>s'. s'\<lparr>r_state := state_value s, r_updated_at := pg_now p\<rparr>) t"
        using assms(7) direct worker_update_eq [OF assms(1-3) r(1)] r(2) by (auto simp: handle_result_def)
      then show ?thesis using direct(3) by (auto simp: update_where_def simp del: state_value.simps)
    next
      case False
      have "t' = t" "\<exists>m. err = Some (ValueError m)"
        using assms(7) direct worker_update_missing [OF assms(1,3) False] by (auto simp: handle_result_def)
      then show ?thesis using False absent [OF False] by (auto simp: rev_image_eqI)
    qed
  qed
qed

theorem handle_result_correct_witness:
  "let ev = \<lparr>we_event_type = ''job.result'', we_job_id = ''a'', we_status = ''retryable_failure'', we_message = [],
              we_worker = ''w'', we_attempt = ArgInt (PyInt 0)\<rparr>;
       (err, t') = handle_result True (demo_pg 5 []) 100 ev [demo_row ''a'' 1 RUNNING 3 None]
   in err = None \<and> r_state (t' ! 0) = ''dead_lettered''"
proof -
  let ?ev = "\<lparr>we_event_type = ''job.result'', we_job_id = ''a'', we_status = ''retryable_failure'', we_message = [],
              we_worker = ''w'', we_attempt = ArgInt (PyInt 0)\<rparr>"
  let ?t = "[demo_row ''a'' 1 RUNNING 3 None]"
  obtain err t' where h: "handle_result True (demo_pg 5 []) 100 ?ev ?t = (err, t')" by fastforce
  have d: "ids_distinct ?t" by (simp add: ids_distinct_def)
  have "err = None \<and> r_state (t' ! 0) = state_value (state_after (we_status ?ev) (?t ! 0))"
    using handle_result_correct [OF demo_pg_documented(1) d demo_pg_documented(2) _ _ _ h]
    by (simp add: ALLOWED_STATUSES_def in_int8_def demo_row_def)
  then show ?thesis using h by (simp add: state_after_def demo_row_def)
qed

end
