(* ===== verification/Logging_Utils.thy ===== *)
theory Logging_Utils
  imports Json
begin

text \<open>
  \<open>kernelq/logging_utils.py\<close>: one structured log line, \<open>event=...\<close> followed by the fields in
  alphabetical order. A field value is any Python value of the kinds JSON has.
\<close>

definition format_log_value :: "(py_float \<Rightarrow> string) \<Rightarrow> json \<Rightarrow> string" where
  "format_log_value frepr v =
     (case v of
        JNull \<Rightarrow> ''null''
      | JBool b \<Rightarrow> (if b then ''true'' else ''false'')
      | JStr s \<Rightarrow> (if CHR '' '' \<in> set s then dumps_str s else s)
      | JList xs \<Rightarrow> json_dumps frepr True v
      | JObj d \<Rightarrow> json_dumps frepr True v
      | _ \<Rightarrow> py_str_json frepr v)"

definition format_log_event :: "(py_float \<Rightarrow> string) \<Rightarrow> string \<Rightarrow> (string \<times> json) list \<Rightarrow> string result" where
  "format_log_event frepr event fields =
     (if is_blank event then Inl (ValueError ''event must be a non-blank string'')
      else Inr (py_join '' '' ((''event='' @ format_log_value frepr (JStr event)) #
        map (\<lambda>(key, v). key @ ''='' @ format_log_value frepr v) (sort_key fst fields))))"

text \<open>The value the code logs as \<open>attempt\<close>.\<close>

fun json_of_py_int :: "py_int \<Rightarrow> json" where
  "json_of_py_int (PyInt i) = JInt i"
| "json_of_py_int (PyBool b) = JBool b"

text \<open>The field names the module declares forbidden; nothing else in the program reads this set.\<close>

definition SENSITIVE_LOG_FIELDS :: "string set" where
  "SENSITIVE_LOG_FIELDS =
     {''authorization'', ''password'', ''token'', ''raw_payload'', ''redis_url'', ''connection_string''}"

section \<open>Line breaks\<close>

text \<open>The constants inside a value are those of the \<open>json\<close> module.\<close>

fun consts_ok :: "json \<Rightarrow> bool" where
  "consts_ok (JConst c) = (c \<in> {''NaN'', ''Infinity'', ''-Infinity''})"
| "consts_ok (JList xs) = (\<forall>x \<in> set xs. consts_ok x)"
| "consts_ok (JObj d) = (\<forall>(k, v) \<in> set d. consts_ok v)"
| "consts_ok v = True"

abbreviation line_break :: char where
  "line_break \<equiv> CHR 0x0A"

lemma dumps_str_newline: "line_break \<notin> set (dumps_str s)"
proof -
  have d: "line_break \<noteq> hex_digit n" if "n < 16" for n
  proof
    assume "line_break = hex_digit n"
    then have "byte (hex_digit n) = byte line_break" by simp
    then show False using that by (auto simp: hex_digit_def split: if_splits)
  qed
  have "line_break \<notin> set (json_escape c)" for c
    unfolding json_escape_def Let_def by (auto simp: hex4_def d div_less_iff_less_mult split: if_splits)
  then show ?thesis by (simp add: dumps_str_def)
qed

lemma str_int_newline: "line_break \<notin> set (str_int i)"
  by (auto simp: str_int_def is_digit_def dest!: str_nat_digits split: if_splits)

lemma json_dumps_newline:
  assumes "\<And>x. line_break \<notin> set (frepr x)"
  shows "consts_ok v \<Longrightarrow> line_break \<notin> set (json_dumps frepr sk v)"
proof (induction v)
  case (JList xs)
  then show ?case by (auto dest!: join_chars)
next
  case (JObj d)
  have "line_break \<notin> set (json_dumps frepr sk v)" if "(k, v) \<in> set d" for k v
    using JObj.IH [OF that, of v] JObj.prems that by auto
  then show ?case by (auto simp: Let_def dumps_str_newline dest!: join_chars split: if_splits)
qed (use assms in \<open>auto simp: dumps_str_newline str_int_newline\<close>)

text \<open>What a value contributes.\<close>

definition breaks_line :: "json \<Rightarrow> bool" where
  "breaks_line v = (case v of JStr s \<Rightarrow> line_break \<in> set s \<and> CHR '' '' \<notin> set s | _ \<Rightarrow> False)"

lemma format_log_value_newline:
  assumes "\<And>x. line_break \<notin> set (frepr x)" "consts_ok v"
  shows "line_break \<in> set (format_log_value frepr v) \<longleftrightarrow> breaks_line v"
  using json_dumps_newline [of frepr v True] assms
  by (cases v) (auto simp: format_log_value_def breaks_line_def py_str_json_def dumps_str_newline str_int_newline)

section \<open>Properties\<close>

text \<open>
  When a structured log line is one line. With float texts and constants that contain no line
  break, \<open>format_log_event\<close> prints more than one line exactly when the event, the name of a field or
  a string value contains a line break and, for the event and a value, no space: strings with a
  space are quoted as JSON and so are lists and objects, but a string without a space is printed
  as it is.
\<close>

theorem log_line_breaks:
  assumes "format_log_event frepr event fs = Inr line" and "\<forall>x. line_break \<notin> set (frepr x)" and "\<forall>(k, v) \<in> set fs. consts_ok v"
  shows "line_break \<in> set line \<longleftrightarrow>
     breaks_line (JStr event) \<or> (\<exists>(k, v) \<in> set fs. line_break \<in> set k \<or> breaks_line v)"
proof -
  have v: "line_break \<in> set (format_log_value frepr v) \<longleftrightarrow> breaks_line v" if "consts_ok v" for v
    using format_log_value_newline [of frepr v] assms(2) that by blast
  have "line_break \<in> set line \<longleftrightarrow> line_break \<in> set (''event='' @ format_log_value frepr (JStr event)) \<or>
      (\<exists>(k, v) \<in> set fs. line_break \<in> set (k @ ''='' @ format_log_value frepr v))"
    using assms(1) by (auto simp: format_log_event_def join_chars_iff split: if_splits)
  also have "\<dots> \<longleftrightarrow> breaks_line (JStr event) \<or> (\<exists>(k, v) \<in> set fs. line_break \<in> set k \<or> breaks_line v)"
    using v [of "JStr event"] v assms(3) by fastforce
  finally show ?thesis .
qed

theorem log_line_breaks_witness:
  "format_log_event (\<lambda>_. []) ''duplicate_dispatch'' [(''job_id'', JStr (''a'' @ [line_break] @ ''event=forged''))] =
     Inr (''event=duplicate_dispatch job_id=a'' @ [line_break] @ ''event=forged'') \<and>
   line_break \<in> set (''event=duplicate_dispatch job_id=a'' @ [line_break] @ ''event=forged'')"
proof -
  have l: "format_log_event (\<lambda>_. []) ''duplicate_dispatch'' [(''job_id'', JStr (''a'' @ [line_break] @ ''event=forged''))] =
      Inr (''event=duplicate_dispatch job_id=a'' @ [line_break] @ ''event=forged'')"
    by (simp add: format_log_event_def format_log_value_def is_blank_iff py_isspace_def)
  show ?thesis using log_line_breaks [OF l] l by (simp add: breaks_line_def)
qed

text \<open>
  No field is withheld from a log line. Whatever its name, in particular one of the names that
  \<open>SENSITIVE_LOG_FIELDS\<close> forbids, a field's name and value are printed by \<open>format_log_event\<close>.
\<close>

theorem sensitive_fields_are_logged:
  assumes "format_log_event frepr event fs = Inr line" and "(name, v) \<in> set fs" and "name \<in> SENSITIVE_LOG_FIELDS"
  shows "\<exists>a b. line = a @ '' '' @ name @ ''='' @ format_log_value frepr v @ b"
proof -
  have "name @ ''='' @ format_log_value frepr v \<in> set (map (\<lambda>(key, v). key @ ''='' @ format_log_value frepr v) (sort_key fst fs))"
    using assms(2) by force
  from join_part [OF this, of "'' ''"] assms(1) show ?thesis by (auto simp: format_log_event_def split: if_splits)
qed

theorem sensitive_fields_are_logged_witness:
  "\<exists>a b. ''event=login password=hunter2 user=ann'' = a @ '' '' @ ''password'' @ ''='' @ ''hunter2'' @ b"
proof -
  have "format_log_event (\<lambda>_. []) ''login'' [(''user'', JStr ''ann''), (''password'', JStr ''hunter2'')] =
      Inr ''event=login password=hunter2 user=ann''"
    by (simp add: format_log_event_def format_log_value_def is_blank_iff py_isspace_def)
  from sensitive_fields_are_logged [OF this, of "''password''" "JStr ''hunter2''"] show ?thesis
    by (simp add: SENSITIVE_LOG_FIELDS_def format_log_value_def)
qed

end
