(* ===== verification/Result_Consumer.thy ===== *)
theory Result_Consumer
  imports Result_Handler Idempotency_Store Logging_Utils
begin

text \<open>
  \<open>ResultConsumerRunner\<close> of \<open>kernelq/result_consumer.py\<close> and the transport of
  \<open>kernelq/kafka_result_consumer.py\<close>. The runner is written over the interface of the idempotency
  store (\<open>claim\<close>, a state and a clock reading) and over a handler, a function from an event and
  the handler's state to an optional exception and the new state. The state keeps the two
  counters and what was printed.
\<close>

definition DEFAULT_DEDUPE_TTL_SECONDS :: int where
  "DEFAULT_DEDUPE_TTL_SECONDS = 86400"

record ('s, 'h) runner =
  rn_store :: 's
  rn_handler :: 'h
  rn_duplicate :: int
  rn_processed :: int
  rn_printed :: "string list"

type_synonym 'h handler = "worker_result \<Rightarrow> 'h \<Rightarrow> exc option \<times> 'h"
type_synonym ('s, 't) try_claim = "'s \<Rightarrow> 't \<Rightarrow> string \<Rightarrow> int \<Rightarrow> bool result \<times> 's"

definition runner_init :: "'s \<Rightarrow> 'h \<Rightarrow> ('s, 'h) runner" where
  "runner_init store handler =
     \<lparr>rn_store = store, rn_handler = handler, rn_duplicate = 0, rn_processed = 0, rn_printed = []\<rparr>"

definition runner_stats :: "('s, 'h) runner \<Rightarrow> int \<times> int" where
  "runner_stats rn = (rn_duplicate rn, rn_processed rn)"

text \<open>The handler is \<open>None\<close> when the runner was built without one.\<close>

definition process_message ::
    "(py_float \<Rightarrow> string) \<Rightarrow> (nat \<Rightarrow> string) \<Rightarrow> ('s, 't) try_claim \<Rightarrow> int \<Rightarrow> 'h handler option \<Rightarrow> 't \<Rightarrow> raw_data
     \<Rightarrow> ('s, 'h) runner \<Rightarrow> exc option \<times> ('s, 'h) runner" where
  "process_message frepr wide claim ttl handler now value rn =
     (case handler of
        None \<Rightarrow> (Some (ValueError ''handler must not be None''), rn)
      | Some handle \<Rightarrow>
          (case parse_worker_result_event frepr wide value of
             Inl e \<Rightarrow> (Some e, rn)
           | Inr event \<Rightarrow>
               (case worker_result_key (ArgStr (we_job_id event)) (we_attempt event) of
                  Inl e \<Rightarrow> (Some e, rn)
                | Inr dedupe_key \<Rightarrow>
                    (case claim (rn_store rn) now dedupe_key ttl of
                       (Inl e, s) \<Rightarrow> (Some e, rn\<lparr>rn_store := s\<rparr>)
                     | (Inr False, s) \<Rightarrow>
                         (case format_log_event frepr ''duplicate_worker_result''
                             [(''attempt'', (case we_attempt event of ArgInt a \<Rightarrow> json_of_py_int a | _ \<Rightarrow> JNull)),
                              (''job_id'', JStr (we_job_id event))] of
                            Inl e \<Rightarrow> (Some e, rn\<lparr>rn_store := s, rn_duplicate := rn_duplicate rn + 1\<rparr>)
                          | Inr line \<Rightarrow> (None, rn\<lparr>rn_store := s, rn_duplicate := rn_duplicate rn + 1,
                              rn_printed := rn_printed rn @ [line]\<rparr>))
                     | (Inr True, s) \<Rightarrow>
                         (case handle event (rn_handler rn) of
                            (Some e, h) \<Rightarrow> (Some e, rn\<lparr>rn_store := s, rn_handler := h\<rparr>)
                          | (None, h) \<Rightarrow> (None, rn\<lparr>rn_store := s, rn_handler := h, rn_processed := rn_processed rn + 1\<rparr>))))))"

section \<open>Transport\<close>

text \<open>A polled Kafka message: its error, its key bytes and its value.\<close>

record kafka_message =
  km_error :: "string option"
  km_key :: "string option"
  km_value :: raw_data

text \<open>
  Constructing the consumer: the client that is passed in, or a new one that is subscribed to the
  result topic. \<open>new_client\<close> is \<open>Consumer(config)\<close>, \<open>subscribe\<close> and \<open>close\<close> are methods of the client.
\<close>

definition CONSUMER_BOOTSTRAP_SERVERS :: string where
  "CONSUMER_BOOTSTRAP_SERVERS = ''localhost:9092''"

definition DEFAULT_GROUP_ID :: string where
  "DEFAULT_GROUP_ID = ''kernelq-control-plane-results''"

definition kafka_consumer_init ::
    "((string \<times> string) list \<Rightarrow> 'c result) \<Rightarrow> ('c \<Rightarrow> string list \<Rightarrow> exc option \<times> 'c) \<Rightarrow> string option \<Rightarrow> string option \<Rightarrow> 'c option
     \<Rightarrow> 'c result" where
  "kafka_consumer_init new_client subscribe bootstrap_servers group_id consumer =
     (case consumer of
        Some c \<Rightarrow> Inr c
      | None \<Rightarrow>
          bind_res (new_client
            [(''bootstrap.servers'', case bootstrap_servers of None \<Rightarrow> CONSUMER_BOOTSTRAP_SERVERS | Some s \<Rightarrow> s),
             (''group.id'', case group_id of None \<Rightarrow> DEFAULT_GROUP_ID | Some g \<Rightarrow> g),
             (''auto.offset.reset'', ''earliest'')]) (\<lambda>c.
            case subscribe c [RESULT_TOPIC] of
              (Some e, c') \<Rightarrow> Inl e
            | (None, c') \<Rightarrow> Inr c'))"

definition kafka_consumer_close :: "('c \<Rightarrow> exc option \<times> 'c) \<Rightarrow> 'c \<Rightarrow> exc option \<times> 'c" where
  "kafka_consumer_close close c = close c"

definition process_kafka_message ::
    "(nat \<Rightarrow> string) \<Rightarrow> (raw_data \<Rightarrow> 'r \<Rightarrow> exc option \<times> 'r) option \<Rightarrow> kafka_message \<Rightarrow> 'r \<Rightarrow> exc option \<times> 'r" where
  "process_kafka_message wide process message rn =
     (case process of
        None \<Rightarrow> (Some (ValueError ''runner must be set before processing messages''), rn)
      | Some proc \<Rightarrow>
          (case km_key message of
             Some raw_key \<Rightarrow>
               (case utf8_decode wide raw_key of
                  None \<Rightarrow> (Some (ValueError ''UnicodeDecodeError''), rn)
                | Some key \<Rightarrow> proc (km_value message) rn)
           | None \<Rightarrow> proc (km_value message) rn))"

definition kafka_stats :: "('s, 'h) runner option \<Rightarrow> int \<times> int" where
  "kafka_stats runner = (case runner of None \<Rightarrow> (0, 0) | Some rn \<Rightarrow> runner_stats rn)"

text \<open>\<open>poll_once\<close>, given what the broker's \<open>poll\<close> returned.\<close>

definition poll_once ::
    "(nat \<Rightarrow> string) \<Rightarrow> (raw_data \<Rightarrow> 'r \<Rightarrow> exc option \<times> 'r) option \<Rightarrow> kafka_message option \<Rightarrow> 'r \<Rightarrow> bool result \<times> 'r" where
  "poll_once wide process polled rn =
     (case polled of
        None \<Rightarrow> (Inr False, rn)
      | Some message \<Rightarrow>
          (case km_error message of
             Some err \<Rightarrow> (Inl (RuntimeError (''kafka consumer error: '' @ err)), rn)
           | None \<Rightarrow>
               (case process_kafka_message wide process message rn of
                  (Some e, rn') \<Rightarrow> (Inl e, rn')
                | (None, rn') \<Rightarrow> (Inr True, rn'))))"

section \<open>What a run of deliveries does\<close>

text \<open>
  A delivery is a message's value, the clock at its claim and the handler that is called on it
  (the handler of a later delivery may meet another database state). An exception ends the
  processing of its message, not the run.
\<close>

type_synonym ('t, 'h) delivery = "'t \<times> raw_data \<times> 'h handler"

fun run_messages ::
    "(py_float \<Rightarrow> string) \<Rightarrow> (nat \<Rightarrow> string) \<Rightarrow> ('s, 't) try_claim \<Rightarrow> int \<Rightarrow> ('t, 'h) delivery list
     \<Rightarrow> ('s, 'h) runner \<Rightarrow> exc option list \<times> ('s, 'h) runner" where
  "run_messages frepr wide claim ttl [] rn = ([], rn)"
| "run_messages frepr wide claim ttl ((now, v, handle) # ms) rn =
     (case process_message frepr wide claim ttl (Some handle) now v rn of (e, rn1) \<Rightarrow>
        (case run_messages frepr wide claim ttl ms rn1 of (es, rn2) \<Rightarrow> (e # es, rn2)))"

text \<open>
  The specification. An accepted delivery has an event and a dedupe key; of these the first ones
  are applied: those whose key no earlier applied delivery holds.
\<close>

record ('t, 'h) accepted =
  ac_now :: 't
  ac_key :: string
  ac_event :: worker_result
  ac_handle :: "'h handler"

definition accept :: "(py_float \<Rightarrow> string) \<Rightarrow> (nat \<Rightarrow> string) \<Rightarrow> ('t, 'h) delivery \<Rightarrow> ('t, 'h) accepted option" where
  "accept frepr wide d =
     (case d of (now, v, handle) \<Rightarrow>
        (case parse_worker_result_event frepr wide v of
           Inl e \<Rightarrow> None
         | Inr event \<Rightarrow>
             (case worker_result_key (ArgStr (we_job_id event)) (we_attempt event) of
                Inl e \<Rightarrow> None
              | Inr key \<Rightarrow> Some \<lparr>ac_now = now, ac_key = key, ac_event = event, ac_handle = handle\<rparr>)))"

abbreviation first_deliveries ::
    "('t :: linorder \<Rightarrow> int \<Rightarrow> 't) \<Rightarrow> int \<Rightarrow> 't claim list \<Rightarrow> ('t, 'h) accepted list \<Rightarrow> ('t, 'h) accepted list" where
  "first_deliveries deadline ttl \<equiv> first_claims deadline ttl ac_now ac_key"

fun apply_all :: "('t, 'h) accepted list \<Rightarrow> 'h \<Rightarrow> int \<times> 'h" where
  "apply_all [] h = (0, h)"
| "apply_all (d # ds) h =
     (case ac_handle d (ac_event d) h of (e, h1) \<Rightarrow>
        (case apply_all ds h1 of (n, h2) \<Rightarrow> (if e = None then n + 1 else n, h2)))"

lemma map_filter_accept_Cons:
  "List.map_filter f (x # xs) = (case f x of None \<Rightarrow> List.map_filter f xs | Some y \<Rightarrow> y # List.map_filter f xs)"
  by (simp add: List.map_filter_def split: option.splits)

lemma duplicate_line: "\<exists>line. format_log_event frepr ''duplicate_worker_result'' fs = Inr line"
  by (simp add: format_log_event_def is_blank_iff py_isspace_def)

text \<open>One message, seen from the specification.\<close>

lemma process_rejected:
  assumes "accept frepr wide (now, v, handle) = None"
  shows "\<exists>e. process_message frepr wide claim ttl (Some handle) now v rn = (Some e, rn)"
  using assms by (auto simp: accept_def process_message_def split: sum.splits)

lemma acceptE:
  assumes "accept frepr wide (now, v, handle) = Some d"
  obtains "parse_worker_result_event frepr wide v = Inr (ac_event d)"
    "worker_result_key (ArgStr (we_job_id (ac_event d))) (we_attempt (ac_event d)) = Inr (ac_key d)"
    "ac_handle d = handle" "ac_now d = now"
  using assms by (auto simp: accept_def split: sum.splits)

lemma process_granted:
  assumes "accept frepr wide (now, v, handle) = Some d" "claim (rn_store rn) now (ac_key d) ttl = (Inr True, s)"
    and "handle (ac_event d) (rn_handler rn) = (e, h)"
  shows "process_message frepr wide claim ttl (Some handle) now v rn =
     (e, rn\<lparr>rn_store := s, rn_handler := h, rn_processed := rn_processed rn + (if e = None then 1 else 0)\<rparr>)"
  by (cases e; rule acceptE [OF assms(1)]) (use assms(2,3) in \<open>simp_all add: process_message_def\<close>)

lemma process_refused:
  assumes "accept frepr wide (now, v, handle) = Some d" "claim (rn_store rn) now (ac_key d) ttl = (Inr False, s)"
  shows "\<exists>line. process_message frepr wide claim ttl (Some handle) now v rn =
     (None, rn\<lparr>rn_store := s, rn_duplicate := rn_duplicate rn + 1, rn_printed := rn_printed rn @ [line]\<rparr>)"
proof -
  let ?ev = "ac_event d"
  obtain line where l: "format_log_event frepr ''duplicate_worker_result''
     [(''attempt'', (case we_attempt ?ev of ArgInt a \<Rightarrow> json_of_py_int a | _ \<Rightarrow> JNull)), (''job_id'', JStr (we_job_id ?ev))] = Inr line"
    using duplicate_line by blast
  show ?thesis
    by (rule acceptE [OF assms(1)], rule exI [of _ line]) (simp add: process_message_def assms(2) l)
qed

text \<open>
  A handler that also keeps the events it is called on, in order: what a run of the consumer did
  is read off the calls of its handler.
\<close>

definition recording :: "'h handler \<Rightarrow> ('h \<times> worker_result list) handler" where
  "recording handle event = (\<lambda>(h, calls). case handle event h of (e, h') \<Rightarrow> (e, (h', calls @ [event])))"

text \<open>The key of an event that has one.\<close>

definition result_key :: "worker_result \<Rightarrow> string" where
  "result_key ev = (case worker_result_key (ArgStr (we_job_id ev)) (we_attempt ev) of Inr key \<Rightarrow> key | Inl e \<Rightarrow> [])"

lemma accept_result_key: "accept frepr wide dl = Some d \<Longrightarrow> ac_key d = result_key (ac_event d)"
  by (auto simp: accept_def result_key_def split: sum.splits prod.splits)

lemma accept_key_valid:
  assumes "accept frepr wide dl = Some d" "0 < ttl"
  shows "validate_claim_inputs (ac_key d) ttl = None"
  using assms stage_key_not_blank(1)
  by (auto simp: accept_def validate_claim_inputs_None split: sum.splits prod.splits)

context idempotency_store
begin

lemma run_messages_ideal:
  assumes "sorted (map fst ms)" "0 < ttl"
    and "\<And>t k. ms \<noteq> [] \<Longrightarrow> fst (hd ms) \<le> t \<Longrightarrow> live (rn_store rn) t k = held deadline granted t k"
    and "run_messages frepr wide claim ttl ms rn = (es, rn')"
  shows "let ds = List.map_filter (accept frepr wide) ms; first = first_deliveries deadline ttl granted ds
    in rn_handler rn' = snd (apply_all first (rn_handler rn)) \<and>
       rn_processed rn' = rn_processed rn + fst (apply_all first (rn_handler rn)) \<and>
       rn_duplicate rn' = rn_duplicate rn + int (length ds) - int (length first)"
  using assms
proof (induction ms arbitrary: rn granted es)
  case Nil
  then show ?case by (simp add: List.map_filter_def)
next
  case (Cons m ms)
  obtain now v handle where m: "m = (now, v, handle)" by (metis prod_cases3)
  obtain e rn1 where r: "process_message frepr wide claim ttl (Some handle) now v rn = (e, rn1)" by fastforce
  obtain es1 where r1: "run_messages frepr wide claim ttl ms rn1 = (es1, rn')"
    using Cons.prems(4) r m by (auto split: prod.splits)
  have le: "now \<le> t" if "ms \<noteq> []" "fst (hd ms) \<le> t" for t using Cons.prems(1) that by (cases ms) (auto simp: m)
  have live: "live (rn_store rn) t k = held deadline granted t k" if "now \<le> t" for t k
    using Cons.prems(3) that m by simp
  have srt: "sorted (map fst ms)" using Cons.prems(1) by simp
  show ?case
  proof (cases "accept frepr wide m")
    case None
    then have "rn1 = rn" using process_rejected [of frepr wide now v handle claim ttl rn] r m by auto
    then show ?thesis
      using Cons.IH [OF srt Cons.prems(2) _ r1, of granted] live le None by (simp add: map_filter_accept_Cons Let_def)
  next
    case (Some d)
    have now: "ac_now d = now" using Some m by (auto simp: accept_def split: sum.splits)
    have valid: "validate_claim_inputs (ac_key d) ttl = None" by (rule accept_key_valid [OF Some Cons.prems(2)])
    obtain e2 h where h: "handle (ac_event d) (rn_handler rn) = (e2, h)" by fastforce
    have hd: "ac_handle d = handle" by (rule acceptE [OF Some [unfolded m]])
    obtain s where c: "claim (rn_store rn) now (ac_key d) ttl = (Inr (\<not> held deadline granted now (ac_key d)), s)"
      using claim_valid [OF valid, of "rn_store rn" now] live [OF order_refl, of "ac_key d"] by auto
    note step = claim_step [OF c]
    show ?thesis
    proof (cases "held deadline granted now (ac_key d)")
      case True
      then obtain line where rn1: "rn1 = rn\<lparr>rn_store := s, rn_duplicate := rn_duplicate rn + 1, rn_printed := line\<rparr>"
        using process_refused [OF Some [unfolded m], of claim rn ttl s] r c by auto
      have "live s t k = held deadline granted t k" if "now \<le> t" for t k using step [OF that, of k] live [OF that, of k] True by simp
      then show ?thesis
        using Cons.IH [OF srt Cons.prems(2) _ r1, of granted] le Some now rn1 True
        by (simp add: map_filter_accept_Cons Let_def)
    next
      case False
      have rn1: "rn1 = rn\<lparr>rn_store := s, rn_handler := h, rn_processed := rn_processed rn + (if e2 = None then 1 else 0)\<rparr>"
        using process_granted [OF Some [unfolded m], of claim rn ttl s, OF _ h] r c False by simp
      have "live s t k = held deadline ((ac_key d, ttl, now) # granted) t k" if "now \<le> t" for t k
        using step [OF that, of k] live [OF that, of k] False by (auto simp: held_def)
      then show ?thesis
        using Cons.IH [OF srt Cons.prems(2) _ r1, of "(ac_key d, ttl, now) # granted"] le Some now rn1 False h hd
        by (simp add: map_filter_accept_Cons Let_def split: prod.split)
    qed
  qed
qed

end

section \<open>Properties\<close>

text \<open>
  C4: Worker results are applied once. For any messages delivered in clock order to a consumer
  with a new in-memory store, whatever bytes they hold and whether or not the handlers raise,
  the handler runs exactly on the first deliveries: those that parse and whose job and attempt
  no handled delivery of the last \<open>ttl\<close> seconds had, in order. Two handled deliveries of the
  same key are at least the time-to-live apart; \<open>processed_messages\<close> counts the handlers that
  returned, \<open>duplicate_messages\<close> the well-formed deliveries that were skipped.
\<close>

theorem consumer_applies_results_once:
  assumes "sorted (map fst ms)" and "0 < ttl"
    and "run_messages frepr wide mem_try_claim ttl ms (runner_init mem_init h) = (es, rn)"
    and "ds = List.map_filter (accept frepr wide) ms" and "first = first_deliveries float_add_int ttl [] ds"
  shows "(rn_processed rn, rn_handler rn) = apply_all first h \<and>
     runner_stats rn = (int (length ds) - int (length first), fst (apply_all first h)) \<and>
     sorted_wrt (\<lambda>d d'. ac_key d = ac_key d' \<longrightarrow> float_add_int (ac_now d) ttl \<le> ac_now d') first"
proof -
  have "live = held float_add_int []" if "live = mem_live mem_init" for live
    using that by (auto simp: held_def fun_eq_iff)
  then show ?thesis
    using mem.run_messages_ideal [OF assms(1,2) _ assms(3), of "[]"] first_claims_apart [of float_add_int ttl ac_now ac_key "[]" ds] assms(4,5)
    by (simp add: runner_init_def runner_stats_def Let_def held_def prod_eq_iff claims_apart_def)
qed

text \<open>
  C29: A result whose handler raised is not retried. If the first delivery of a result claims
  its key and the handler then raises, or returns, every later delivery of the same job and
  attempt within the time-to-live is skipped as a duplicate without an error, whatever its
  status: the runner claims the key before it calls the handler and never gives it back.
\<close>

theorem failed_result_is_not_redelivered:
  assumes "accept frepr wide (now, v, handle) = Some d" and "accept frepr wide (t, v', handle') = Some d'"
    and "ac_key d' = ac_key d" and "0 < ttl" and "\<not> mem_live (rn_store rn) now (ac_key d)"
    and "now \<le> t" and "t < float_add_int now ttl"
    and "process_message frepr wide mem_try_claim ttl (Some handle) now v rn = (e, rn1)"
  shows "e = fst (handle (ac_event d) (rn_handler rn)) \<and>
     (\<exists>line. process_message frepr wide mem_try_claim ttl (Some handle') t v' rn1 =
       (None, rn1\<lparr>rn_duplicate := rn_duplicate rn1 + 1, rn_printed := rn_printed rn1 @ [line]\<rparr>))"
proof -
  have valid: "validate_claim_inputs (ac_key d) ttl = None" by (rule accept_key_valid [OF assms(1,4)])
  obtain s where c: "mem_try_claim (rn_store rn) now (ac_key d) ttl = (Inr True, s)"
    using mem.claim_valid [OF valid, of "rn_store rn" now] assms(5) by auto
  have l: "mem_live s t (ac_key d)" using mem.claim_step [OF c assms(6), of "ac_key d"] assms(7) by simp
  obtain e2 h where h: "handle (ac_event d) (rn_handler rn) = (e2, h)" by fastforce
  have e: "e = e2" "rn_store rn1 = s"
    using process_granted [OF assms(1), of mem_try_claim rn ttl s, OF c h] assms(8) by auto
  have "mem_try_claim s t (ac_key d') ttl = (Inr False, s)"
    using l valid assms(3) by (auto simp: mem_try_claim_def mem_live_def Let_def split: option.splits)
  from process_refused [OF assms(2), of mem_try_claim rn1 ttl s] this e(2) show ?thesis using e h by auto
qed

text \<open>A message for the witnesses: the encoding of one event.\<close>

definition demo_result :: "string \<Rightarrow> worker_result" where
  "demo_result status = \<lparr>we_event_type = ''job.result'', we_job_id = ''a'', we_status = status, we_message = [],
     we_worker = ''w'', we_attempt = ArgInt (PyInt 0)\<rparr>"

lemma demo_accept:
  assumes "status \<in> ALLOWED_STATUSES"
  shows "\<exists>v. \<forall>now handle. accept (\<lambda>_. []) (\<lambda>_. []) (now, v, handle) =
    Some \<lparr>ac_now = now, ac_key = ''worker-result:a:0'', ac_event = demo_result status, ac_handle = handle\<rparr>"
proof -
  have "validate_result (demo_result status) = None"
    using assms by (simp add: validate_result_def demo_result_def WORKER_RESULT_EVENT_TYPE_def is_blank_iff py_isspace_def)
  from wire_roundtrip [OF this] obtain v where
    v: "parse_worker_result_event (\<lambda>_. []) (\<lambda>_. []) (RawStr v) = Inr (demo_result status)" by blast
  have k: "worker_result_key (ArgStr ''a'') (ArgInt (PyInt 0)) = Inr ''worker-result:a:0''"
    by (simp add: worker_result_key_def validate_job_id_def validate_attempt_def py_strip_def py_isspace_def
        str_int_def str_nat.simps digit_char_def char_of_def bit_0)
  have "accept (\<lambda>_. []) (\<lambda>_. []) (now, RawStr v, handle) =
    Some \<lparr>ac_now = now, ac_key = ''worker-result:a:0'', ac_event = demo_result status, ac_handle = handle\<rparr>" for now and handle :: "'b handler"
    unfolding accept_def using v k by (simp add: demo_result_def)
  then show ?thesis by blast
qed

theorem consumer_applies_results_once_witness:
  "\<exists>v es rn. run_messages (\<lambda>_. []) (\<lambda>_. []) mem_try_claim 10 [(0, v, \<lambda>ev n. (None, n + 1)), (5, v, \<lambda>ev n. (None, n + 1))]
     (runner_init mem_init (0 :: int)) = (es, rn) \<and> runner_stats rn = (1, 1) \<and> rn_handler rn = 1"
proof -
  let ?h = "\<lambda>ev n. (None, n + 1) :: exc option \<times> int"
  obtain v where v: "\<And>now handle. accept (\<lambda>_. []) (\<lambda>_. []) (now :: py_float, v, handle :: int handler) =
    Some \<lparr>ac_now = now, ac_key = ''worker-result:a:0'', ac_event = demo_result ''succeeded'', ac_handle = handle\<rparr>"
    using demo_accept [of "''succeeded''"] by (auto simp: ALLOWED_STATUSES_def)
  obtain es rn where r: "run_messages (\<lambda>_. []) (\<lambda>_. []) mem_try_claim 10 [(0, v, ?h), (5, v, ?h)] (runner_init mem_init 0) = (es, rn)"
    by fastforce
  have d: "float_add_int 0 10 = 10" using float_add_int_exact [of 0 10] by simp
  have "rn_handler rn = 1" "runner_stats rn = (1, 1)"
    using consumer_applies_results_once [OF _ _ r refl refl]
    by (simp_all add: map_filter_accept_Cons v List.map_filter_def held_def d)
  with r show ?thesis by blast
qed

theorem failed_result_is_not_redelivered_witness:
  "\<exists>v rn1. process_message (\<lambda>_. []) (\<lambda>_. []) mem_try_claim 10 (Some (\<lambda>ev n. (Some (RuntimeError ''database down''), n))) 0 v
     (runner_init mem_init (0 :: int)) = (Some (RuntimeError ''database down''), rn1) \<and>
     (\<exists>line. process_message (\<lambda>_. []) (\<lambda>_. []) mem_try_claim 10 (Some (\<lambda>ev n. (None, n + 1))) 5 v rn1 =
       (None, rn1\<lparr>rn_duplicate := rn_duplicate rn1 + 1, rn_printed := rn_printed rn1 @ [line]\<rparr>))"
proof -
  let ?h = "\<lambda>ev n. (Some (RuntimeError ''database down''), n) :: exc option \<times> int"
  obtain v where v: "\<And>now handle. accept (\<lambda>_. []) (\<lambda>_. []) (now :: py_float, v, handle :: int handler) =
    Some \<lparr>ac_now = now, ac_key = ''worker-result:a:0'', ac_event = demo_result ''succeeded'', ac_handle = handle\<rparr>"
    using demo_accept [of "''succeeded''"] by (auto simp: ALLOWED_STATUSES_def)
  obtain e rn1 where r: "process_message (\<lambda>_. []) (\<lambda>_. []) mem_try_claim 10 (Some ?h) 0 v (runner_init mem_init 0) = (e, rn1)"
    by fastforce
  have "float_add_int 0 10 = 10" using float_add_int_exact [of 0 10] by simp
  then show ?thesis
    using failed_result_is_not_redelivered [OF v v _ _ _ _ _ r, of 5 "\<lambda>ev n. (None, n + 1)"] r
    by (auto simp: runner_init_def)
qed

end
