(* ===== verification/Kafka_Producer.thy ===== *)
theory Kafka_Producer
  imports Json
begin

text \<open>
  \<open>kernelq/kafka_producer.py\<close>: the dispatch event and \<open>KafkaJobProducer\<close>. The Kafka client is a
  parameter, its \<open>produce\<close> and \<open>flush\<close> on a client state; either may raise.
\<close>

definition DEFAULT_BOOTSTRAP_SERVERS :: string where
  "DEFAULT_BOOTSTRAP_SERVERS = ''localhost:9092''"

definition DISPATCH_TOPIC :: string where
  "DISPATCH_TOPIC = ''kernelq.jobs.dispatch''"

record dispatch_event =
  de_event_type :: string
  de_job_id :: string
  de_tenant_id :: string
  de_priority :: int
  de_state :: string
  de_payload :: "(string \<times> json) list"

definition dispatch_to_dict :: "dispatch_event \<Rightarrow> (string \<times> json) list" where
  "dispatch_to_dict ev =
     [(''event_type'', JStr (de_event_type ev)), (''job_id'', JStr (de_job_id ev)), (''tenant_id'', JStr (de_tenant_id ev)),
      (''priority'', JInt (de_priority ev)), (''state'', JStr (de_state ev)), (''payload'', JObj (de_payload ev))]"

definition dispatch_to_json :: "(py_float \<Rightarrow> string) \<Rightarrow> dispatch_event \<Rightarrow> string" where
  "dispatch_to_json frepr ev = json_dumps frepr False (JObj (dispatch_to_dict ev))"

record produced =
  pm_topic :: string
  pm_key :: string
  pm_value :: string
  pm_headers :: "(string \<times> string) list option"

text \<open>The client is the one that is passed in, or a new one; \<open>new_client\<close> is \<open>Producer(config)\<close>.\<close>

definition producer_init :: "((string \<times> string) list \<Rightarrow> 'k result) \<Rightarrow> string option \<Rightarrow> 'k option \<Rightarrow> 'k result" where
  "producer_init new_client bootstrap_servers producer =
     (case producer of
        Some k \<Rightarrow> Inr k
      | None \<Rightarrow>
          new_client [(''bootstrap.servers'', case bootstrap_servers of None \<Rightarrow> DEFAULT_BOOTSTRAP_SERVERS | Some s \<Rightarrow> s)])"

definition publish_dispatch_event ::
    "(py_float \<Rightarrow> string) \<Rightarrow> ('k \<Rightarrow> produced \<Rightarrow> exc option \<times> 'k) \<Rightarrow> ('k \<Rightarrow> exc option \<times> 'k)
     \<Rightarrow> (string \<times> string) list option \<Rightarrow> 'k \<Rightarrow> dispatch_event \<Rightarrow> exc option \<times> 'k" where
  "publish_dispatch_event frepr produce flush headers k event =
     (let produce_kwargs = \<lparr>pm_topic = DISPATCH_TOPIC, pm_key = de_job_id event, pm_value = dispatch_to_json frepr event,
            pm_headers = (case headers of None \<Rightarrow> None | Some hs \<Rightarrow> if hs = [] then None else Some hs)\<rparr>
      in case produce k produce_kwargs of
           (Some e, k1) \<Rightarrow> (Some e, k1)
         | (None, k1) \<Rightarrow> flush k1)"

definition producer_close :: "('k \<Rightarrow> exc option \<times> 'k) \<Rightarrow> 'k \<Rightarrow> exc option \<times> 'k" where
  "producer_close flush k = flush k"

end
