(* ===== verification/Scheduler_Tick.thy ===== *)
theory Scheduler_Tick
  imports Repository_Retry Idempotency_Keys Idempotency_Store Logging_Utils Kafka_Producer
begin

text \<open>
  \<open>SchedulerTickRunner\<close> of \<open>kernelq/scheduler_tick.py\<close>. The idempotency store (\<open>claim\<close>) and the
  producer's \<open>publish_dispatch_event\<close> (\<open>publish\<close>) are arguments, as they are constructor arguments
  of the runner. The state keeps the store, the producer, the number of \<open>try_claim\<close> calls so far
  and the printed lines; \<open>clock n\<close> is the time at which call number \<open>n\<close> runs. The counters of one
  tick are a record of their own.
\<close>

definition DEFAULT_DISPATCH_DEDUPE_TTL_SECONDS :: int where
  "DEFAULT_DISPATCH_DEDUPE_TTL_SECONDS = 86400"

record tick_result =
  tr_selected_count :: int
  tr_dispatched_count :: int
  tr_dispatched_job_ids :: "string list"
  tr_skipped_count :: int
  tr_errors :: "string list"
  tr_published_count :: int
  tr_publish_errors :: "string list"
  tr_duplicate_dispatches :: int

record ('s, 'k) tick_state =
  tk_store :: 's
  tk_producer :: 'k
  tk_reads :: nat
  tk_printed :: "string list"

record tick_counts =
  tc_published :: int
  tc_duplicates :: int
  tc_publish_errors :: "string list"

type_synonym 'k publisher = "'k \<Rightarrow> dispatch_event \<Rightarrow> exc option \<times> 'k"
type_synonym ('s, 't) store_claim = "'s \<Rightarrow> 't \<Rightarrow> string \<Rightarrow> int \<Rightarrow> bool result \<times> 's"

text \<open>
  The text of an exception, its type's name and its message; \<open>ext\<close> gives that of the exceptions
  of the database driver and the Kafka client.
\<close>

definition describe_exc :: "(exc \<Rightarrow> string) \<Rightarrow> exc \<Rightarrow> string" where
  "describe_exc ext e =
     (case e of
        ValueError s \<Rightarrow> ''ValueError: '' @ s
      | RuntimeError s \<Rightarrow> ''RuntimeError: '' @ s
      | TypeError s \<Rightarrow> ''TypeError: '' @ s
      | _ \<Rightarrow> ext e)"

definition tick_init :: "int \<Rightarrow> int result" where
  "tick_init max_jobs_per_tick =
     (if max_jobs_per_tick \<le> 0 then Inl (ValueError ''max_jobs_per_tick must be a positive integer'')
      else Inr max_jobs_per_tick)"

definition event_of_job :: "job_record \<Rightarrow> dispatch_event" where
  "event_of_job job =
     \<lparr>de_event_type = ''job.dispatch'', de_job_id = jr_job_id job, de_tenant_id = jr_tenant_id job,
      de_priority = jr_priority job, de_state = jr_state job, de_payload = jr_payload job\<rparr>"

text \<open>The body of the loop over the claimed jobs.\<close>

definition publish_one ::
    "(py_float \<Rightarrow> string) \<Rightarrow> (exc \<Rightarrow> string) \<Rightarrow> ('s, 't) store_claim \<Rightarrow> int \<Rightarrow> 'k publisher \<Rightarrow> (nat \<Rightarrow> 't) \<Rightarrow> job_record
     \<Rightarrow> tick_counts \<Rightarrow> ('s, 'k) tick_state \<Rightarrow> exc option \<times> tick_counts \<times> ('s, 'k) tick_state" where
  "publish_one frepr ext claim ttl publish clock job c st =
     (case dispatch_key (ArgStr (jr_job_id job)) (ArgInt (PyInt (jr_retry_count job))) of
        Inl e \<Rightarrow> (Some e, c, st)
      | Inr dedupe_key \<Rightarrow>
          (case claim (tk_store st) (clock (tk_reads st)) dedupe_key ttl of
             (Inl e, s) \<Rightarrow> (Some e, c, st\<lparr>tk_store := s, tk_reads := Suc (tk_reads st)\<rparr>)
           | (Inr False, s) \<Rightarrow>
               (let c' = c\<lparr>tc_duplicates := tc_duplicates c + 1\<rparr>; st' = st\<lparr>tk_store := s, tk_reads := Suc (tk_reads st)\<rparr> in
                case format_log_event frepr ''duplicate_dispatch''
                    [(''attempt'', JInt (jr_retry_count job)), (''job_id'', JStr (jr_job_id job))] of
                  Inl e \<Rightarrow> (Some e, c', st')
                | Inr line \<Rightarrow> (None, c', st'\<lparr>tk_printed := tk_printed st @ [line]\<rparr>))
           | (Inr True, s) \<Rightarrow>
               (case publish (tk_producer st) (event_of_job job) of
                  (None, k) \<Rightarrow>
                    (None, c\<lparr>tc_published := tc_published c + 1\<rparr>,
                     st\<lparr>tk_store := s, tk_reads := Suc (tk_reads st), tk_producer := k\<rparr>)
                | (Some e, k) \<Rightarrow>
                    (None, c\<lparr>tc_publish_errors := tc_publish_errors c @ [''publish '' @ jr_job_id job @ '': '' @ describe_exc ext e]\<rparr>,
                     st\<lparr>tk_store := s, tk_reads := Suc (tk_reads st), tk_producer := k\<rparr>))))"

fun publish_claimed ::
    "(py_float \<Rightarrow> string) \<Rightarrow> (exc \<Rightarrow> string) \<Rightarrow> ('s, 't) store_claim \<Rightarrow> int \<Rightarrow> 'k publisher \<Rightarrow> (nat \<Rightarrow> 't) \<Rightarrow> job_record list
     \<Rightarrow> tick_counts \<Rightarrow> ('s, 'k) tick_state \<Rightarrow> exc option \<times> tick_counts \<times> ('s, 'k) tick_state" where
  "publish_claimed frepr ext claim ttl publish clock [] c st = (None, c, st)"
| "publish_claimed frepr ext claim ttl publish clock (job # jobs) c st =
     (case publish_one frepr ext claim ttl publish clock job c st of
        (Some e, c', st') \<Rightarrow> (Some e, c', st')
      | (None, c', st') \<Rightarrow> publish_claimed frepr ext claim ttl publish clock jobs c' st')"

definition no_counts :: tick_counts where
  "no_counts = \<lparr>tc_published = 0, tc_duplicates = 0, tc_publish_errors = []\<rparr>"

definition tick_result_of :: "job_record list \<Rightarrow> tick_counts \<Rightarrow> tick_result" where
  "tick_result_of claimed_jobs c =
     \<lparr>tr_selected_count = int (length claimed_jobs), tr_dispatched_count = int (length claimed_jobs),
      tr_dispatched_job_ids = map jr_job_id claimed_jobs, tr_skipped_count = 0, tr_errors = [],
      tr_published_count = tc_published c, tr_publish_errors = tc_publish_errors c,
      tr_duplicate_dispatches = tc_duplicates c\<rparr>"

definition tick_run_once ::
    "(py_float \<Rightarrow> string) \<Rightarrow> (exc \<Rightarrow> string) \<Rightarrow> ('s, 't) store_claim \<Rightarrow> int \<Rightarrow> 'k publisher option \<Rightarrow> (nat \<Rightarrow> 't) \<Rightarrow> pg \<Rightarrow> int
     \<Rightarrow> jobs_table \<times> ('s, 'k) tick_state \<Rightarrow> tick_result result \<times> jobs_table \<times> ('s, 'k) tick_state" where
  "tick_run_once frepr ext claim ttl job_producer clock p max_jobs_per_tick ts =
     (case ts of (t, st) \<Rightarrow>
      (case claim_schedulable_jobs p max_jobs_per_tick t of
         (Inl exc, t') \<Rightarrow>
           (Inr \<lparr>tr_selected_count = 0, tr_dispatched_count = 0, tr_dispatched_job_ids = [], tr_skipped_count = 0,
              tr_errors = [''claim_schedulable_jobs: '' @ describe_exc ext exc], tr_published_count = 0,
              tr_publish_errors = [], tr_duplicate_dispatches = 0\<rparr>, t', st)
       | (Inr claimed_jobs, t') \<Rightarrow>
           (case job_producer of
              None \<Rightarrow> (Inr (tick_result_of claimed_jobs no_counts), t', st)
            | Some publish \<Rightarrow>
                (case publish_claimed frepr ext claim ttl publish clock claimed_jobs no_counts st of
                   (Some e, c, st') \<Rightarrow> (Inl e, t', st')
                 | (None, c, st') \<Rightarrow> (Inr (tick_result_of claimed_jobs c), t', st')))))"

text \<open>
  A run of ticks. Between two ticks anything may happen to the table: the function that comes
  with a tick is what other processes did to it before.
\<close>

type_synonym tick = "(jobs_table \<Rightarrow> jobs_table) \<times> pg \<times> int"

fun run_ticks ::
    "(py_float \<Rightarrow> string) \<Rightarrow> (exc \<Rightarrow> string) \<Rightarrow> ('s, 't) store_claim \<Rightarrow> int \<Rightarrow> 'k publisher option \<Rightarrow> (nat \<Rightarrow> 't) \<Rightarrow> tick list
     \<Rightarrow> jobs_table \<times> ('s, 'k) tick_state \<Rightarrow> tick_result result list \<times> jobs_table \<times> ('s, 'k) tick_state" where
  "run_ticks frepr ext claim ttl job_producer clock [] ts = ([], ts)"
| "run_ticks frepr ext claim ttl job_producer clock ((others, p, limit) # ticks) (t, st) =
     (case tick_run_once frepr ext claim ttl job_producer clock p limit (others t, st) of (r, ts1) \<Rightarrow>
        (case run_ticks frepr ext claim ttl job_producer clock ticks ts1 of (rs, ts2) \<Rightarrow> (r # rs, ts2)))"

definition tick_state_init :: "'s \<Rightarrow> 'k \<Rightarrow> ('s, 'k) tick_state" where
  "tick_state_init store producer = \<lparr>tk_store = store, tk_producer = producer, tk_reads = 0, tk_printed = []\<rparr>"

section \<open>The publishing loop against the specification of the store\<close>

definition job_key :: "job_record \<Rightarrow> string" where
  "job_key job = ''dispatch:'' @ py_strip (jr_job_id job) @ '':'' @ str_int (jr_retry_count job)"

definition dispatchable :: "job_record \<Rightarrow> bool" where
  "dispatchable job \<longleftrightarrow> \<not> is_blank (jr_job_id job) \<and> 0 \<le> jr_retry_count job"

lemma dispatch_key_job:
  "dispatch_key (ArgStr (jr_job_id job)) (ArgInt (PyInt (jr_retry_count job))) = Inr k \<longleftrightarrow> dispatchable job \<and> k = job_key job"
  by (auto simp: key_simps dispatchable_def job_key_def)

lemma job_key_valid: "dispatchable job \<Longrightarrow> 0 < ttl \<Longrightarrow> validate_claim_inputs (job_key job) ttl = None"
  using dispatch_key_job [of job "job_key job"] stage_key_not_blank(2) [of "ArgStr (jr_job_id job)"]
  by (auto simp: validate_claim_inputs_None)

lemma dispatch_line: "\<exists>line. format_log_event frepr ''duplicate_dispatch'' fs = Inr line"
  by (simp add: format_log_event_def is_blank_iff py_isspace_def)

lemma publish_one_raises:
  assumes "\<not> dispatchable job"
  shows "\<exists>e. publish_one frepr ext claim ttl publish clock job c st = (Some e, c, st)"
proof (cases "dispatch_key (ArgStr (jr_job_id job)) (ArgInt (PyInt (jr_retry_count job)))")
  case (Inr k)
  then show ?thesis using assms dispatch_key_job by blast
qed (simp add: publish_one_def)

lemma publish_one_duplicate:
  assumes "dispatchable job" "claim (tk_store st) (clock (tk_reads st)) (job_key job) ttl = (Inr False, s)"
  shows "\<exists>line. publish_one frepr ext claim ttl publish clock job c st =
    (None, c\<lparr>tc_duplicates := tc_duplicates c + 1\<rparr>,
     st\<lparr>tk_store := s, tk_reads := Suc (tk_reads st), tk_printed := tk_printed st @ [line]\<rparr>)"
proof -
  have k: "dispatch_key (ArgStr (jr_job_id job)) (ArgInt (PyInt (jr_retry_count job))) = Inr (job_key job)"
    using assms(1) dispatch_key_job by blast
  obtain line where "format_log_event frepr ''duplicate_dispatch''
    [(''attempt'', JInt (jr_retry_count job)), (''job_id'', JStr (jr_job_id job))] = Inr line" using dispatch_line by blast
  with k assms(2) show ?thesis by (auto simp: publish_one_def Let_def)
qed

lemma publish_one_publishes:
  assumes "dispatchable job" "claim (tk_store st) (clock (tk_reads st)) (job_key job) ttl = (Inr True, s)"
  shows "\<exists>c'. publish_one frepr ext claim ttl publish clock job c st =
    (None, c', st\<lparr>tk_store := s, tk_reads := Suc (tk_reads st), tk_producer := snd (publish (tk_producer st) (event_of_job job))\<rparr>) \<and>
    tc_duplicates c' = tc_duplicates c \<and>
    tc_published c' + int (length (tc_publish_errors c')) = tc_published c + int (length (tc_publish_errors c)) + 1 \<and>
    (fst (publish (tk_producer st) (event_of_job job)) = None \<longrightarrow> tc_published c' = tc_published c + 1)"
proof -
  have k: "dispatch_key (ArgStr (jr_job_id job)) (ArgInt (PyInt (jr_retry_count job))) = Inr (job_key job)"
    using assms(1) dispatch_key_job by blast
  obtain e k1 where "publish (tk_producer st) (event_of_job job) = (e, k1)" by fastforce
  with k assms(2) show ?thesis by (cases e) (auto simp: publish_one_def)
qed

text \<open>The jobs of a tick, each with the number of the \<open>try_claim\<close> call made for it.\<close>

abbreviation first_dispatches where
  "first_dispatches deadline ttl clock \<equiv> first_claims deadline ttl (\<lambda>(n :: nat, job). clock n) (\<lambda>(n, job). job_key job)"

definition publish_all :: "'k publisher \<Rightarrow> (nat \<times> job_record) list \<Rightarrow> 'k \<Rightarrow> 'k" where
  "publish_all publish ds k = foldl (\<lambda>k (n, job). snd (publish k (event_of_job job))) k ds"

lemma publish_all_simps [simp]:
  "publish_all publish [] k = k"
  "publish_all publish ((n, job) # ds) k = publish_all publish ds (snd (publish k (event_of_job job)))"
  "publish_all publish (xs @ ys) k = publish_all publish ys (publish_all publish xs k)"
  by (simp_all add: publish_all_def)

text \<open>Two ledgers of published jobs, one after the other.\<close>

lemma ledger_append:
  fixes clock :: "nat \<Rightarrow> 't :: linorder"
  assumes "claims_apart deadline ttl (\<lambda>(n, job). clock n) (\<lambda>(n, job). job_key job) xs"
    and "claims_apart deadline ttl (\<lambda>(n, job). clock n) (\<lambda>(n, job). job_key job) ys"
    and "claims_free deadline (\<lambda>(n, job). clock n) (\<lambda>(n, job). job_key job)
      (map (\<lambda>(n, job). (job_key job, ttl, clock n)) xs @ granted) ys"
    and "claims_free deadline (\<lambda>(n, job). clock n) (\<lambda>(n, job). job_key job) granted xs"
  shows "claims_apart deadline ttl (\<lambda>(n, job). clock n) (\<lambda>(n, job). job_key job) (xs @ ys) \<and>
    claims_free deadline (\<lambda>(n, job). clock n) (\<lambda>(n, job). job_key job) granted (xs @ ys)"
proof
  have "map (\<lambda>(n, job). (job_key job, ttl, clock n)) xs =
      map (\<lambda>d. (case d of (n, job) \<Rightarrow> job_key job, ttl, case d of (n, job) \<Rightarrow> clock n)) xs" by (auto split: prod.splits)
  then show "claims_apart deadline ttl (\<lambda>(n, job). clock n) (\<lambda>(n, job). job_key job) (xs @ ys)"
    using claims_apart_append [OF assms(1,2), of granted] assms(3) by metis
  show "claims_free deadline (\<lambda>(n, job). clock n) (\<lambda>(n, job). job_key job) granted (xs @ ys)"
    using assms(3,4) by (auto simp: claims_free_def held_append)
qed

context idempotency_store
begin

text \<open>The store's answer to the next call, and what it holds afterwards.\<close>

lemma claim_next:
  assumes "\<And>t k. now \<le> t \<Longrightarrow> live s t k = held deadline granted t k" "validate_claim_inputs key ttl = None"
  shows "\<exists>s'. claim s now key ttl = (Inr (\<not> held deadline granted now key), s') \<and>
    (\<forall>t k. now \<le> t \<longrightarrow> live s' t k =
       held deadline (if held deadline granted now key then granted else (key, ttl, now) # granted) t k)"
proof -
  obtain s' where c: "claim s now key ttl = (Inr (\<not> held deadline granted now key), s')"
    using claim_valid [OF assms(2), of s now] assms(1) [OF order_refl, of key] by auto
  have "live s' t k = held deadline (if held deadline granted now key then granted else (key, ttl, now) # granted) t k"
    if "now \<le> t" for t k
    using claim_step [OF c that, of k] assms(1) [OF that, of k] by (auto simp: held_def)
  with c show ?thesis by blast
qed

lemma publish_claimed_ideal:
  assumes "mono clock" "0 < ttl" "\<forall>job \<in> set jobs. dispatchable job"
    and "\<And>t k. clock (tk_reads st) \<le> t \<Longrightarrow> live (tk_store st) t k = held deadline granted t k"
  shows "\<exists>c' st'. publish_claimed frepr ext claim ttl publish clock jobs c st = (None, c', st') \<and>
    (let xs = enumerate (tk_reads st) jobs; first = first_dispatches deadline ttl clock granted xs in
     tk_producer st' = publish_all publish first (tk_producer st) \<and>
     tc_duplicates c' = tc_duplicates c + int (length jobs) - int (length first) \<and>
     tc_published c' + int (length (tc_publish_errors c')) =
       tc_published c + int (length (tc_publish_errors c)) + int (length first))"
  using assms(3,4)
proof (induction jobs arbitrary: c st granted)
  case (Cons job jobs)
  let ?now = "clock (tk_reads st)" and ?g = "held deadline granted (clock (tk_reads st)) (job_key job)"
  let ?granted = "if ?g then granted else (job_key job, ttl, ?now) # granted"
  have d: "dispatchable job" "\<forall>job \<in> set jobs. dispatchable job" using Cons.prems(1) by auto
  obtain s where s: "claim (tk_store st) ?now (job_key job) ttl = (Inr (\<not> ?g), s)"
    and l: "\<And>t k. ?now \<le> t \<Longrightarrow> live s t k = held deadline ?granted t k"
    using claim_next [OF Cons.prems(2) job_key_valid [OF d(1) assms(2)]] by blast
  have l': "live s t k = held deadline ?granted t k" if "clock (Suc (tk_reads st)) \<le> t" for t k
    using l that assms(1) by (meson le_SucI monoD order_refl order_trans)
  show ?case
  proof (cases ?g)
    case True
    then have "claim (tk_store st) (clock (tk_reads st)) (job_key job) ttl = (Inr False, s)" using s by simp
    from publish_one_duplicate [where claim = claim and clock = clock, OF d(1) this] obtain line where p: "publish_one frepr ext claim ttl publish clock job c st =
      (None, c\<lparr>tc_duplicates := tc_duplicates c + 1\<rparr>, st\<lparr>tk_store := s, tk_reads := Suc (tk_reads st), tk_printed := line\<rparr>)"
      by blast
    show ?thesis
      using Cons.IH [of "st\<lparr>tk_store := s, tk_reads := Suc (tk_reads st), tk_printed := line\<rparr>" granted
          "c\<lparr>tc_duplicates := tc_duplicates c + 1\<rparr>"] d(2) l' True p
      by (simp add: Let_def add.assoc)
  next
    case False
    then have "claim (tk_store st) (clock (tk_reads st)) (job_key job) ttl = (Inr True, s)" using s by simp
    from publish_one_publishes [where claim = claim and clock = clock, OF d(1) this] obtain c1 where p: "publish_one frepr ext claim ttl publish clock job c st =
      (None, c1, st\<lparr>tk_store := s, tk_reads := Suc (tk_reads st), tk_producer := snd (publish (tk_producer st) (event_of_job job))\<rparr>)"
      "tc_duplicates c1 = tc_duplicates c"
      "tc_published c1 + int (length (tc_publish_errors c1)) = tc_published c + int (length (tc_publish_errors c)) + 1"
      by blast
    show ?thesis
      using Cons.IH [of "st\<lparr>tk_store := s, tk_reads := Suc (tk_reads st), tk_producer := snd (publish (tk_producer st) (event_of_job job))\<rparr>"
          "(job_key job, ttl, ?now) # granted" c1] d(2) l' False p
      by (simp add: Let_def) (auto simp: algebra_simps)
  qed
qed simp

text \<open>
  Without any assumption on the jobs, one round of the loop publishes at most its job, and only
  if the store did not hold its key; the store then holds it.
\<close>

lemma publish_one_ledger:
  assumes "mono clock" "0 < ttl"
    and "\<And>t k. clock (tk_reads st) \<le> t \<Longrightarrow> live (tk_store st) t k = held deadline granted t k"
    and "publish_one frepr ext claim ttl publish clock job c st = (e, c', st')"
  shows "\<exists>ds. set ds \<subseteq> {(tk_reads st, job)} \<and> length ds \<le> 1 \<and> (\<forall>d \<in> set ds. dispatchable (snd d)) \<and>
    tk_producer st' = publish_all publish ds (tk_producer st) \<and>
    claims_free deadline (\<lambda>(n, job). clock n) (\<lambda>(n, job). job_key job) granted ds \<and>
    (\<forall>t k. clock (tk_reads st') \<le> t \<longrightarrow>
       live (tk_store st') t k = held deadline (map (\<lambda>(n, job). (job_key job, ttl, clock n)) ds @ granted) t k)"
proof (cases "dispatchable job")
  case False
  then have "st' = st" using publish_one_raises [OF False] assms(4) by (metis prod.inject)
  then show ?thesis using assms(3) by (intro exI [of _ "[]"]) (simp add: claims_free_def)
next
  case True
  let ?now = "clock (tk_reads st)" and ?g = "held deadline granted (clock (tk_reads st)) (job_key job)"
  obtain s where s: "claim (tk_store st) ?now (job_key job) ttl = (Inr (\<not> ?g), s)"
    and l: "\<And>t k. ?now \<le> t \<Longrightarrow> live s t k = held deadline (if ?g then granted else (job_key job, ttl, ?now) # granted) t k"
    using claim_next [OF assms(3) job_key_valid [OF True assms(2)]] by blast
  have later: "?now \<le> t" if "clock (Suc (tk_reads st)) \<le> t" for t
    using that assms(1) by (meson le_SucI monoD order_refl order_trans)
  show ?thesis
  proof (cases ?g)
    case g: True
    then have "claim (tk_store st) (clock (tk_reads st)) (job_key job) ttl = (Inr False, s)" using s by simp
    from publish_one_duplicate [where claim = claim and clock = clock, OF True this, of frepr ext publish c] obtain line
      where "st' = st\<lparr>tk_store := s, tk_reads := Suc (tk_reads st), tk_printed := line\<rparr>" using assms(4) by auto
    then show ?thesis using l later g by (intro exI [of _ "[]"]) (simp add: claims_free_def)
  next
    case g: False
    then have "claim (tk_store st) (clock (tk_reads st)) (job_key job) ttl = (Inr True, s)" using s by simp
    from publish_one_publishes [where claim = claim and clock = clock, OF True this, of frepr ext publish c]
    have "st' = st\<lparr>tk_store := s, tk_reads := Suc (tk_reads st), tk_producer := snd (publish (tk_producer st) (event_of_job job))\<rparr>"
      using assms(4) by auto
    then show ?thesis using l later g True by (intro exI [of _ "[(tk_reads st, job)]"]) (simp add: claims_free_def)
  qed
qed

lemma publish_claimed_ledger:
  assumes "mono clock" "0 < ttl"
    and "\<And>t k. clock (tk_reads st) \<le> t \<Longrightarrow> live (tk_store st) t k = held deadline granted t k"
    and "publish_claimed frepr ext claim ttl publish clock jobs c st = (e, c', st')"
  shows "\<exists>ds. snd ` set ds \<subseteq> set jobs \<and> (\<forall>d \<in> set ds. dispatchable (snd d)) \<and>
    tk_producer st' = publish_all publish ds (tk_producer st) \<and>
    claims_free deadline (\<lambda>(n, job). clock n) (\<lambda>(n, job). job_key job) granted ds \<and>
    claims_apart deadline ttl (\<lambda>(n, job). clock n) (\<lambda>(n, job). job_key job) ds \<and>
    (\<forall>t k. clock (tk_reads st') \<le> t \<longrightarrow>
       live (tk_store st') t k = held deadline (map (\<lambda>(n, job). (job_key job, ttl, clock n)) ds @ granted) t k)"
  using assms(3,4)
proof (induction jobs arbitrary: c st granted)
  case Nil
  then show ?case by (intro exI [of _ "[]"]) (simp add: claims_free_def claims_apart_def)
next
  case (Cons job jobs)
  obtain e1 c1 st1 where o: "publish_one frepr ext claim ttl publish clock job c st = (e1, c1, st1)" by (metis prod_cases3)
  obtain ds where ds: "set ds \<subseteq> {(tk_reads st, job)}" "length ds \<le> 1" "\<forall>d \<in> set ds. dispatchable (snd d)"
    "tk_producer st1 = publish_all publish ds (tk_producer st)"
    "claims_free deadline (\<lambda>(n, job). clock n) (\<lambda>(n, job). job_key job) granted ds"
    and l: "\<And>t k. clock (tk_reads st1) \<le> t \<Longrightarrow>
       live (tk_store st1) t k = held deadline (map (\<lambda>(n, job). (job_key job, ttl, clock n)) ds @ granted) t k"
    using publish_one_ledger [OF assms(1,2) Cons.prems(1) o] by blast
  have a: "claims_apart deadline ttl (\<lambda>(n, job). clock n) (\<lambda>(n, job). job_key job) ds"
    using ds(2) by (cases ds) (auto simp: claims_apart_def)
  show ?case
  proof (cases e1)
    case (Some x)
    then have "st' = st1" using Cons.prems(2) o by simp
    then show ?thesis using ds a l by (intro exI [of _ ds]) auto
  next
    case None
    then have r: "publish_claimed frepr ext claim ttl publish clock jobs c1 st1 = (e, c', st')" using Cons.prems(2) o by simp
    obtain es where es: "snd ` set es \<subseteq> set jobs" "\<forall>d \<in> set es. dispatchable (snd d)"
      "tk_producer st' = publish_all publish es (tk_producer st1)"
      "claims_free deadline (\<lambda>(n, job). clock n) (\<lambda>(n, job). job_key job)
         (map (\<lambda>(n, job). (job_key job, ttl, clock n)) ds @ granted) es"
      "claims_apart deadline ttl (\<lambda>(n, job). clock n) (\<lambda>(n, job). job_key job) es"
      and l2: "\<And>t k. clock (tk_reads st') \<le> t \<Longrightarrow> live (tk_store st') t k =
         held deadline (map (\<lambda>(n, job). (job_key job, ttl, clock n)) es @ map (\<lambda>(n, job). (job_key job, ttl, clock n)) ds @ granted) t k"
      using Cons.IH [OF l r] by blast
    show ?thesis
      using ds es l2 ledger_append [OF a es(5) es(4) ds(5)]
      by (intro exI [of _ "ds @ es"]) (auto simp: held_append)
  qed
qed

lemma tick_ledger:
  assumes "mono clock" "0 < ttl"
    and "\<And>t k. clock (tk_reads st) \<le> t \<Longrightarrow> live (tk_store st) t k = held deadline granted t k"
    and "tick_run_once frepr ext claim ttl (Some publish) clock p limit (t, st) = (r, t', st')"
  shows "\<exists>ds. (\<forall>d \<in> set ds. dispatchable (snd d)) \<and>
    tk_producer st' = publish_all publish ds (tk_producer st) \<and>
    claims_free deadline (\<lambda>(n, job). clock n) (\<lambda>(n, job). job_key job) granted ds \<and>
    claims_apart deadline ttl (\<lambda>(n, job). clock n) (\<lambda>(n, job). job_key job) ds \<and>
    (\<forall>t k. clock (tk_reads st') \<le> t \<longrightarrow>
       live (tk_store st') t k = held deadline (map (\<lambda>(n, job). (job_key job, ttl, clock n)) ds @ granted) t k)"
proof (cases "fst (claim_schedulable_jobs p limit t)")
  case (Inl e)
  then have "st' = st" using assms(4) by (auto simp: tick_run_once_def split: prod.splits)
  then show ?thesis using assms(3) by (intro exI [of _ "[]"]) (simp add: claims_free_def claims_apart_def)
next
  case (Inr jobs)
  obtain e c st1 where pc: "publish_claimed frepr ext claim ttl publish clock jobs no_counts st = (e, c, st1)" by (metis prod_cases3)
  then have "st1 = st'" using assms(4) Inr by (cases e) (auto simp: tick_run_once_def split: prod.splits)
  with publish_claimed_ledger [OF assms(1-3) pc] show ?thesis by blast
qed

lemma run_ticks_ledger:
  assumes "mono clock" "0 < ttl"
    and "\<And>t k. clock (tk_reads st) \<le> t \<Longrightarrow> live (tk_store st) t k = held deadline granted t k"
    and "run_ticks frepr ext claim ttl (Some publish) clock ticks (t, st) = (rs, t', st')"
  shows "\<exists>ds. (\<forall>d \<in> set ds. dispatchable (snd d)) \<and>
    tk_producer st' = publish_all publish ds (tk_producer st) \<and>
    claims_free deadline (\<lambda>(n, job). clock n) (\<lambda>(n, job). job_key job) granted ds \<and>
    claims_apart deadline ttl (\<lambda>(n, job). clock n) (\<lambda>(n, job). job_key job) ds"
  using assms(3,4)
proof (induction ticks arbitrary: t st granted rs)
  case Nil
  then show ?case by (intro exI [of _ "[]"]) (simp add: claims_free_def claims_apart_def)
next
  case (Cons tick ticks)
  obtain others p limit where tick: "tick = (others, p, limit)" by (metis prod_cases3)
  obtain r t1 st1 where o: "tick_run_once frepr ext claim ttl (Some publish) clock p limit (others t, st) = (r, t1, st1)"
    by (metis prod_cases3)
  obtain rs1 where r: "run_ticks frepr ext claim ttl (Some publish) clock ticks (t1, st1) = (rs1, t', st')"
    using Cons.prems(2) o tick by (auto split: prod.splits)
  obtain ds where ds: "\<forall>d \<in> set ds. dispatchable (snd d)" "tk_producer st1 = publish_all publish ds (tk_producer st)"
    "claims_free deadline (\<lambda>(n, job). clock n) (\<lambda>(n, job). job_key job) granted ds"
    "claims_apart deadline ttl (\<lambda>(n, job). clock n) (\<lambda>(n, job). job_key job) ds"
    and l: "\<And>t k. clock (tk_reads st1) \<le> t \<Longrightarrow>
       live (tk_store st1) t k = held deadline (map (\<lambda>(n, job). (job_key job, ttl, clock n)) ds @ granted) t k"
    using tick_ledger [OF assms(1,2) Cons.prems(1) o] by blast
  obtain es where es: "\<forall>d \<in> set es. dispatchable (snd d)" "tk_producer st' = publish_all publish es (tk_producer st1)"
    "claims_free deadline (\<lambda>(n, job). clock n) (\<lambda>(n, job). job_key job)
       (map (\<lambda>(n, job). (job_key job, ttl, clock n)) ds @ granted) es"
    "claims_apart deadline ttl (\<lambda>(n, job). clock n) (\<lambda>(n, job). job_key job) es"
    using Cons.IH [OF l r] by blast
  show ?case using ds es ledger_append [OF ds(4) es(4,3) ds(3)] by (intro exI [of _ "ds @ es"]) auto
qed

end

section \<open>Properties\<close>

text \<open>
  C9: What one tick with a producer does, when the stored ids are not blank and the retry
  counts not negative. It claims as \<open>claim_schedulable_jobs\<close> does and never raises; it hands to
  the producer exactly the claimed jobs whose dispatch key no earlier grant still holds, in claim
  order; every claimed job is either published, or a duplicate, or a publish error, and the
  result counts each once.
\<close>

theorem tick_accounts_for_every_job:
  assumes "claim_schedulable_jobs p limit t = (Inr jobs, t')" and "\<forall>job \<in> set jobs. dispatchable job"
    and "mono clock" and "0 < ttl"
    and "\<forall>t k. clock (tk_reads st) \<le> t \<longrightarrow> mem_live (tk_store st) t k = held float_add_int granted t k"
    and "first = first_dispatches float_add_int ttl clock granted (enumerate (tk_reads st) jobs)"
  shows "\<exists>r st'. tick_run_once frepr ext mem_try_claim ttl (Some publish) clock p limit (t, st) = (Inr r, t', st') \<and>
     tk_producer st' = publish_all publish first (tk_producer st) \<and>
     tr_dispatched_job_ids r = map jr_job_id jobs \<and> tr_selected_count r = int (length jobs) \<and>
     tr_duplicate_dispatches r = int (length jobs) - int (length first) \<and>
     tr_published_count r + int (length (tr_publish_errors r)) + tr_duplicate_dispatches r = tr_selected_count r"
proof -
  from mem.publish_claimed_ideal [OF assms(3,4,2), of st granted frepr ext publish no_counts] assms(5,6)
  obtain c st' where "publish_claimed frepr ext mem_try_claim ttl publish clock jobs no_counts st = (None, c, st')"
    "tk_producer st' = publish_all publish first (tk_producer st)"
    "tc_duplicates c = int (length jobs) - int (length first)"
    "tc_published c + int (length (tc_publish_errors c)) = int (length first)"
    by (auto simp: Let_def no_counts_def)
  with assms(1) show ?thesis by (simp add: tick_run_once_def tick_result_of_def)
qed

text \<open>
  A dispatch is published at most once per time-to-live. Over any sequence of ticks on one
  in-memory store, whatever other processes do to the table in between, whatever the server
  chooses and whether or not publishing fails, the events handed to the producer are those of a
  list of jobs in which two entries of the same job id (up to surrounding blanks) and the same
  retry count are at least the time-to-live apart.
\<close>

theorem dispatches_published_once:
  assumes "mono clock" and "0 < ttl"
    and "run_ticks frepr ext mem_try_claim ttl (Some publish) clock ticks (t, tick_state_init mem_init k) = (rs, t', st')"
  shows "\<exists>ds. tk_producer st' = publish_all publish ds k \<and>
     (\<forall>i j. i < j \<longrightarrow> j < length ds \<longrightarrow>
        py_strip (jr_job_id (snd (ds ! i))) = py_strip (jr_job_id (snd (ds ! j))) \<longrightarrow>
        jr_retry_count (snd (ds ! i)) = jr_retry_count (snd (ds ! j)) \<longrightarrow>
        float_add_int (clock (fst (ds ! i))) ttl \<le> clock (fst (ds ! j)))"
proof -
  from mem.run_ticks_ledger [OF assms(1,2) _ assms(3), of "[]"] obtain ds where
    p: "tk_producer st' = publish_all publish ds k"
    and a: "claims_apart float_add_int ttl (\<lambda>(n, job). clock n) (\<lambda>(n, job). job_key job) ds"
    by (auto simp: tick_state_init_def held_def)
  have "float_add_int (clock (fst (ds ! i))) ttl \<le> clock (fst (ds ! j))"
    if "i < j" "j < length ds" "py_strip (jr_job_id (snd (ds ! i))) = py_strip (jr_job_id (snd (ds ! j)))"
      "jr_retry_count (snd (ds ! i)) = jr_retry_count (snd (ds ! j))" for i j
    using sorted_wrt_nth_less [OF a [unfolded claims_apart_def] that(1,2)] that(3,4)
    by (simp add: case_prod_beta job_key_def)
  with p show ?thesis by blast
qed

text \<open>A clock that ticks a second per reading, for the witnesses.\<close>

definition demo_clock :: "nat \<Rightarrow> py_float" where
  "demo_clock n = of_nat n"

text \<open>A producer for the witnesses that keeps the job ids of what it was handed.\<close>

definition demo_publish :: "string list publisher" where
  "demo_publish k ev = (None, k @ [de_job_id ev])"

lemma demo_claim:
  "claim_schedulable_jobs (demo_pg 7 []) 5 [demo_row i prio QUEUED n None] =
    (Inr [row_to_record (dispatch_update (demo_pg 7 []) (demo_row i prio QUEUED n None))],
     [dispatch_update (demo_pg 7 []) (demo_row i prio QUEUED n None)])"
  by (simp add: claim_schedulable_jobs_def select_ordered_def update_ids_def update_where_def unlocked_def demo_pg_def demo_row_def)

theorem tick_accounts_for_every_job_witness:
  "\<exists>r t' st'. tick_run_once (\<lambda>_. []) (\<lambda>_. []) mem_try_claim 10 (Some demo_publish) demo_clock (demo_pg 7 []) 5
     ([demo_row ''a'' 1 QUEUED 0 None], tick_state_init mem_init []) = (Inr r, t', st') \<and>
     tk_producer st' = [''a''] \<and> tr_selected_count r = 1 \<and> tr_duplicate_dispatches r = 0"
proof -
  let ?job = "row_to_record (dispatch_update (demo_pg 7 []) (demo_row ''a'' 1 QUEUED 0 None))"
  have d: "\<forall>job \<in> set [?job]. dispatchable job" by (simp add: dispatchable_def demo_row_def is_blank_iff py_isspace_def)
  have m: "mono demo_clock" by (simp add: mono_def demo_clock_def)
  have e: "de_job_id (event_of_job ?job) = ''a''" by (simp add: event_of_job_def demo_row_def)
  show ?thesis
    using tick_accounts_for_every_job [OF demo_claim d m, of 10 "tick_state_init mem_init []" "[]" _ "\<lambda>_. []" "\<lambda>_. []" demo_publish]
    by (fastforce simp: tick_state_init_def held_def demo_publish_def e)
qed

theorem dispatches_published_once_witness:
  "\<exists>rs t' st' ds. run_ticks (\<lambda>_. []) (\<lambda>_. []) mem_try_claim 10 (Some demo_publish) demo_clock
      [(\<lambda>t. t, demo_pg 7 [], 5), (\<lambda>t. [demo_row ''a'' 1 QUEUED 0 None], demo_pg 7 [], 5)]
      ([demo_row ''a'' 1 QUEUED 0 None], tick_state_init mem_init []) = (rs, t', st') \<and>
     tk_producer st' = publish_all demo_publish ds [] \<and>
     (\<forall>i j. i < j \<longrightarrow> j < length ds \<longrightarrow>
        py_strip (jr_job_id (snd (ds ! i))) = py_strip (jr_job_id (snd (ds ! j))) \<longrightarrow>
        jr_retry_count (snd (ds ! i)) = jr_retry_count (snd (ds ! j)) \<longrightarrow>
        float_add_int (demo_clock (fst (ds ! i))) 10 \<le> demo_clock (fst (ds ! j)))"
proof -
  have m: "mono demo_clock" by (simp add: mono_def demo_clock_def)
  let ?ticks = "[(\<lambda>t. t, demo_pg 7 [], 5), (\<lambda>t. [demo_row ''a'' 1 QUEUED 0 None], demo_pg 7 [], 5)] :: tick list"
  obtain rs t' st' where r: "run_ticks (\<lambda>_. []) (\<lambda>_. []) mem_try_claim 10 (Some demo_publish) demo_clock ?ticks
      ([demo_row ''a'' 1 QUEUED 0 None], tick_state_init mem_init []) = (rs, t', st')" by (metis prod_cases3)
  with dispatches_published_once [OF m _ r] show ?thesis by auto
qed

end
