(* ===== verification/Retry_Scanner.thy ===== *)
theory Retry_Scanner
  imports Scheduler_Tick Repository_Steps
begin

text \<open>
  \<open>RetryScanner\<close> of \<open>kernelq/retry_scanner.py\<close>: one pass that moves due \<open>retry_scheduled\<close> rows
  back to \<open>queued\<close>. The clock reading is used when no time is given.
\<close>

record scanner_result =
  sc_scanned_at :: int
  sc_requeued_count :: int
  sc_requeued_job_ids :: "string list"
  sc_errors :: "string list"

definition scanner_init :: "int \<Rightarrow> int result" where
  "scanner_init max_jobs_per_scan =
     (if max_jobs_per_scan \<le> 0 then Inl (ValueError ''max_jobs_per_scan must be a positive integer'')
      else Inr max_jobs_per_scan)"

definition scanner_run_once ::
    "(exc \<Rightarrow> string) \<Rightarrow> bool \<Rightarrow> int \<Rightarrow> pg \<Rightarrow> py_float \<Rightarrow> int option \<Rightarrow> jobs_table \<Rightarrow> scanner_result \<times> jobs_table" where
  "scanner_run_once ext has_repository max_jobs_per_scan p clock now t =
     (let scanned_at = (case now of None \<Rightarrow> py_int_of_float clock | Some n \<Rightarrow> n) in
      if \<not> has_repository then
        (\<lparr>sc_scanned_at = scanned_at, sc_requeued_count = 0, sc_requeued_job_ids = [],
          sc_errors = [''repository must not be None'']\<rparr>, t)
      else case requeue_due_retries p scanned_at max_jobs_per_scan t of
        (Inl exc, t') \<Rightarrow>
          (\<lparr>sc_scanned_at = scanned_at, sc_requeued_count = 0, sc_requeued_job_ids = [],
            sc_errors = [''requeue_due_retries: '' @ describe_exc ext exc]\<rparr>, t')
      | (Inr requeued_job_ids, t') \<Rightarrow>
          (\<lparr>sc_scanned_at = scanned_at, sc_requeued_count = int (length requeued_job_ids),
            sc_requeued_job_ids = requeued_job_ids, sc_errors = []\<rparr>, t'))"

end
