(* ===== verification/Dispatch_Pipeline.thy ===== *)
theory Dispatch_Pipeline
  imports Scheduler_Tick Retry_Scanner Result_Handler
begin

text \<open>
  How the scheduler tick, the result handler and the retry scanner work together on one table:
  the retry cycle of a job, and what becomes of a dead letter that an operator replays.
\<close>

section \<open>Selections that are large enough\<close>

lemma select_all:
  assumes "pg_documented p" "length t \<le> nat n"
  shows "set (select_ordered p P key n t) = {r \<in> set t. P r}"
proof -
  have "length (filter P (pg_scan p t)) \<le> nat n"
    unfolding scan_filter_length [OF assms(1)] using assms(2) by (rule le_trans [OF length_filter_le])
  then show ?thesis using scan_set [OF assms(1)] by (simp add: select_ordered_def)
qed

lemma claim_takes:
  assumes "pg_documented p" "ids_distinct t" "pg_fault p = None" "0 < limit" "length t \<le> nat limit"
    and "r \<in> set t" "schedulable p r"
  shows "\<exists>jobs t'. claim_schedulable_jobs p limit t = (Inr jobs, t') \<and> r_job_id r \<in> jr_job_id ` set jobs \<and>
    dispatch_update p r \<in> set t'"
proof -
  obtain jobs t' where c: "claim_schedulable_jobs p limit t = (Inr jobs, t')" using claim_eq [OF assms(3,4), of t] by blast
  have i: "r_job_id r \<in> jr_job_id ` set jobs"
    using claim_ids(1) [OF assms(1,2) c] select_all [OF assms(1,5), of "schedulable p" dispatch_order] assms(6,7)
    by (auto simp: claimed_rows_def)
  then have "dispatch_update p r \<in> set t'" using claim_ids(2) [OF assms(1,2) c] assms(6) by (auto simp: update_where_def)
  with c i show ?thesis by blast
qed

lemma requeue_takes:
  assumes "pg_documented p" "pg_fault p = None" "0 < limit" "length t \<le> nat limit"
    and "r \<in> set t" "requeueable p now r"
  shows "\<exists>ids t'. requeue_due_retries p now limit t = (Inr ids, t') \<and> requeue_update p r \<in> set t' \<and>
    map r_job_id t' = map r_job_id t"
proof -
  have "r \<in> set (due_rows p now limit t)" unfolding due_rows_def select_all [OF assms(1,4)] using assms(5,6) by simp
  then show ?thesis
    unfolding requeue_eq [OF assms(2,3)] using assms(5) by (auto simp: update_where_def)
qed

lemma handle_retryable:
  assumes "pg_documented p" "ids_distinct t" "pg_fault p = None" "0 \<le> clock" "in_int8 (\<lfloor>clock\<rfloor> + 60)"
    and "we_status ev = ''retryable_failure''" "we_job_id ev \<in> r_job_id ` set t" "handle_result True p clock ev t = (err, t')"
  shows "err = None" "t' = map (\<lambda>s. if r_job_id s = we_job_id ev then retry_update p (\<lfloor>clock\<rfloor> + 60) s else s) t"
    and "map r_job_id t' = map r_job_id t"
proof -
  have c: "py_int_of_float clock = \<lfloor>clock\<rfloor>" using assms(4) by (simp add: py_int_of_float_def)
  have "find (\<lambda>s. r_job_id s = we_job_id ev) t \<noteq> None" using assms(7) by (auto simp: find_None_iff)
  then obtain s where "find (\<lambda>s. r_job_id s = we_job_id ev) t = Some s" by blast
  then show "err = None" and t': "t' = map (\<lambda>s. if r_job_id s = we_job_id ev then retry_update p (\<lfloor>clock\<rfloor> + 60) s else s) t"
    using assms(6,8) schedule_retry_eq [OF assms(1-3), of clock 60 "we_job_id ev", unfolded c, OF assms(5)]
    by (auto simp: handle_result_def DEFAULT_RETRY_DELAY_SECONDS_def)
  show "map r_job_id t' = map r_job_id t" unfolding t' by (auto simp: retry_update_def)
qed

section \<open>The retry cycle\<close>

text \<open>
  A retryable failure leads to a new dispatch. If a worker reports \<open>retryable_failure\<close> for a
  job with budget left, a retry scan sixty seconds later with room for every row and no locked
  row puts it back in the queue, and the next tick dispatches it with its retry count one higher,
  so under a new dispatch key.
\<close>

theorem retry_cycle_redispatches:
  assumes "pg_documented p1" and "pg_documented p2" and "pg_documented p3"
    and "pg_fault p1 = None" and "pg_fault p2 = None" and "pg_fault p3 = None"
    and "ids_distinct t" and "r \<in> set t" and "r_retry_count r < r_max_retries r"
    and "we_status ev = ''retryable_failure''" and "we_job_id ev = r_job_id r"
    and "0 \<le> clock" and "in_int8 (\<lfloor>clock\<rfloor> + 60)" and "\<lfloor>clock\<rfloor> + 60 \<le> now"
    and "0 < m" and "length t \<le> nat m" and "r_job_id r \<notin> set (pg_locked p2)" and "r_job_id r \<notin> set (pg_locked p3)"
    and "handle_result True p1 clock ev t = (err, t1)"
    and "scanner_run_once ext True m p2 clock2 (Some now) t1 = (sres, t2)"
    and "tick_run_once frepr ext claim ttl job_producer clock3 p3 m (t2, st) = (tres, t3, st3)"
  shows "err = None \<and> sc_errors sres = [] \<and>
     (\<forall>res. tres = Inr res \<longrightarrow> r_job_id r \<in> set (tr_dispatched_job_ids res)) \<and>
     (\<exists>r'. r' \<in> set t3 \<and> r_job_id r' = r_job_id r \<and> r_state r' = state_value DISPATCHED \<and>
        r_retry_count r' = r_retry_count r + 1)"
proof -
  let ?r1 = "retry_update p1 (\<lfloor>clock\<rfloor> + 60) r"
  have "we_job_id ev \<in> r_job_id ` set t" using assms(8,11) by simp
  note h = handle_retryable [OF assms(1,7,4,12,13,10) this assms(19), unfolded assms(11)]
  have r1: "?r1 \<in> set t1" using h(2) assms(8) by (auto intro: rev_image_eqI)
  note i1 = h(3)
  have l1: "length t1 \<le> nat m" using map_eq_imp_length_eq [OF i1] assms(16) by simp
  have "requeueable p2 now ?r1"
    using assms(9,14,17) by (simp add: requeueable_alt retry_due_def unlocked_def retry_update_def)
  from requeue_takes [OF assms(2,5,15) l1 r1 this] obtain ids where
    q: "requeue_due_retries p2 now m t1 = (Inr ids, t2)" "requeue_update p2 ?r1 \<in> set t2" "map r_job_id t2 = map r_job_id t1"
    using assms(20) by (auto simp: scanner_run_once_def)
  then have sc: "sc_errors sres = []" using assms(20) by (auto simp: scanner_run_once_def)
  have d2: "ids_distinct t2" using assms(7) i1 q(3) by (simp add: ids_distinct_def)
  have l2: "length t2 \<le> nat m" using map_eq_imp_length_eq [OF q(3)] l1 by simp
  have "schedulable p3 (requeue_update p2 ?r1)"
    using assms(18) by (simp add: schedulable_def unlocked_def requeue_update_def retry_update_def)
  from claim_takes [OF assms(3) d2 assms(6,15) l2 q(2) this] obtain jobs where
    j: "claim_schedulable_jobs p3 m t2 = (Inr jobs, t3)" "r_job_id r \<in> jr_job_id ` set jobs"
      "dispatch_update p3 (requeue_update p2 ?r1) \<in> set t3"
    using assms(21) by (auto simp: tick_run_once_def retry_update_def split: option.splits prod.splits)
  let ?r3 = "dispatch_update p3 (requeue_update p2 ?r1)"
  have "\<exists>c. res = tick_result_of jobs c" if "tres = Inr res" for res
    using assms(21) j(1) that by (auto simp: tick_run_once_def split: option.splits prod.splits)
  moreover have "r_job_id ?r3 = r_job_id r" "r_state ?r3 = state_value DISPATCHED" "r_retry_count ?r3 = r_retry_count r + 1"
    using assms(9) by (simp_all add: requeue_update_def retry_update_def)
  ultimately show ?thesis using h(1) sc j(2,3) by (fastforce simp: tick_result_of_def)
qed

theorem retry_cycle_redispatches_witness:
  "let p = demo_pg 7 []; t = [demo_row ''a'' 1 RUNNING 0 None];
       ev = \<lparr>we_event_type = ''job.result'', we_job_id = ''a'', we_status = ''retryable_failure'', we_message = [],
              we_worker = ''w'', we_attempt = ArgInt (PyInt 0)\<rparr>;
       (err, t1) = handle_result True p 100 ev t;
       (sres, t2) = scanner_run_once (\<lambda>_. []) True 10 p 0 (Some 160) t1;
       (tres, t3, st3) = tick_run_once (\<lambda>_. []) (\<lambda>_. []) mem_try_claim 10 (Some demo_publish) demo_clock p 10
         (t2, tick_state_init mem_init [])
   in err = None \<and> (\<exists>r' \<in> set t3. r_job_id r' = ''a'' \<and> r_state r' = state_value DISPATCHED \<and> r_retry_count r' = 1)"
proof -
  let ?p = "demo_pg 7 []" and ?r = "demo_row ''a'' 1 RUNNING 0 None"
  let ?ev = "\<lparr>we_event_type = ''job.result'', we_job_id = ''a'', we_status = ''retryable_failure'', we_message = [],
              we_worker = ''w'', we_attempt = ArgInt (PyInt 0)\<rparr>"
  obtain err t1 where h: "handle_result True ?p 100 ?ev [?r] = (err, t1)" by fastforce
  obtain sres t2 where s: "scanner_run_once (\<lambda>_. []) True 10 ?p 0 (Some 160) t1 = (sres, t2)" by fastforce
  obtain tres t3 st3 where t: "tick_run_once (\<lambda>_. []) (\<lambda>_. []) mem_try_claim 10 (Some demo_publish) demo_clock ?p 10
      (t2, tick_state_init mem_init []) = (tres, t3, st3)" by (metis prod_cases3)
  have r: "r_job_id ?r = ''a''" "r_retry_count ?r = 0" "r_max_retries ?r = 3" "pg_locked ?p = []"
    by (simp_all add: demo_row_def demo_pg_def)
  have "err = None \<and> (\<exists>r'. r' \<in> set t3 \<and> r_job_id r' = ''a'' \<and> r_state r' = state_value DISPATCHED \<and> r_retry_count r' = 1)"
    using retry_cycle_redispatches [OF demo_pg_documented(1) demo_pg_documented(1) demo_pg_documented(1)
        demo_pg_documented(2) demo_pg_documented(2) demo_pg_documented(2) _ _ _ _ _ _ _ _ _ _ _ _ h s t, of ?r]
    by (simp add: r ids_distinct_def in_int8_def)
  then show ?thesis using h s t by auto
qed

section \<open>Replaying a dead letter\<close>

lemma scan_one: "pg_documented p \<Longrightarrow> pg_scan p [r] = [r]"
  by (metis mset_single_iff_right mset.simps mset_eq_length pg_documented_def)

lemma claim_single:
  assumes "pg_documented p" "pg_fault p = None" "0 < limit" "schedulable p r"
  shows "claim_schedulable_jobs p limit [r] = (Inr [row_to_record (dispatch_update p r)], [dispatch_update p r])"
proof -
  have "claimed_rows p limit [r] = [r]"
    using assms scan_one [OF assms(1), of r] by (simp add: claimed_rows_def select_ordered_def)
  then show ?thesis
    unfolding claim_eq [OF assms(2,3)] using returning_one [OF assms(1)] by (simp add: update_where_def)
qed

lemma requeue_dead_single:
  assumes "pg_fault p = None" "r_state r = state_value DEAD_LETTERED"
  shows "requeue_dead_lettered_job p (r_job_id r) [r] =
    (Inr True, [r\<lparr>r_state := state_value QUEUED, r_retry_after := None, r_updated_at := pg_now p\<rparr>])"
  using assms by (simp add: requeue_dead_lettered_job_def Let_def update_where_def del: state_value.simps)

text \<open>
  C31: A replayed dead letter is dispatched in the database and not published. A job on its last
  attempt is dispatched and published by a tick; the worker reports a retryable failure, which
  dead-letters it; an operator replays it with \<open>requeue_dead_lettered_job\<close>. The replay keeps the
  retry count, so the next tick that uses the same idempotency store within the time-to-live
  claims the row, marks it \<open>dispatched\<close>, counts a duplicate and hands nothing to the producer.
\<close>

theorem replayed_dead_letter_is_not_published:
  assumes "\<forall>p \<in> {p1, p2, p3, p4}. pg_documented p \<and> pg_fault p = None \<and> pg_locked p = []"
    and "r_state r = state_value QUEUED" and "r_max_retries r \<le> r_retry_count r" and "dispatchable (row_to_record r)"
    and "0 < limit" and "0 < ttl" and "mono clock" and "clock 1 < float_add_int (clock 0) ttl"
    and "in_int8 (py_int_of_float wall + 60)"
    and "tick_run_once frepr ext mem_try_claim ttl (Some publish) clock p1 limit ([r], tick_state_init mem_init k) = (res1, t1, st1)"
    and "schedule_retry_from_worker_result p2 wall (r_job_id r) 60 t1 = (out, t2)"
    and "requeue_dead_lettered_job p3 (r_job_id r) t2 = (ok, t3)"
    and "tick_run_once frepr ext mem_try_claim ttl (Some publish) clock p4 limit (t3, st1) = (res2, t4, st2)"
  shows "ok = Inr True \<and> map r_state t2 = [state_value DEAD_LETTERED] \<and>
     tk_producer st1 = snd (publish k (event_of_job (row_to_record (dispatch_update p1 r)))) \<and>
     map r_state t4 = [state_value DISPATCHED] \<and> tk_producer st2 = tk_producer st1 \<and>
     (\<exists>res. res2 = Inr res \<and> tr_dispatched_count res = 1 \<and> tr_published_count res = 0 \<and> tr_duplicate_dispatches res = 1)"
proof -
  let ?r1 = "dispatch_update p1 r" and ?job = "row_to_record (dispatch_update p1 r)"
  let ?r2 = "retry_update p2 (py_int_of_float wall + 60) ?r1"
  let ?r3 = "?r2\<lparr>r_state := state_value QUEUED, r_retry_after := None, r_updated_at := pg_now p3\<rparr>"
  let ?job4 = "row_to_record (dispatch_update p4 ?r3)"
  have p: "pg_documented p" "pg_fault p = None" "pg_locked p = []" if "p \<in> {p1, p2, p3, p4}" for p
    using bspec [OF assms(1) that] by auto
  have key: "job_key ?job = job_key ?job4" "dispatchable ?job" "dispatchable ?job4" "r_job_id ?r2 = r_job_id r"
    using assms(3,4) by (simp_all add: job_key_def dispatchable_def retry_update_def)
  have c1: "claim_schedulable_jobs p1 limit [r] = (Inr [?job], [?r1])"
    using claim_single [of p1 limit r] p [of p1] assms(2,5) by (simp add: schedulable_def unlocked_def)
  have valid: "validate_claim_inputs (job_key ?job) ttl = None" by (rule job_key_valid [OF key(2) assms(6)])
  obtain s where s: "mem_try_claim mem_init (clock 0) (job_key ?job) ttl = (Inr True, s)"
    using mem.claim_valid [OF valid, of mem_init "clock 0"] by auto
  have le: "clock 0 \<le> clock 1" using assms(7) by (simp add: mono_def)
  have live: "mem_live s (clock 1) (job_key ?job)" using mem.claim_step [OF s le, of "job_key ?job"] assms(8) by simp
  have f: "mem_try_claim s (clock 1) (job_key ?job4) ttl = (Inr False, s)"
    using live valid unfolding key(1) by (auto simp: mem_try_claim_def mem_live_def Let_def split: option.splits)
  have "\<exists>c. publish_one frepr ext mem_try_claim ttl publish clock ?job no_counts (tick_state_init mem_init k) =
    (None, c, \<lparr>tk_store = s, tk_producer = snd (publish k (event_of_job ?job)), tk_reads = 1, tk_printed = []\<rparr>)"
    using publish_one_publishes [where claim = mem_try_claim and clock = clock and st = "tick_state_init mem_init k", OF key(2)] s
    by (fastforce simp: tick_state_init_def)
  then have t1: "t1 = [?r1]" "tk_producer st1 = snd (publish k (event_of_job ?job))" "tk_store st1 = s" "tk_reads st1 = 1"
    using assms(10) c1 by (auto simp: tick_run_once_def)
  have t2: "t2 = [?r2]"
    using assms(11) schedule_retry_eq [of p2 "[?r1]" wall 60 "r_job_id r"] p [of p2] assms(9)
    by (simp add: t1 ids_distinct_def)
  have st2: "r_state ?r2 = state_value DEAD_LETTERED" using assms(3) by (simp add: retry_update_def)
  have t3: "ok = Inr True" "t3 = [?r3]"
    using assms(12) requeue_dead_single [OF _ st2, of p3] p [of p3] unfolding t2 key(4) by auto
  have c4: "claim_schedulable_jobs p4 limit t3 = (Inr [?job4], [dispatch_update p4 ?r3])"
    using claim_single [of p4 limit ?r3] p [of p4] assms(5) by (simp add: schedulable_def unlocked_def t3)
  have f': "mem_try_claim (tk_store st1) (clock (tk_reads st1)) (job_key ?job4) ttl = (Inr False, s)" using f t1(3,4) by simp
  obtain line where "publish_one frepr ext mem_try_claim ttl publish clock ?job4 no_counts st1 =
    (None, no_counts\<lparr>tc_duplicates := tc_duplicates no_counts + 1\<rparr>, st1\<lparr>tk_store := s, tk_reads := Suc (tk_reads st1), tk_printed := line\<rparr>)"
    using publish_one_duplicate [where claim = mem_try_claim and clock = clock and st = st1, OF key(3) f'] by blast
  then have "res2 = Inr (tick_result_of [?job4] (no_counts\<lparr>tc_duplicates := tc_duplicates no_counts + 1\<rparr>))" "t4 = [dispatch_update p4 ?r3]"
    "tk_producer st2 = tk_producer st1"
    using assms(13) c4 by (auto simp: tick_run_once_def)
  then show ?thesis using t3(1) t2 st2 t1(2) by (simp add: tick_result_of_def no_counts_def)
qed

theorem replayed_dead_letter_is_not_published_witness:
  "let p = demo_pg 7 []; r = demo_row ''a'' 1 QUEUED 3 None;
       tick = tick_run_once (\<lambda>_. []) (\<lambda>_. []) mem_try_claim 10 (Some demo_publish) demo_clock p 5;
       (res1, t1, st1) = tick ([r], tick_state_init mem_init []);
       (out, t2) = schedule_retry_from_worker_result p 100 ''a'' 60 t1;
       (ok, t3) = requeue_dead_lettered_job p ''a'' t2;
       (res2, t4, st2) = tick (t3, st1)
   in map r_state t4 = [state_value DISPATCHED] \<and> tk_producer st1 = [''a''] \<and> tk_producer st2 = [''a'']"
proof -
  let ?p = "demo_pg 7 []" and ?r = "demo_row ''a'' 1 QUEUED 3 None"
  let ?tick = "tick_run_once (\<lambda>_. []) (\<lambda>_. []) mem_try_claim 10 (Some demo_publish) demo_clock ?p 5"
  obtain res1 t1 st1 where t1: "?tick ([?r], tick_state_init mem_init []) = (res1, t1, st1)" by (metis prod_cases3)
  obtain out t2 where t2: "schedule_retry_from_worker_result ?p 100 (r_job_id ?r) 60 t1 = (out, t2)" by fastforce
  obtain ok t3 where t3: "requeue_dead_lettered_job ?p (r_job_id ?r) t2 = (ok, t3)" by fastforce
  obtain res2 t4 st2 where t4: "?tick (t3, st1) = (res2, t4, st2)" by (metis prod_cases3)
  have i: "r_job_id ?r = ''a''" by (simp add: demo_row_def)
  have h: "\<forall>p \<in> {?p, ?p, ?p, ?p}. pg_documented p \<and> pg_fault p = None \<and> pg_locked p = []"
    by (simp add: demo_pg_documented) (simp add: demo_pg_def)
  have d: "dispatchable (row_to_record ?r)" by (simp add: dispatchable_def demo_row_def is_blank_iff py_isspace_def)
  have f: "float_add_int 0 10 = 10" using float_add_int_exact [of 0 10] by simp
  have q: "r_state ?r = state_value QUEUED" "r_max_retries ?r \<le> r_retry_count ?r" by (simp_all add: demo_row_def)
  have c: "mono demo_clock" "demo_clock 1 < float_add_int (demo_clock 0) 10" by (simp_all add: mono_def demo_clock_def f)
  have w: "in_int8 (py_int_of_float 100 + 60)" by (simp add: in_int8_def py_int_of_float_def)
  show ?thesis
    using replayed_dead_letter_is_not_published [OF h q d _ _ c w t1 t2 t3 t4] t1 t2 t3 t4
    by (simp add: demo_publish_def event_of_job_def i)
qed

end
