(* ===== verification/Job_Metrics.thy ===== *)
theory Job_Metrics
  imports Job_Repository
begin

text \<open>
  \<open>kernelq/job_metrics.py\<close>: durations of completed jobs, computed with floats. A timestamp is what
  \<open>_to_epoch_seconds\<close> distinguishes: missing, a \<open>datetime\<close> (microseconds since the epoch), a number,
  or anything else. The main theorem is about the nearest-rank percentile: although its rank is
  computed in binary floating point from \<open>95.0 / 100.0\<close>, it is the exact one.
\<close>

section \<open>Floating-point products and quotients\<close>

definition float_add :: "py_float \<Rightarrow> py_float \<Rightarrow> py_float" where
  "float_add x y = fl (x + y)"

definition float_mul :: "py_float \<Rightarrow> py_float \<Rightarrow> py_float" where
  "float_mul x y = fl (x * y)"

definition float_div :: "py_float \<Rightarrow> py_float \<Rightarrow> py_float" where
  "float_div x y = fl (x / y)"

definition float_of_int :: "int \<Rightarrow> py_float" where
  "float_of_int n = fl (of_int n)"

section \<open>The code\<close>

definition COMPLETED_STATES :: "string set" where
  "COMPLETED_STATES = {''succeeded'', ''failed'', ''dead_lettered''}"

datatype timestamp = TNone | TDatetime int | TInt int | TFloat py_float | TOther

definition to_epoch_seconds :: "timestamp \<Rightarrow> py_float option" where
  "to_epoch_seconds ts =
     (case ts of
        TNone \<Rightarrow> None
      | TDatetime us \<Rightarrow> Some (fl (of_int us / 1000000))
      | TInt n \<Rightarrow> Some (float_of_int n)
      | TFloat x \<Rightarrow> Some x
      | TOther \<Rightarrow> None)"

definition percentile_nearest_rank :: "py_float list \<Rightarrow> py_float \<Rightarrow> py_float" where
  "percentile_nearest_rank sorted_values p =
     (if sorted_values = [] then 0
      else let n = int (length sorted_values);
               rank = \<lceil>float_mul (float_div p 100) (float_of_int n)\<rceil>;
               rank = max 1 (min rank n)
           in sorted_values ! nat (rank - 1))"

text \<open>What the function reads of a job.\<close>

record job_view =
  jv_state :: "string option"
  jv_created_at :: timestamp
  jv_updated_at :: timestamp
  jv_dispatched_at :: timestamp

definition view_of_record :: "job_record \<Rightarrow> job_view" where
  "view_of_record r =
     \<lparr>jv_state = Some (jr_state r), jv_created_at = TDatetime (jr_created_at r), jv_updated_at = TDatetime (jr_updated_at r),
      jv_dispatched_at = (case jr_dispatched_at r of None \<Rightarrow> TNone | Some us \<Rightarrow> TDatetime us)\<rparr>"

record duration_totals =
  dt_completed_count :: int
  dt_queue_wait_values :: "py_float list"
  dt_queue_wait_total :: py_float
  dt_queue_wait_count :: int
  dt_completion_total :: py_float
  dt_completion_count :: int

definition no_durations :: duration_totals where
  "no_durations =
     \<lparr>dt_completed_count = 0, dt_queue_wait_values = [], dt_queue_wait_total = 0, dt_queue_wait_count = 0,
      dt_completion_total = 0, dt_completion_count = 0\<rparr>"

text \<open>One round of the loop.\<close>

definition add_job :: "duration_totals \<Rightarrow> job_view \<Rightarrow> duration_totals" where
  "add_job a job =
     (case jv_state job of
        None \<Rightarrow> a
      | Some state \<Rightarrow>
          if state \<notin> COMPLETED_STATES then a
          else
            (let a = a\<lparr>dt_completed_count := dt_completed_count a + 1\<rparr>;
                 created_at = to_epoch_seconds (jv_created_at job);
                 updated_at = to_epoch_seconds (jv_updated_at job);
                 dispatched_at = to_epoch_seconds (jv_dispatched_at job);
                 a = (case (created_at, dispatched_at) of
                        (Some c, Some d) \<Rightarrow>
                          (let queue_wait = float_sub d c in
                           if queue_wait \<ge> 0
                           then a\<lparr>dt_queue_wait_values := dt_queue_wait_values a @ [queue_wait],
                                  dt_queue_wait_total := float_add (dt_queue_wait_total a) queue_wait,
                                  dt_queue_wait_count := dt_queue_wait_count a + 1\<rparr>
                           else a)
                      | _ \<Rightarrow> a)
             in case (created_at, updated_at) of
                  (Some c, Some u) \<Rightarrow>
                    a\<lparr>dt_completion_total := float_add (dt_completion_total a) (float_sub u c),
                      dt_completion_count := dt_completion_count a + 1\<rparr>
                | _ \<Rightarrow> a))"

record job_duration_metrics =
  jd_completed_jobs_count :: int
  jd_average_queue_wait_seconds :: py_float
  jd_average_completion_seconds :: py_float
  jd_p50_queue_wait_seconds :: py_float
  jd_p95_queue_wait_seconds :: py_float
  jd_p99_queue_wait_seconds :: py_float

definition compute_job_duration_metrics :: "job_view list \<Rightarrow> job_duration_metrics" where
  "compute_job_duration_metrics jobs =
     (let a = foldl add_job no_durations jobs;
          average_queue_wait =
            (if dt_queue_wait_count a \<noteq> 0 then float_div (dt_queue_wait_total a) (float_of_int (dt_queue_wait_count a)) else 0);
          average_completion =
            (if dt_completion_count a \<noteq> 0 then float_div (dt_completion_total a) (float_of_int (dt_completion_count a)) else 0);
          queue_wait_values = sort (dt_queue_wait_values a)
      in \<lparr>jd_completed_jobs_count = dt_completed_count a,
          jd_average_queue_wait_seconds = average_queue_wait,
          jd_average_completion_seconds = average_completion,
          jd_p50_queue_wait_seconds = percentile_nearest_rank queue_wait_values 50,
          jd_p95_queue_wait_seconds = percentile_nearest_rank queue_wait_values 95,
          jd_p99_queue_wait_seconds = percentile_nearest_rank queue_wait_values 99\<rparr>)"

section \<open>Rounding\<close>

lemma fl_nonneg: "0 \<le> x \<Longrightarrow> 0 \<le> fl x"
proof -
  assume x: "0 \<le> x"
  have "0 \<le> round_even (x / 2 powi (max (binary_exponent \<bar>x\<bar> - 52) (- 1074)))"
    using x by (auto simp: round_even_def Let_def)
  then show ?thesis using x by (simp add: fl_def Let_def)
qed

lemma round_even_nearest: "\<bar>of_int (round_even x) - x\<bar> \<le> \<bar>of_int k - x\<bar>" for x :: rat
proof -
  define f :: rat where "f = of_int \<lfloor>x\<rfloor>"
  have f: "f \<le> x" "x < f + 1" unfolding f_def by linarith+
  have r: "of_int (round_even x) = f \<and> x - f \<le> 1 / 2 \<or> of_int (round_even x) = f + 1 \<and> 1 / 2 \<le> x - f"
    by (auto simp: round_even_def Let_def f_def)
  have "k \<le> \<lfloor>x\<rfloor> \<or> \<lfloor>x\<rfloor> + 1 \<le> k" by linarith
  then have "of_int k \<le> f \<or> f + 1 \<le> of_int k" unfolding f_def by (metis of_int_1 of_int_add of_int_le_iff)
  with r f show ?thesis by (elim disjE conjE; simp; linarith)
qed

lemma binary_exponent_half: "1 / 2 \<le> x \<Longrightarrow> x < 1 \<Longrightarrow> binary_exponent x = - 1"
proof -
  assume x: "1 / 2 \<le> x" "x < 1"
  then have "\<lceil>1 / x\<rceil> = 2" by (intro ceiling_unique) (simp_all add: field_simps)
  then show ?thesis using x by (simp add: binary_exponent_def floorlog_def)
qed

lemma binary_exponent_bounds:
  assumes "1 / 2 \<le> x" "x < 2 ^ 52"
  shows "2 powi binary_exponent x \<le> x" "- 1 \<le> binary_exponent x" "binary_exponent x < 52"
proof -
  consider "x < 1" | "1 \<le> x" by linarith
  then have "2 powi binary_exponent x \<le> x \<and> - 1 \<le> binary_exponent x \<and> binary_exponent x < 52"
  proof cases
    case 1
    then show ?thesis using binary_exponent_half [OF assms(1)] assms(1) by (simp add: power_int_minus)
  next
    case 2
    then show ?thesis using binary_exponent_ge1 [OF 2] assms(2) binary_exponent_ge1(3) [OF 2, of 52] by force
  qed
  then show "2 powi binary_exponent x \<le> x" "- 1 \<le> binary_exponent x" "binary_exponent x < 52" by auto
qed

text \<open>A number between a half and \<open>2 ^ 52\<close> is rounded by at most one part in \<open>2 ^ 53\<close>, and never past an integer.\<close>

lemma fl_bounds:
  assumes "1 / 2 \<le> x" "x < 2 ^ 52"
  shows "\<bar>fl x - x\<bar> \<le> x / 2 ^ 53" and "\<bar>fl x - x\<bar> \<le> \<bar>of_int m - x\<bar>"
proof -
  let ?e = "binary_exponent x"
  note e = binary_exponent_bounds [OF assms]
  define k where "k = nat (52 - ?e)"
  have k: "max (?e - 52) (- 1074) = - int k" using e by (simp add: k_def)
  define u :: rat where "u = 2 powi (- int k)"
  have u: "0 < u" by (simp add: u_def)
  have uk: "u * 2 ^ k = 1" by (simp add: u_def power_int_minus)
  have f: "fl x = of_int (round_even (x / u)) * u" using assms(1) k by (simp add: fl_def u_def Let_def)
  then have d: "\<bar>fl x - x\<bar> = \<bar>of_int (round_even (x / u)) - x / u\<bar> * u"
    using u by (simp add: field_simps flip: abs_mult_pos')
  have "u = 2 powi (?e - 52)" using k e by (simp add: u_def k_def)
  also have "\<dots> = 2 powi ?e / 2 ^ 52" by (simp add: power_int_diff)
  finally have "u \<le> x / 2 ^ 52" using e(1) by (simp add: divide_right_mono)
  moreover have "\<bar>of_int (round_even (x / u)) - x / u\<bar> * u \<le> 1 / 2 * u"
    using round_even_error [of "x / u"] u by (intro mult_right_mono) auto
  ultimately show "\<bar>fl x - x\<bar> \<le> x / 2 ^ 53" using d by simp
  have "\<bar>of_int (round_even (x / u)) - x / u\<bar> * u \<le> \<bar>of_int (m * 2 ^ k) - x / u\<bar> * u"
    using u by (intro mult_right_mono round_even_nearest) auto
  also have "\<dots> = \<bar>(of_int (m * 2 ^ k) - x / u) * u\<bar>" using u by (simp add: abs_mult)
  also have "(of_int (m * 2 ^ k) - x / u) * u = of_int m - x" using u uk by (simp add: field_simps)
  finally show "\<bar>fl x - x\<bar> \<le> \<bar>of_int m - x\<bar>" using d by simp
qed

section \<open>The rank\<close>

text \<open>The three quantiles of the code, as floats: exact, or a little below.\<close>

lemma fl_quantiles: "fl (1 / 2) = 1 / 2" "fl (19 / 20) \<le> 19 / 20" "fl (99 / 100) \<le> 99 / 100"
proof -
  have f: "\<lfloor>42784196460019712 / 5 :: rat\<rfloor> = 8556839292003942" "\<lfloor>222928181554839552 / 25 :: rat\<rfloor> = 8917127262193582"
    by (rule floor_unique; simp)+
  show "fl (1 / 2) = 1 / 2" "fl (19 / 20) \<le> 19 / 20" "fl (99 / 100) \<le> 99 / 100"
    by (simp_all add: fl_def binary_exponent_half power_int_minus round_even_def Let_def f)
qed

definition quantile :: "int \<Rightarrow> rat \<Rightarrow> bool" where
  "quantile p q \<longleftrightarrow> p \<in> {50, 95, 99} \<and> q = of_int p / 100"

lemma quantile_cases:
  assumes "quantile p q"
  obtains "p = 50" "q = 1 / 2" | "p = 95" "q = 19 / 20" | "p = 99" "q = 99 / 100"
  using assms unfolding quantile_def by fastforce

lemma quantile_props:
  assumes "quantile p q"
  shows "float_div (of_int p) 100 = fl q" "1 / 2 \<le> q" "q < 1" "fl q \<le> q" "q - fl q \<le> 1 / 2 ^ 53" "1 / 2 \<le> fl q"
    and "100 * q = of_int p"
proof -
  show "float_div (of_int p) 100 = fl q" "100 * q = of_int p"
    using conjunct2 [OF assms [unfolded quantile_def]] by (hypsubst, simp add: float_div_def)+
  show q: "1 / 2 \<le> q" "q < 1" "fl q \<le> q" using fl_quantiles by (cases rule: quantile_cases [OF assms]; hypsubst; simp)+
  have "\<bar>fl q - q\<bar> \<le> q / 2 ^ 53" using q(1,2) by (intro fl_bounds(1)) simp_all
  moreover have "q / 2 ^ 53 \<le> 1 / 2 ^ 53" using q(2) by (intro divide_right_mono) simp_all
  ultimately show e: "q - fl q \<le> 1 / 2 ^ 53" by linarith
  show "1 / 2 \<le> fl q" using e fl_quantiles(1) by (cases rule: quantile_cases [OF assms]; hypsubst; simp)
qed

lemma rank_exact:
  assumes "quantile p q" "1 \<le> n" "n \<le> 2 ^ 40"
  shows "\<lceil>float_mul (float_div (of_int p) 100) (float_of_int n)\<rceil> = \<lceil>q * of_int n\<rceil>"
proof -
  note q = quantile_props [OF assms(1)]
  define N :: rat where "N = of_int n"
  have "rat_of_int 1 \<le> of_int n" "rat_of_int n \<le> of_int (2 ^ 40)" using assms(2,3) by (simp_all only: of_int_le_iff)
  then have N: "1 \<le> N" "N \<le> 2 ^ 40" by (simp_all add: N_def)
  have fn: "float_of_int n = N" using assms(2,3) by (simp add: float_of_int_def N_def fl_int)
  define x where "x = fl q * N"
  have x1: "1 / 2 \<le> x" using mult_mono [of "1 / 2" "fl q" 1 N] q(6) N(1) by (simp add: x_def)
  have xq: "x \<le> q * N" unfolding x_def using q(4) N(1) by (intro mult_right_mono) auto
  have qN: "q * N \<le> N" using q(3) N(1) by (simp add: mult_left_le_one_le)
  have x2: "x < 2 ^ 52" using xq qN N(2) by simp
  have low: "q * N - N / 2 ^ 53 \<le> x"
    using mult_right_mono [OF q(5), of N] N(1) by (simp add: x_def algebra_simps)
  define m where "m = \<lceil>q * N\<rceil>"
  have m: "q * N \<le> of_int m" "of_int m - 1 < q * N" unfolding m_def by linarith+
  have up: "fl x \<le> of_int m" using fl_bounds(2) [OF x1 x2, of m] xq m(1) by linarith
  have gap: "of_int m - 1 + 1 / 100 \<le> q * N"
  proof -
    have "100 * (q * N) = of_int (p * n)" using q(7) by (simp add: N_def algebra_simps)
    moreover have "100 * (of_int m - 1) < 100 * (q * N)" using m(2) by simp
    ultimately have "rat_of_int (100 * (m - 1)) < of_int (p * n)" by simp
    then have "100 * (m - 1) + 1 \<le> p * n" by (simp only: of_int_less_iff)
    then have "rat_of_int (100 * (m - 1) + 1) \<le> of_int (p * n)" by (simp only: of_int_le_iff)
    then show ?thesis using \<open>100 * (q * N) = of_int (p * n)\<close> by simp
  qed
  have "x / 2 ^ 53 \<le> N / 2 ^ 53" using xq qN by (intro divide_right_mono) auto
  moreover have "N / 2 ^ 52 = N / 2 ^ 53 + N / 2 ^ 53" by simp
  ultimately have "q * N - N / 2 ^ 52 \<le> fl x" using fl_bounds(1) [OF x1 x2] low by linarith
  moreover have "N / 2 ^ 52 < 1 / 100" using N(2) by simp
  ultimately have "of_int m - 1 < fl x" using gap by linarith
  then have "\<lceil>fl x\<rceil> = m" using up by (intro ceiling_unique) auto
  then show ?thesis unfolding float_mul_def q(1) fn m_def [symmetric] N_def [symmetric] x_def [symmetric] .
qed

lemma percentile_index:
  assumes "quantile p q" "xs \<noteq> []" "length xs \<le> 2 ^ 40"
  shows "percentile_nearest_rank xs (of_int p) = xs ! nat (\<lceil>q * of_nat (length xs)\<rceil> - 1)"
    and "1 \<le> \<lceil>q * of_nat (length xs)\<rceil>" and "\<lceil>q * of_nat (length xs)\<rceil> \<le> int (length xs)"
proof -
  let ?n = "int (length xs)" and ?k = "\<lceil>q * of_nat (length xs)\<rceil>"
  note q = quantile_props [OF assms(1)]
  have n: "1 \<le> ?n" using assms(2) by (cases xs) auto
  have "int (length xs) \<le> int (2 ^ 40)" using assms(3) by (simp only: of_nat_le_iff)
  then have n2: "?n \<le> 2 ^ 40" by simp
  have r: "\<lceil>float_mul (float_div (of_int p) 100) (float_of_int ?n)\<rceil> = ?k" using rank_exact [OF assms(1) n n2] by simp
  have "0 < q" "0 < rat_of_nat (length xs)" using q(2) assms(2) by simp_all
  then have "0 < q * of_nat (length xs)" by (rule mult_pos_pos)
  then show k1: "1 \<le> ?k" by (simp add: Suc_leI le_ceiling_iff)
  have "q * of_nat (length xs) \<le> 1 * of_nat (length xs)" using q(3) by (intro mult_right_mono) simp_all
  then show k2: "?k \<le> ?n" by (simp add: ceiling_le_iff)
  show "percentile_nearest_rank xs (of_int p) = xs ! nat (?k - 1)"
    unfolding percentile_nearest_rank_def Let_def r using assms(2) k1 k2 by (simp add: max_def min_def)
qed

section \<open>Properties\<close>

text \<open>
  C38: The percentiles are the nearest-rank percentiles. For a sorted list of up to \<open>2 ^ 40\<close>
  values and \<open>p\<close> one of 50, 95 and 99, the answer is a value of the list such that at least \<open>p\<close>
  percent of the values are not greater, and it is the smallest such value: for every smaller
  bound fewer than \<open>p\<close> percent are. The floating-point rank loses nothing.
\<close>

theorem percentile_is_nearest_rank:
  assumes "sorted xs" and "xs \<noteq> []" and "length xs \<le> 2 ^ 40" and "p \<in> {50, 95, 99}"
    and "r = percentile_nearest_rank xs (of_int p)"
  shows "r \<in> set xs \<and> p * int (length xs) \<le> 100 * int (length (filter (\<lambda>x. x \<le> r) xs)) \<and>
     (\<forall>v < r. 100 * int (length (filter (\<lambda>x. x \<le> v) xs)) < p * int (length xs))"
proof -
  obtain q where q: "quantile p q" using assms(4) unfolding quantile_def by blast
  define k where "k = nat \<lceil>q * of_nat (length xs)\<rceil>"
  note i = percentile_index [OF q assms(2,3)]
  have k: "1 \<le> k" "k \<le> length xs" "r = xs ! (k - 1)" using i assms(5) by (simp_all add: k_def nat_diff_distrib le_nat_iff del: one_le_ceiling)
  have pq: "rat_of_int (p * int (length xs)) = 100 * (q * of_nat (length xs))"
    unfolding mult.assoc [symmetric] quantile_props(7) [OF q] by simp
  have "\<forall>x \<in> set (take k xs). x \<le> r"
  proof
    fix x assume "x \<in> set (take k xs)"
    then obtain j where "j < k" "x = xs ! j" using k(2) by (auto simp: in_set_conv_nth)
    then show "x \<le> r" using k sorted_nth_mono [OF assms(1), of j "k - 1"] by simp
  qed
  then have "k \<le> length (filter (\<lambda>x. x \<le> r) (take k xs))" using k(2) by (simp add: filter_True)
  also have "\<dots> \<le> length (filter (\<lambda>x. x \<le> r) xs)"
    by (metis append_take_drop_id filter_append le_add1 length_append)
  finally have "int k \<le> int (length (filter (\<lambda>x. x \<le> r) xs))" by simp
  moreover have "q * of_nat (length xs) \<le> of_int (int k)" using i(2) by (simp add: k_def)
  ultimately have "q * of_nat (length xs) \<le> of_int (int (length (filter (\<lambda>x. x \<le> r) xs)))"
    by (meson of_int_le_iff order_trans)
  then have "rat_of_int (p * int (length xs)) \<le> of_int (100 * int (length (filter (\<lambda>x. x \<le> r) xs)))" unfolding pq by simp
  then have a: "p * int (length xs) \<le> 100 * int (length (filter (\<lambda>x. x \<le> r) xs))" by (simp only: of_int_le_iff)
  have b: "100 * int (length (filter (\<lambda>x. x \<le> v) xs)) < p * int (length xs)" if v: "v < r" for v
  proof -
    have "\<not> x \<le> v" if "x \<in> set (drop (k - 1) xs)" for x
    proof -
      obtain j where "j < length xs - (k - 1)" "x = xs ! (k - 1 + j)" using \<open>x \<in> set (drop (k - 1) xs)\<close> by (auto simp: in_set_conv_nth)
      then show ?thesis using v k sorted_nth_mono [OF assms(1), of "k - 1" "k - 1 + j"] by force
    qed
    then have "filter (\<lambda>x. x \<le> v) (drop (k - 1) xs) = []" by (simp add: filter_empty_conv)
    then have "length (filter (\<lambda>x. x \<le> v) xs) = length (filter (\<lambda>x. x \<le> v) (take (k - 1) xs))"
      by (metis append_Nil2 append_take_drop_id filter_append)
    also have "\<dots> \<le> k - 1" by (metis length_filter_le length_take min.cobounded2 order_trans)
    finally have "int (length (filter (\<lambda>x. x \<le> v) xs)) \<le> int k - 1" using k(1) by linarith
    moreover have "of_int (int k - 1) < q * of_nat (length xs)" using i(2) by (simp add: k_def) linarith
    ultimately have "of_int (int (length (filter (\<lambda>x. x \<le> v) xs))) < q * of_nat (length xs)"
      by (meson of_int_le_iff order_le_less_trans)
    then have "rat_of_int (100 * int (length (filter (\<lambda>x. x \<le> v) xs))) < of_int (p * int (length xs))" unfolding pq by simp
    then show ?thesis by (simp only: of_int_less_iff)
  qed
  have "r \<in> set xs" using k by simp
  with a b show ?thesis by blast
qed

theorem percentile_is_nearest_rank_witness: "percentile_nearest_rank [1, 2, 3] 50 = 2"
proof -
  let ?r = "percentile_nearest_rank [1, 2, 3] 50"
  have "?r \<in> set [1, 2, 3] \<and> 50 * int (length [1, 2, 3 :: rat]) \<le> 100 * int (length (filter (\<lambda>x. x \<le> ?r) [1, 2, 3])) \<and>
     (\<forall>v < ?r. 100 * int (length (filter (\<lambda>x. x \<le> v) [1, 2, 3])) < 50 * int (length [1, 2, 3 :: rat]))"
    by (rule percentile_is_nearest_rank) simp_all
  moreover from this have "2 < ?r \<Longrightarrow> 100 * int (length (filter (\<lambda>x. x \<le> 2) [1, 2, 3 :: rat])) < 150" by fastforce
  ultimately show ?thesis by auto
qed

text \<open>The waits that enter the statistics.\<close>

definition queue_wait_of :: "job_view \<Rightarrow> py_float option" where
  "queue_wait_of job =
     (case (to_epoch_seconds (jv_created_at job), to_epoch_seconds (jv_dispatched_at job)) of
        (Some c, Some d) \<Rightarrow> if 0 \<le> float_sub d c then Some (float_sub d c) else None
      | _ \<Rightarrow> None)"

definition job_completed :: "job_view \<Rightarrow> bool" where
  "job_completed job \<longleftrightarrow> (\<exists>s \<in> COMPLETED_STATES. jv_state job = Some s)"

lemma add_job_facts:
  "dt_completed_count (add_job a job) = dt_completed_count a + (if job_completed job then 1 else 0)"
  "dt_queue_wait_values (add_job a job) = dt_queue_wait_values a @
     (if job_completed job then (case queue_wait_of job of None \<Rightarrow> [] | Some w \<Rightarrow> [w]) else [])"
  "0 \<le> dt_queue_wait_total a \<Longrightarrow> 0 \<le> dt_queue_wait_total (add_job a job)"
  "0 \<le> dt_queue_wait_count a \<Longrightarrow> 0 \<le> dt_queue_wait_count (add_job a job)"
  by (auto simp: add_job_def job_completed_def queue_wait_of_def float_add_def fl_nonneg Let_def split: option.splits)

lemma add_jobs_facts:
  "dt_completed_count (foldl add_job a jobs) = dt_completed_count a + int (length (filter job_completed jobs))"
  "dt_queue_wait_values (foldl add_job a jobs) = dt_queue_wait_values a @ List.map_filter queue_wait_of (filter job_completed jobs)"
  "0 \<le> dt_queue_wait_total a \<Longrightarrow> 0 \<le> dt_queue_wait_total (foldl add_job a jobs)"
  "0 \<le> dt_queue_wait_count a \<Longrightarrow> 0 \<le> dt_queue_wait_count (foldl add_job a jobs)"
  by (induction jobs arbitrary: a) (simp_all add: add_job_facts List.map_filter_def split: option.split)

lemma queue_wait_nonneg: "queue_wait_of job = Some w \<Longrightarrow> 0 \<le> w"
  by (auto simp: queue_wait_of_def split: option.splits if_splits)

lemma percentile_mono:
  assumes "sorted xs" "length xs \<le> 2 ^ 40" "quantile p q" "quantile p' q'" "q \<le> q'" "\<forall>x \<in> set xs. 0 \<le> x"
  shows "0 \<le> percentile_nearest_rank xs (of_int p) \<and>
    percentile_nearest_rank xs (of_int p) \<le> percentile_nearest_rank xs (of_int p')"
proof (cases "xs = []")
  case False
  note i = percentile_index [OF assms(3) False assms(2)] and i' = percentile_index [OF assms(4) False assms(2)]
  have "\<lceil>q * of_nat (length xs)\<rceil> \<le> \<lceil>q' * of_nat (length xs)\<rceil>"
    using assms(5) by (intro ceiling_mono mult_right_mono) simp_all
  then have "nat (\<lceil>q * of_nat (length xs)\<rceil> - 1) \<le> nat (\<lceil>q' * of_nat (length xs)\<rceil> - 1)" by linarith
  moreover have "nat (\<lceil>q * of_nat (length xs)\<rceil> - 1) < length xs" "nat (\<lceil>q' * of_nat (length xs)\<rceil> - 1) < length xs"
    using i(2,3) i'(2,3) by linarith+
  ultimately show ?thesis using assms(6) sorted_nth_mono [OF assms(1)] unfolding i(1) i'(1) by simp
qed (simp add: percentile_nearest_rank_def)

lemma duration_metrics_order:
  assumes "length jobs \<le> 2 ^ 40"
  shows "0 \<le> jd_average_queue_wait_seconds (compute_job_duration_metrics jobs)"
    and "0 \<le> jd_p50_queue_wait_seconds (compute_job_duration_metrics jobs)"
    and "jd_p50_queue_wait_seconds (compute_job_duration_metrics jobs) \<le> jd_p95_queue_wait_seconds (compute_job_duration_metrics jobs)"
    and "jd_p95_queue_wait_seconds (compute_job_duration_metrics jobs) \<le> jd_p99_queue_wait_seconds (compute_job_duration_metrics jobs)"
proof -
  let ?a = "foldl add_job no_durations jobs"
  let ?xs = "sort (dt_queue_wait_values ?a)"
  have v: "dt_queue_wait_values ?a = List.map_filter queue_wait_of (filter job_completed jobs)"
    by (simp add: add_jobs_facts no_durations_def)
  have "length ?xs \<le> length jobs"
    unfolding v length_sort List.map_filter_def by (simp add: le_trans [OF length_filter_le length_filter_le])
  then have len: "length ?xs \<le> 2 ^ 40" using assms by (rule le_trans)
  have nn: "\<forall>x \<in> set ?xs. 0 \<le> x" unfolding v using queue_wait_nonneg by (auto simp: List.map_filter_def)
  have q: "quantile 50 (1 / 2)" "quantile 95 (19 / 20)" "quantile 99 (99 / 100)" by (simp_all add: quantile_def)
  note m = percentile_mono [OF sorted_sort len q(1,2) _ nn] percentile_mono [OF sorted_sort len q(2,3) _ nn]
  show "0 \<le> jd_p50_queue_wait_seconds (compute_job_duration_metrics jobs)"
    "jd_p50_queue_wait_seconds (compute_job_duration_metrics jobs) \<le> jd_p95_queue_wait_seconds (compute_job_duration_metrics jobs)"
    "jd_p95_queue_wait_seconds (compute_job_duration_metrics jobs) \<le> jd_p99_queue_wait_seconds (compute_job_duration_metrics jobs)"
    using m by (simp_all add: compute_job_duration_metrics_def Let_def)
  have "0 \<le> dt_queue_wait_total ?a" "0 \<le> dt_queue_wait_count ?a" using add_jobs_facts(3,4) by (simp_all add: no_durations_def)
  then have "0 \<le> float_div (dt_queue_wait_total ?a) (float_of_int (dt_queue_wait_count ?a))"
    unfolding float_div_def float_of_int_def by (intro fl_nonneg divide_nonneg_nonneg) simp_all
  then show "0 \<le> jd_average_queue_wait_seconds (compute_job_duration_metrics jobs)"
    by (simp add: compute_job_duration_metrics_def Let_def)
qed

end
