(* ===== verification/Prometheus_Metrics.thy ===== *)
theory Prometheus_Metrics
  imports Job_Metrics
begin

text \<open>
  \<open>kernelq/prometheus_metrics.py\<close>: the text exposition of job counts, queue-wait quantiles and
  result-consumer counters. A sample is a Python value, because the code tests its type; one that
  is neither a number nor a \<open>bool\<close> is given by its \<open>repr\<close>. \<open>frepr\<close> prints a float.
\<close>

datatype sample = SInt int | SBool bool | SFloat py_float | SOther string

definition sample_repr :: "(py_float \<Rightarrow> string) \<Rightarrow> sample \<Rightarrow> string" where
  "sample_repr frepr v =
     (case v of SInt i \<Rightarrow> str_int i | SBool b \<Rightarrow> (if b then ''True'' else ''False'') | SFloat x \<Rightarrow> frepr x | SOther r \<Rightarrow> r)"

definition state_sample_line :: "string \<Rightarrow> int \<Rightarrow> string" where
  "state_sample_line state n = ''kernelq_jobs_by_state{state='' @ [CHR 0x22] @ state @ [CHR 0x22] @ ''} '' @ str_int n"

text \<open>The loop over the sorted states; it stops at the first value that is refused.\<close>

fun state_lines :: "(py_float \<Rightarrow> string) \<Rightarrow> (string \<times> sample) list \<Rightarrow> string list result" where
  "state_lines frepr [] = Inr []"
| "state_lines frepr ((state, v) # rest) =
     (if is_blank state then Inl (ValueError (''state must be a non-blank string, got '' @ py_repr state))
      else case v of
        SInt n \<Rightarrow>
          if n < 0 then Inl (ValueError (''count must be >= 0, got '' @ str_int n))
          else bind_res (state_lines frepr rest) (\<lambda>lines. Inr (state_sample_line state n # lines))
      | _ \<Rightarrow> Inl (ValueError (''count must be an int, got '' @ sample_repr frepr v)))"

definition newline :: string where "newline = [CHR 0x0A]"

definition format_job_state_counts_for_prometheus :: "(py_float \<Rightarrow> string) \<Rightarrow> (string, sample) dict \<Rightarrow> string result" where
  "format_job_state_counts_for_prometheus frepr job_state_counts =
     bind_res (state_lines frepr (sort_key fst job_state_counts)) (\<lambda>samples.
       Inr (py_join newline
         ([''# HELP kernelq_jobs_by_state Number of jobs by durable lifecycle state.'',
           ''# TYPE kernelq_jobs_by_state gauge''] @ samples) @ newline))"

definition validate_non_negative_number :: "(py_float \<Rightarrow> string) \<Rightarrow> string \<Rightarrow> sample \<Rightarrow> py_float result" where
  "validate_non_negative_number frepr name v =
     (case (case v of SInt i \<Rightarrow> Some (float_of_int i) | SFloat x \<Rightarrow> Some x | _ \<Rightarrow> None) of
        None \<Rightarrow> Inl (ValueError (name @ '' must be a number, got '' @ sample_repr frepr v))
      | Some number \<Rightarrow>
          if number < 0 then Inl (ValueError (name @ '' must be >= 0, got '' @ sample_repr frepr v)) else Inr number)"

definition quantile_line :: "(py_float \<Rightarrow> string) \<Rightarrow> string \<Rightarrow> py_float \<Rightarrow> string" where
  "quantile_line frepr label v = ''kernelq_queue_wait_seconds{quantile='' @ [CHR 0x22] @ label @ [CHR 0x22] @ ''} '' @ frepr v"

fun quantile_lines :: "(py_float \<Rightarrow> string) \<Rightarrow> (string \<times> string \<times> sample) list \<Rightarrow> string list result" where
  "quantile_lines frepr [] = Inr []"
| "quantile_lines frepr ((label, field_name, v) # rest) =
     bind_res (validate_non_negative_number frepr field_name v) (\<lambda>number.
     bind_res (quantile_lines frepr rest) (\<lambda>lines. Inr (quantile_line frepr label number # lines)))"

definition format_job_duration_metrics_for_prometheus :: "(py_float \<Rightarrow> string) \<Rightarrow> job_duration_metrics \<Rightarrow> string result" where
  "format_job_duration_metrics_for_prometheus frepr metrics =
     bind_res (quantile_lines frepr
         [(''0.50'', ''p50_queue_wait_seconds'', SFloat (jd_p50_queue_wait_seconds metrics)),
          (''0.95'', ''p95_queue_wait_seconds'', SFloat (jd_p95_queue_wait_seconds metrics)),
          (''0.99'', ''p99_queue_wait_seconds'', SFloat (jd_p99_queue_wait_seconds metrics))])
       (\<lambda>samples. Inr (py_join newline
         ([''# HELP kernelq_queue_wait_seconds Queue wait duration quantiles in seconds.'',
           ''# TYPE kernelq_queue_wait_seconds gauge''] @ samples) @ newline))"

definition validate_non_negative_int :: "(py_float \<Rightarrow> string) \<Rightarrow> string \<Rightarrow> sample \<Rightarrow> int result" where
  "validate_non_negative_int frepr name v =
     (case v of
        SInt i \<Rightarrow> if i < 0 then Inl (ValueError (name @ '' must be >= 0, got '' @ str_int i)) else Inr i
      | _ \<Rightarrow> Inl (ValueError (name @ '' must be an int, got '' @ sample_repr frepr v)))"

definition format_result_consumer_metrics :: "(py_float \<Rightarrow> string) \<Rightarrow> sample \<Rightarrow> sample \<Rightarrow> string result" where
  "format_result_consumer_metrics frepr processed_messages duplicate_messages =
     bind_res (validate_non_negative_int frepr ''processed_messages'' processed_messages) (\<lambda>processed.
     bind_res (validate_non_negative_int frepr ''duplicate_messages'' duplicate_messages) (\<lambda>duplicates.
       Inr (py_join newline
         [''# TYPE kernelq_result_consumer_processed_messages counter'',
          ''kernelq_result_consumer_processed_messages '' @ str_int processed,
          [],
          ''# TYPE kernelq_result_consumer_duplicate_messages counter'',
          ''kernelq_result_consumer_duplicate_messages '' @ str_int duplicates] @ newline)))"

section \<open>What the state counts print\<close>

text \<open>Exactly the dictionaries of non-blank states and non-negative integers are printed.\<close>

definition counts_valid :: "(string, sample) dict \<Rightarrow> bool" where
  "counts_valid d \<longleftrightarrow> (\<forall>(s, v) \<in> set d. \<not> is_blank s \<and> (\<exists>n. v = SInt n \<and> 0 \<le> n))"

lemma state_lines_Inr:
  "state_lines frepr d = Inr lines \<longleftrightarrow>
     counts_valid d \<and> lines = map (\<lambda>(s, v). state_sample_line s (case v of SInt n \<Rightarrow> n | _ \<Rightarrow> 0)) d"
proof (induction d arbitrary: lines)
  case Nil
  then show ?case by (auto simp: counts_valid_def)
next
  case (Cons x d)
  obtain s v where x: "x = (s, v)" by (cases x)
  show ?case
    using Cons.IH unfolding x by (cases v) (auto simp: counts_valid_def bind_res_eq_Inr not_less)
qed

lemma quantile_lines_ok:
  assumes "\<forall>(label, name, v) \<in> set qs. \<exists>x. v = SFloat x \<and> 0 \<le> x"
  shows "\<exists>lines. quantile_lines frepr qs = Inr lines"
  using assms by (induction qs) (auto simp: validate_non_negative_number_def not_less bind_res_eq_Inr)

lemma counts_valid_sort: "counts_valid (sort_key fst d) = counts_valid d"
  by (simp add: counts_valid_def)

text \<open>The duration block always prints, because the percentiles are not negative.\<close>

lemma durations_print:
  assumes "length jobs \<le> 2 ^ 40"
  shows "\<exists>out. format_job_duration_metrics_for_prometheus frepr (compute_job_duration_metrics jobs) = Inr out"
proof -
  note o = duration_metrics_order [OF assms]
  have "\<exists>lines. quantile_lines frepr
         [(''0.50'', ''p50_queue_wait_seconds'', SFloat (jd_p50_queue_wait_seconds (compute_job_duration_metrics jobs))),
          (''0.95'', ''p95_queue_wait_seconds'', SFloat (jd_p95_queue_wait_seconds (compute_job_duration_metrics jobs))),
          (''0.99'', ''p99_queue_wait_seconds'', SFloat (jd_p99_queue_wait_seconds (compute_job_duration_metrics jobs)))] = Inr lines"
    by (rule quantile_lines_ok) (use o in auto)
  then show ?thesis by (auto simp: format_job_duration_metrics_for_prometheus_def)
qed

end
