(* ===== verification/Scheduler_Metrics.thy ===== *)
theory Scheduler_Metrics
  imports Enqueue_Result Py_Float
begin

text \<open>
  \<open>SchedulerMetrics\<close> of \<open>kernelq/scheduler_metrics.py\<close>: counters of enqueue outcomes, of dispatches
  and waiting times per tenant and per priority, and the greatest queue depth. The dictionaries
  are association lists in insertion order. The theorems compare the counters after any sequence
  of records with what a reader computes from the sequence itself.
\<close>

section \<open>Counting in a dictionary\<close>

definition dict_bump :: "'k \<Rightarrow> int \<Rightarrow> ('k, int) dict \<Rightarrow> ('k, int) dict" where
  "dict_bump k n d = dict_set k ((case dict_get d k of None \<Rightarrow> 0 | Some v \<Rightarrow> v) + n) d"

text \<open>What the dictionary holds after bumping it for every element: a sum per key.\<close>

lemma bump_all_get:
  "dict_get (foldl (\<lambda>d x. dict_bump (key x) (val x) d) d xs) k =
     (if k \<in> key ` set xs then Some ((case dict_get d k of None \<Rightarrow> 0 | Some v \<Rightarrow> v) + sum_list (map val (filter (\<lambda>x. key x = k) xs)))
      else dict_get d k)"
proof (induction xs arbitrary: d)
  case (Cons x xs)
  have "filter (\<lambda>y. key y = k) xs = []" if "k \<notin> key ` set xs" using that by (auto simp: filter_empty_conv)
  with Cons show ?case by (cases "k \<in> key ` set xs") (auto simp: dict_bump_def algebra_simps)
qed simp

lemma dict_set_keys: "dict_keys (dict_set k v d) = (if k \<in> set (dict_keys d) then dict_keys d else dict_keys d @ [k])"
  by (simp add: dict_keys_def dict_set_def update_keys)

lemma bump_all_keys:
  "set (dict_keys (foldl (\<lambda>d x. dict_bump (key x) (val x) d) d xs)) = set (dict_keys d) \<union> key ` set xs"
  by (induction xs arbitrary: d) (auto simp: dict_bump_def dict_set_keys)

lemma bump_all_wf: "dict_wf d \<Longrightarrow> dict_wf (foldl (\<lambda>d x. dict_bump (key x) (val x) d) d xs)"
  by (induction xs arbitrary: d) (auto simp: dict_bump_def)

lemma sum_values_set:
  fixes d :: "('k, int) dict"
  assumes "dict_wf d"
  shows "sum_list (map snd (dict_set k v d)) = sum_list (map snd d) + v - (case dict_get d k of None \<Rightarrow> 0 | Some w \<Rightarrow> w)"
  using assms by (induction d) (auto simp: dict_set_def dict_get_def dict_wf_def dict_keys_def split: option.splits)

lemma sum_values_bump: "dict_wf d \<Longrightarrow> sum_list (map snd (dict_bump k n d)) = sum_list (map snd d) + n"
  unfolding dict_bump_def by (subst sum_values_set) auto

lemma bump_all_sum:
  "dict_wf d \<Longrightarrow> sum_list (map snd (foldl (\<lambda>d x. dict_bump (key x) (val x) d) d xs)) = sum_list (map snd d) + sum_list (map val xs)"
proof (induction xs arbitrary: d)
  case (Cons x xs)
  have "dict_wf (dict_bump (key x) (val x) d)" using Cons.prems by (simp add: dict_bump_def)
  with Cons show ?case by (simp add: sum_values_bump)
qed simp

section \<open>The counters\<close>

record metric_job =
  mj_tenant_id :: string
  mj_priority :: int
  mj_created_at :: int

record scheduler_metrics =
  enqueue_accepted_count :: int
  enqueue_rejected_full_count :: int
  enqueue_rejected_invalid_count :: int
  dispatch_count_total :: int
  dispatch_count_by_tenant :: "(string, int) dict"
  dispatch_count_by_priority :: "(int, int) dict"
  total_queue_wait_time :: int
  total_queue_wait_time_by_tenant :: "(string, int) dict"
  total_queue_wait_time_by_priority :: "(int, int) dict"
  queue_depth_peak :: int

definition metrics_init :: scheduler_metrics where
  "metrics_init =
     \<lparr>enqueue_accepted_count = 0, enqueue_rejected_full_count = 0, enqueue_rejected_invalid_count = 0,
      dispatch_count_total = 0, dispatch_count_by_tenant = [], dispatch_count_by_priority = [], total_queue_wait_time = 0,
      total_queue_wait_time_by_tenant = [], total_queue_wait_time_by_priority = [], queue_depth_peak = 0\<rparr>"

text \<open>The last branch of the code, for a value that is no \<open>EnqueueStatus\<close>, has no counterpart.\<close>

fun record_enqueue_result :: "enqueue_status \<Rightarrow> scheduler_metrics \<Rightarrow> scheduler_metrics" where
  "record_enqueue_result ACCEPTED m = m\<lparr>enqueue_accepted_count := enqueue_accepted_count m + 1\<rparr>"
| "record_enqueue_result REJECTED_FULL m = m\<lparr>enqueue_rejected_full_count := enqueue_rejected_full_count m + 1\<rparr>"
| "record_enqueue_result REJECTED_INVALID m = m\<lparr>enqueue_rejected_invalid_count := enqueue_rejected_invalid_count m + 1\<rparr>"

definition record_dispatch :: "metric_job \<Rightarrow> int \<Rightarrow> scheduler_metrics \<Rightarrow> scheduler_metrics" where
  "record_dispatch job dispatch_time m =
     (let wait_time = dispatch_time - mj_created_at job; tid = mj_tenant_id job; pri = mj_priority job
      in m\<lparr>dispatch_count_total := dispatch_count_total m + 1,
           dispatch_count_by_tenant := dict_bump tid 1 (dispatch_count_by_tenant m),
           dispatch_count_by_priority := dict_bump pri 1 (dispatch_count_by_priority m),
           total_queue_wait_time := total_queue_wait_time m + wait_time,
           total_queue_wait_time_by_tenant := dict_bump tid wait_time (total_queue_wait_time_by_tenant m),
           total_queue_wait_time_by_priority := dict_bump pri wait_time (total_queue_wait_time_by_priority m)\<rparr>)"

text \<open>\<open>a / b\<close> of two integers: the quotient, correctly rounded.\<close>

definition int_truediv :: "int \<Rightarrow> int \<Rightarrow> py_float" where
  "int_truediv a b = fl (of_int a / of_int b)"

definition average_queue_wait_time :: "scheduler_metrics \<Rightarrow> py_float" where
  "average_queue_wait_time m =
     (if dispatch_count_total m = 0 then 0 else int_truediv (total_queue_wait_time m) (dispatch_count_total m))"

definition averages_of :: "('k, int) dict \<Rightarrow> ('k, int) dict \<Rightarrow> ('k, py_float) dict" where
  "averages_of counts totals =
     foldl (\<lambda>averages (k, dispatch_count).
        if dispatch_count = 0 then dict_set k 0 averages
        else let total_wait = (case dict_get totals k of None \<Rightarrow> 0 | Some w \<Rightarrow> w)
             in dict_set k (int_truediv total_wait dispatch_count) averages) [] counts"

definition average_queue_wait_time_by_tenant :: "scheduler_metrics \<Rightarrow> (string, py_float) dict" where
  "average_queue_wait_time_by_tenant m = averages_of (dispatch_count_by_tenant m) (total_queue_wait_time_by_tenant m)"

definition average_queue_wait_time_by_priority :: "scheduler_metrics \<Rightarrow> (int, py_float) dict" where
  "average_queue_wait_time_by_priority m = averages_of (dispatch_count_by_priority m) (total_queue_wait_time_by_priority m)"

definition observe_queue_depth :: "int \<Rightarrow> scheduler_metrics \<Rightarrow> exc option \<times> scheduler_metrics" where
  "observe_queue_depth depth m =
     (if depth < 0 then (Some (ValueError ''depth must not be negative''), m)
      else if depth > queue_depth_peak m then (None, m\<lparr>queue_depth_peak := depth\<rparr>)
      else (None, m))"

record metrics_snapshot =
  sn_counters :: scheduler_metrics
  sn_average_queue_wait_time :: py_float
  sn_average_by_tenant :: "(string, py_float) dict"
  sn_average_by_priority :: "(int, py_float) dict"

definition snapshot :: "scheduler_metrics \<Rightarrow> metrics_snapshot" where
  "snapshot m =
     \<lparr>sn_counters = m, sn_average_queue_wait_time = average_queue_wait_time m,
      sn_average_by_tenant = average_queue_wait_time_by_tenant m,
      sn_average_by_priority = average_queue_wait_time_by_priority m\<rparr>"

section \<open>Sequences of records\<close>

datatype metric_op = RecordEnqueue enqueue_status | RecordDispatch metric_job int | ObserveDepth int

fun metric_apply :: "metric_op \<Rightarrow> scheduler_metrics \<Rightarrow> scheduler_metrics" where
  "metric_apply (RecordEnqueue s) m = record_enqueue_result s m"
| "metric_apply (RecordDispatch job t) m = record_dispatch job t m"
| "metric_apply (ObserveDepth n) m = snd (observe_queue_depth n m)"

definition run_metrics :: "metric_op list \<Rightarrow> scheduler_metrics \<Rightarrow> scheduler_metrics" where
  "run_metrics ops m = foldl (\<lambda>m op. metric_apply op m) m ops"

fun dispatches :: "metric_op list \<Rightarrow> (metric_job \<times> int) list" where
  "dispatches [] = []"
| "dispatches (RecordDispatch job t # ops) = (job, t) # dispatches ops"
| "dispatches (op # ops) = dispatches ops"

definition wait_of :: "metric_job \<times> int \<Rightarrow> int" where
  "wait_of d = snd d - mj_created_at (fst d)"

text \<open>The dispatch counters as folds over the dispatches alone.\<close>

lemma run_metrics_simps [simp]:
  "run_metrics [] m = m" "run_metrics (op # ops) m = run_metrics ops (metric_apply op m)"
  by (simp_all add: run_metrics_def)

lemma enqueue_keeps [simp]:
  "dispatch_count_total (record_enqueue_result s m) = dispatch_count_total m"
  "total_queue_wait_time (record_enqueue_result s m) = total_queue_wait_time m"
  "dispatch_count_by_tenant (record_enqueue_result s m) = dispatch_count_by_tenant m"
  "dispatch_count_by_priority (record_enqueue_result s m) = dispatch_count_by_priority m"
  "total_queue_wait_time_by_tenant (record_enqueue_result s m) = total_queue_wait_time_by_tenant m"
  "total_queue_wait_time_by_priority (record_enqueue_result s m) = total_queue_wait_time_by_priority m"
  "queue_depth_peak (record_enqueue_result s m) = queue_depth_peak m"
  by (cases s; simp)+

lemma observe_eq:
  "snd (observe_queue_depth n m) = m\<lparr>queue_depth_peak := max (queue_depth_peak m) (if n < 0 then queue_depth_peak m else n)\<rparr>"
  by (simp add: observe_queue_depth_def)

lemma run_metrics_totals:
  "dispatch_count_total (run_metrics ops m) = dispatch_count_total m + int (length (dispatches ops))"
  "total_queue_wait_time (run_metrics ops m) = total_queue_wait_time m + sum_list (map wait_of (dispatches ops))"
  by (induction ops arbitrary: m rule: dispatches.induct)
    (simp_all add: record_dispatch_def wait_of_def Let_def observe_eq)

lemma run_metrics_outcomes:
  "enqueue_accepted_count (run_metrics ops m) =
     enqueue_accepted_count m + int (length (filter (\<lambda>op. op = RecordEnqueue ACCEPTED) ops))"
  "enqueue_rejected_full_count (run_metrics ops m) =
     enqueue_rejected_full_count m + int (length (filter (\<lambda>op. op = RecordEnqueue REJECTED_FULL) ops))"
  "enqueue_rejected_invalid_count (run_metrics ops m) =
     enqueue_rejected_invalid_count m + int (length (filter (\<lambda>op. op = RecordEnqueue REJECTED_INVALID) ops))"
proof -
  have keep: "enqueue_accepted_count (record_dispatch job t m) = enqueue_accepted_count m"
    "enqueue_rejected_full_count (record_dispatch job t m) = enqueue_rejected_full_count m"
    "enqueue_rejected_invalid_count (record_dispatch job t m) = enqueue_rejected_invalid_count m" for job t m
    by (simp_all add: record_dispatch_def Let_def)
  have "enqueue_accepted_count (metric_apply op m) = enqueue_accepted_count m + (if op = RecordEnqueue ACCEPTED then 1 else 0) \<and>
    enqueue_rejected_full_count (metric_apply op m) = enqueue_rejected_full_count m + (if op = RecordEnqueue REJECTED_FULL then 1 else 0) \<and>
    enqueue_rejected_invalid_count (metric_apply op m) = enqueue_rejected_invalid_count m + (if op = RecordEnqueue REJECTED_INVALID then 1 else 0)"
    for op m
  proof (cases op)
    case (RecordEnqueue s)
    then show ?thesis by (cases s) simp_all
  qed (simp_all add: keep observe_eq)
  then show
  "enqueue_accepted_count (run_metrics ops m) =
     enqueue_accepted_count m + int (length (filter (\<lambda>op. op = RecordEnqueue ACCEPTED) ops))"
  "enqueue_rejected_full_count (run_metrics ops m) =
     enqueue_rejected_full_count m + int (length (filter (\<lambda>op. op = RecordEnqueue REJECTED_FULL) ops))"
  "enqueue_rejected_invalid_count (run_metrics ops m) =
     enqueue_rejected_invalid_count m + int (length (filter (\<lambda>op. op = RecordEnqueue REJECTED_INVALID) ops))"
    by (induction ops arbitrary: m) simp_all
qed

lemma run_metrics_maps:
  "dispatch_count_by_tenant (run_metrics ops m) =
     foldl (\<lambda>d x. dict_bump (mj_tenant_id (fst x)) 1 d) (dispatch_count_by_tenant m) (dispatches ops)"
  "dispatch_count_by_priority (run_metrics ops m) =
     foldl (\<lambda>d x. dict_bump (mj_priority (fst x)) 1 d) (dispatch_count_by_priority m) (dispatches ops)"
  "total_queue_wait_time_by_tenant (run_metrics ops m) =
     foldl (\<lambda>d x. dict_bump (mj_tenant_id (fst x)) (wait_of x) d) (total_queue_wait_time_by_tenant m) (dispatches ops)"
  "total_queue_wait_time_by_priority (run_metrics ops m) =
     foldl (\<lambda>d x. dict_bump (mj_priority (fst x)) (wait_of x) d) (total_queue_wait_time_by_priority m) (dispatches ops)"
  by (induction ops arbitrary: m rule: dispatches.induct)
    (simp_all add: record_dispatch_def wait_of_def Let_def observe_eq)

lemma Max_merge: "finite S \<Longrightarrow> Max (insert (max a b) S) = Max (insert a (insert b S))" for a b :: int
  by (cases "S = {}") (simp_all add: max.assoc)

lemma run_metrics_peak:
  "0 \<le> queue_depth_peak m \<Longrightarrow>
   queue_depth_peak (run_metrics ops m) = Max (insert (queue_depth_peak m) {n. ObserveDepth n \<in> set ops \<and> 0 \<le> n})"
proof (induction ops arbitrary: m)
  case (Cons op ops)
  have fin: "finite {n. ObserveDepth n \<in> set ops \<and> 0 \<le> n}"
    by (rule finite_subset [of _ "(\<lambda>op. case op of ObserveDepth n \<Rightarrow> n | _ \<Rightarrow> 0) ` set ops"]) force+
  show ?case
  proof (cases op)
    case (ObserveDepth n)
    let ?m = "snd (observe_queue_depth n m)" and ?S = "{n. ObserveDepth n \<in> set ops \<and> 0 \<le> n}"
    have "queue_depth_peak (run_metrics ops ?m) = Max (insert (queue_depth_peak ?m) ?S)"
      by (rule Cons.IH) (use Cons.prems in \<open>simp add: observe_eq\<close>)
    also have "\<dots> = Max (insert (queue_depth_peak m) (if 0 \<le> n then insert n ?S else ?S))"
      using Max_merge [OF fin] by (simp add: observe_eq not_less)
    also have "insert (queue_depth_peak m) (if 0 \<le> n then insert n ?S else ?S) =
        insert (queue_depth_peak m) {k. ObserveDepth k \<in> set (op # ops) \<and> 0 \<le> k}" using ObserveDepth by auto
    finally show ?thesis using ObserveDepth by simp
  next
    case (RecordEnqueue s)
    then show ?thesis using Cons by simp
  next
    case (RecordDispatch job t)
    then show ?thesis using Cons by (simp add: record_dispatch_def Let_def)
  qed
qed simp

text \<open>The averages are taken key by key.\<close>

lemma averages_get:
  assumes "dict_wf counts" "\<And>k n. dict_get counts k = Some n \<Longrightarrow> n \<noteq> 0"
  shows "dict_get (averages_of counts totals) k =
    map_option (\<lambda>n. int_truediv (case dict_get totals k of None \<Rightarrow> 0 | Some w \<Rightarrow> w) n) (dict_get counts k)"
proof -
  have "dict_get (foldl (\<lambda>averages (k, dispatch_count).
        if dispatch_count = 0 then dict_set k 0 averages
        else let total_wait = (case dict_get totals k of None \<Rightarrow> 0 | Some w \<Rightarrow> w)
             in dict_set k (int_truediv total_wait dispatch_count) averages) acc counts) k =
      (case dict_get counts k of None \<Rightarrow> dict_get acc k
       | Some n \<Rightarrow> Some (int_truediv (case dict_get totals k of None \<Rightarrow> 0 | Some w \<Rightarrow> w) n))" for acc
    using assms
  proof (induction counts arbitrary: acc)
    case Nil
    then show ?case by (simp add: dict_get_def)
  next
    case (Cons c counts)
    obtain k0 n0 where c: "c = (k0, n0)" by (cases c)
    have n0: "n0 \<noteq> 0" using Cons.prems(2) [of k0 n0] c by (simp add: dict_get_def)
    have wf: "dict_wf counts" "k0 \<notin> set (dict_keys counts)" using Cons.prems(1) c by (auto simp: dict_wf_def dict_keys_def)
    have nz: "n \<noteq> 0" if "dict_get counts k = Some n" for k n
      using Cons.prems(2) [of k n] that wf(2) c by (cases "k = k0") (auto simp: dict_get_def dict_keys_def dest!: map_of_SomeD intro: rev_image_eqI)
    have "dict_get counts k0 = None" using wf(2) by (simp add: dict_get_eq_None)
    moreover have "dict_get (c # counts) k = (if k = k0 then Some n0 else dict_get counts k)" using c by (simp add: dict_get_def)
    ultimately show ?case using Cons.IH [OF wf(1) nz] n0 c by (auto simp: Let_def split: option.splits)
  qed
  from this [of "[]"] show ?thesis by (simp add: averages_of_def dict_get_def split: option.split)
qed

text \<open>Counts, waits and averages per key of a list of dispatches.\<close>

lemma ones: "sum_list (map (\<lambda>x. 1) xs) = int (length xs)"
  by (simp add: sum_list_triv)

lemma in_keys_iff: "k \<in> key ` set ds \<longleftrightarrow> filter (\<lambda>d. key d = k) ds \<noteq> []"
  by (auto simp: filter_empty_conv)

lemma stats_count:
  "dict_get (foldl (\<lambda>d x. dict_bump (key x) 1 d) [] ds) k =
     (if filter (\<lambda>d. key d = k) ds = [] then None else Some (int (length (filter (\<lambda>d. key d = k) ds))))"
  unfolding bump_all_get ones in_keys_iff by (simp add: dict_get_def)

lemma stats_wait:
  "dict_get (foldl (\<lambda>d x. dict_bump (key x) (v x) d) [] ds) k =
     (if filter (\<lambda>d. key d = k) ds = [] then None else Some (sum_list (map v (filter (\<lambda>d. key d = k) ds))))"
  unfolding bump_all_get in_keys_iff by (simp add: dict_get_def)

lemma empty_wf: "dict_wf []"
  by (simp add: dict_wf_def dict_keys_def)

lemma stats_sum: "sum_list (map snd (foldl (\<lambda>d x. dict_bump (key x) (v x) d) [] ds)) = sum_list (map v ds)"
  using bump_all_sum [OF empty_wf, of key v ds] by simp

lemma stats_average:
  "dict_get (averages_of (foldl (\<lambda>d x. dict_bump (key x) 1 d) [] ds) (foldl (\<lambda>d x. dict_bump (key x) (v x) d) [] ds)) k =
     (if filter (\<lambda>d. key d = k) ds = [] then None
      else Some (int_truediv (sum_list (map v (filter (\<lambda>d. key d = k) ds))) (int (length (filter (\<lambda>d. key d = k) ds)))))"
proof (subst averages_get)
  show "dict_wf (foldl (\<lambda>d x. dict_bump (key x) 1 d) [] ds)" by (rule bump_all_wf [OF empty_wf])
  show "n \<noteq> 0" if "dict_get (foldl (\<lambda>d x. dict_bump (key x) 1 d) [] ds) k = Some n" for k n
    using that by (auto simp: stats_count split: if_splits)
qed (simp add: stats_count stats_wait)

section \<open>Properties\<close>

text \<open>
  C39: The snapshot says what happened. After any sequence of records on new counters, \<open>snapshot\<close>
  reports: for each enqueue outcome the number of its records; the number of dispatches, the sum
  of their waits, and as average the correctly rounded quotient of the two, 0 without a
  dispatch; per tenant the count, the wait and the average of its own dispatches, and no entry
  for a tenant without one; the same per priority; and the greatest depth observed. The entries
  of all tenants, and those of all priorities, add up to the totals.
\<close>

theorem metrics_account:
  assumes "sn = snapshot (run_metrics ops metrics_init)" and "m = sn_counters sn" and "ds = dispatches ops"
    and "of_tenant = (\<lambda>tid. filter (\<lambda>d. mj_tenant_id (fst d) = tid) ds)"
    and "of_priority = (\<lambda>pri. filter (\<lambda>d. mj_priority (fst d) = pri) ds)"
    and "wait = (\<lambda>ds. sum_list (map wait_of ds))"
    and "average = (\<lambda>ds. fl (of_int (wait ds) / of_int (int (length ds))))"
  shows "enqueue_accepted_count m = int (length (filter (\<lambda>op. op = RecordEnqueue ACCEPTED) ops)) \<and>
     enqueue_rejected_full_count m = int (length (filter (\<lambda>op. op = RecordEnqueue REJECTED_FULL) ops)) \<and>
     enqueue_rejected_invalid_count m = int (length (filter (\<lambda>op. op = RecordEnqueue REJECTED_INVALID) ops)) \<and>
     dispatch_count_total m = int (length ds) \<and> total_queue_wait_time m = wait ds \<and>
     sn_average_queue_wait_time sn = (if ds = [] then 0 else average ds) \<and>
     (\<forall>tid. let own = of_tenant tid in
        dict_get (dispatch_count_by_tenant m) tid = (if own = [] then None else Some (int (length own))) \<and>
        dict_get (total_queue_wait_time_by_tenant m) tid = (if own = [] then None else Some (wait own)) \<and>
        dict_get (sn_average_by_tenant sn) tid = (if own = [] then None else Some (average own))) \<and>
     (\<forall>pri. let own = of_priority pri in
        dict_get (dispatch_count_by_priority m) pri = (if own = [] then None else Some (int (length own))) \<and>
        dict_get (total_queue_wait_time_by_priority m) pri = (if own = [] then None else Some (wait own)) \<and>
        dict_get (sn_average_by_priority sn) pri = (if own = [] then None else Some (average own))) \<and>
     sum_list (map snd (dispatch_count_by_tenant m)) = dispatch_count_total m \<and>
     sum_list (map snd (dispatch_count_by_priority m)) = dispatch_count_total m \<and>
     sum_list (map snd (total_queue_wait_time_by_tenant m)) = total_queue_wait_time m \<and>
     sum_list (map snd (total_queue_wait_time_by_priority m)) = total_queue_wait_time m \<and>
     queue_depth_peak m = Max (insert 0 {n. ObserveDepth n \<in> set ops \<and> 0 \<le> n})"
proof -
  have m: "m = run_metrics ops metrics_init" using assms(1,2) by (simp add: snapshot_def)
  have init: "dispatch_count_total metrics_init = 0" "total_queue_wait_time metrics_init = 0" "dispatch_count_by_tenant metrics_init = []"
    "dispatch_count_by_priority metrics_init = []" "total_queue_wait_time_by_tenant metrics_init = []"
    "total_queue_wait_time_by_priority metrics_init = []" "queue_depth_peak metrics_init = 0"
    "enqueue_accepted_count metrics_init = 0" "enqueue_rejected_full_count metrics_init = 0" "enqueue_rejected_invalid_count metrics_init = 0"
    by (simp_all add: metrics_init_def)
  note maps = run_metrics_maps [of ops metrics_init, unfolded init, folded m assms(3)]
  note totals = run_metrics_totals [of ops metrics_init, unfolded init, folded m assms(3), simplified]
  note outcomes = run_metrics_outcomes [of ops metrics_init, unfolded init, folded m, simplified]
  have peak: "queue_depth_peak m = Max (insert 0 {n. ObserveDepth n \<in> set ops \<and> 0 \<le> n})"
    using run_metrics_peak [of metrics_init ops] unfolding init m by simp
  have sn: "sn_average_queue_wait_time sn = average_queue_wait_time m"
    "sn_average_by_tenant sn = average_queue_wait_time_by_tenant m" "sn_average_by_priority sn = average_queue_wait_time_by_priority m"
    using assms(1) by (simp_all add: snapshot_def m)
  have avg: "average_queue_wait_time m = (if ds = [] then 0 else average ds)"
    by (simp add: average_queue_wait_time_def totals int_truediv_def assms(6,7))
  show ?thesis
    unfolding sn avg Let_def outcomes peak average_queue_wait_time_by_tenant_def average_queue_wait_time_by_priority_def maps totals
      stats_count stats_wait stats_average assms(4-7) stats_sum ones int_truediv_def
    by (intro conjI allI refl)
qed

theorem metrics_account_witness:
  "let job = \<lparr>mj_tenant_id = ''a'', mj_priority = 1, mj_created_at = 10\<rparr>;
       sn = snapshot (run_metrics [RecordEnqueue ACCEPTED, RecordDispatch job 14, RecordDispatch job 12, ObserveDepth 3] metrics_init);
       m = sn_counters sn
   in enqueue_accepted_count m = 1 \<and> enqueue_rejected_full_count m = 0 \<and> dispatch_count_total m = 2 \<and> total_queue_wait_time m = 6 \<and>
     sn_average_queue_wait_time sn = 3 \<and> dict_get (dispatch_count_by_tenant m) ''a'' = Some 2 \<and> dict_get (sn_average_by_tenant sn) ''a'' = Some 3"
proof -
  let ?job = "\<lparr>mj_tenant_id = ''a'', mj_priority = 1, mj_created_at = 10\<rparr>"
  let ?ops = "[RecordEnqueue ACCEPTED, RecordDispatch ?job 14, RecordDispatch ?job 12, ObserveDepth 3]"
  have d: "dispatches ?ops = [(?job, 14), (?job, 12)]" by simp
  have three: "fl (of_int 6 / of_int 2) = 3" using fl_int [of 3] by simp
  note acc = metrics_account [of "snapshot (run_metrics ?ops metrics_init)" ?ops, OF refl refl d [symmetric] refl refl refl refl]
  show ?thesis
    unfolding Let_def
  proof (intro conjI, goal_cases)
    case 7
    then show ?case using acc three by (auto simp: wait_of_def Let_def simp del: run_metrics_simps)
  qed (use acc three in \<open>simp_all add: wait_of_def Let_def del: run_metrics_simps\<close>)
qed

end
