(* ===== verification/Control_Plane_Api.thy ===== *)
theory Control_Plane_Api
  imports Repository_Steps Prometheus_Metrics Scheduler_Metrics Db_Connection
begin

text \<open>
  The HTTP endpoints of \<open>control_plane/api.py\<close>. An endpoint answers with a body, with the status
  and detail of an \<open>HTTPException\<close>, with the 422 of a request that fails the field constraints,
  or an exception escapes from it. Opening a connection may fail (\<open>conn\<close>); every database call
  has server choices of its own, and between two calls of one request other transactions may
  change the table (\<open>between\<close>). \<open>exc_str\<close> gives the text of a driver exception, \<open>set_iter\<close> the
  iteration order of a set of states.
\<close>

datatype 'a response = Body 'a | HttpError int string | Unprocessable | Escapes exc

definition is_psycopg :: "exc \<Rightarrow> bool" where
  "is_psycopg e = (case e of UniqueViolation \<Rightarrow> True | PsycopgError s \<Rightarrow> True | _ \<Rightarrow> False)"

text \<open>\<open>except PsycopgError as exc: raise HTTPException(500, what + str(exc))\<close>; other exceptions escape.\<close>

definition database_error :: "(exc \<Rightarrow> string) \<Rightarrow> string \<Rightarrow> exc \<Rightarrow> 'a response" where
  "database_error exc_str what e = (if is_psycopg e then HttpError 500 (what @ exc_str e) else Escapes e)"

definition not_found :: "string \<Rightarrow> 'a response" where
  "not_found job_id = HttpError 404 (''Job '' @ py_repr job_id @ '' not found'')"

definition already_exists :: "string \<Rightarrow> 'a response" where
  "already_exists job_id = HttpError 409 (''Job '' @ py_repr job_id @ '' already exists'')"

definition parse_state :: "string \<Rightarrow> (job_state + 'a response)" where
  "parse_state v =
     (case job_state_of_value v of
        Some s \<Rightarrow> Inl s
      | None \<Rightarrow> Inr (HttpError 500 (''Job has unknown state '' @ py_repr v @ '' in database'')))"

record job_response =
  re_job_id :: string
  re_tenant_id :: string
  re_priority :: int
  re_state :: string
  re_payload :: "(string \<times> json) list"
  re_retry_count :: int
  re_max_retries :: int
  re_created_at :: int
  re_updated_at :: int
  re_dispatched_at :: "int option"

text \<open>\<open>int(created_at.timestamp())\<close> of a \<open>datetime\<close>, in microseconds since the epoch.\<close>

definition epoch_int :: "int \<Rightarrow> int" where
  "epoch_int us = py_int_of_float (fl (of_int us / 1000000))"

definition record_to_response :: "job_record \<Rightarrow> job_response" where
  "record_to_response r =
     \<lparr>re_job_id = jr_job_id r, re_tenant_id = jr_tenant_id r, re_priority = jr_priority r, re_state = jr_state r,
      re_payload = jr_payload r, re_retry_count = jr_retry_count r, re_max_retries = jr_max_retries r,
      re_created_at = epoch_int (jr_created_at r), re_updated_at = epoch_int (jr_updated_at r),
      re_dispatched_at = map_option epoch_int (jr_dispatched_at r)\<rparr>"

record enqueue_request =
  rq_tenant_id :: string
  rq_priority :: int
  rq_payload :: "(string \<times> json) list option"
  rq_max_retries :: "int option"

record message_response =
  ms_message :: string
  ms_job_id :: string
  ms_state :: string

definition API_VERSION :: string where "API_VERSION = ''0.1.0''"

definition METRICS_JOB_LOAD_LIMIT :: int where "METRICS_JOB_LOAD_LIMIT = 100000"

definition health :: "(string \<times> string) list" where
  "health = [(''status'', ''ok''), (''service'', ''kernelq-control-plane''), (''version'', API_VERSION)]"

record job_state_counts_response =
  jc_job_state_counts :: "(string, int) dict"

record job_duration_response =
  du_completed_jobs_count :: int
  du_average_queue_wait_seconds :: py_float
  du_average_completion_seconds :: py_float
  du_p50_queue_wait_seconds :: py_float
  du_p95_queue_wait_seconds :: py_float
  du_p99_queue_wait_seconds :: py_float

text \<open>A repository is its connection; the endpoints below see of this step whether it failed (\<open>conn\<close>).\<close>

definition get_repository :: "(string \<Rightarrow> 'c result) \<Rightarrow> env \<Rightarrow> 'c result" where
  "get_repository driver_connect env = db_connect driver_connect env"

section \<open>Jobs\<close>

definition api_get_job :: "exc option \<Rightarrow> (exc \<Rightarrow> string) \<Rightarrow> pg \<Rightarrow> string \<Rightarrow> jobs_table \<Rightarrow> job_response response" where
  "api_get_job conn exc_str p job_id t =
     (case conn of
        Some e \<Rightarrow> Escapes e
      | None \<Rightarrow>
          (case get_job p job_id t of
             Inl e \<Rightarrow> database_error exc_str ''Database error while loading job: '' e
           | Inr None \<Rightarrow> not_found job_id
           | Inr (Some record) \<Rightarrow> Body (record_to_response record)))"

text \<open>The field constraints \<open>min_length=1\<close> and \<open>ge=0\<close> are checked before the endpoint runs.\<close>

definition request_valid :: "string \<Rightarrow> enqueue_request \<Rightarrow> bool" where
  "request_valid job_id body \<longleftrightarrow> job_id \<noteq> [] \<and> rq_tenant_id body \<noteq> [] \<and> 0 \<le> rq_priority body \<and>
     (case rq_max_retries body of None \<Rightarrow> True | Some n \<Rightarrow> 0 \<le> n)"

definition enqueue_job ::
    "exc option \<Rightarrow> (exc \<Rightarrow> string) \<Rightarrow> pg \<Rightarrow> (jobs_table \<Rightarrow> jobs_table) \<Rightarrow> pg \<Rightarrow> string \<Rightarrow> enqueue_request
     \<Rightarrow> jobs_table \<times> scheduler_metrics \<Rightarrow> job_response response \<times> jobs_table \<times> scheduler_metrics" where
  "enqueue_job conn exc_str p0 between p job_id body tm =
     (case tm of (t, m) \<Rightarrow>
      if \<not> request_valid job_id body then (Unprocessable, t, m)
      else if is_blank (rq_tenant_id body)
        then (HttpError 400 ''tenant_id must not be blank'', t, record_enqueue_result REJECTED_INVALID m)
      else case conn of
        Some e \<Rightarrow> (Escapes e, t, m)
      | None \<Rightarrow>
          (case get_job p0 job_id t of
             Inl e \<Rightarrow> (database_error exc_str ''Database error while checking job: '' e, t, m)
           | Inr (Some existing) \<Rightarrow> (already_exists job_id, t, m)
           | Inr None \<Rightarrow>
               (let job_payload = (case rq_payload body of Some d \<Rightarrow> d | None \<Rightarrow> []);
                    max_retries = (case rq_max_retries body of Some n \<Rightarrow> n | None \<Rightarrow> 3)
                in case create_job p job_id (rq_tenant_id body) (rq_priority body) (state_value QUEUED) (Some job_payload)
                       max_retries (between t) of
                     (Inl UniqueViolation, t') \<Rightarrow> (already_exists job_id, t', m)
                   | (Inl e, t') \<Rightarrow> (database_error exc_str ''Database error while creating job: '' e, t', m)
                   | (Inr record, t') \<Rightarrow> (Body (record_to_response record), t', record_enqueue_result ACCEPTED m))))"

text \<open>\<open>cancel_job\<close> and \<open>retry_job\<close> have the same text but for the target state and three messages.\<close>

definition move_job ::
    "job_state \<Rightarrow> string \<Rightarrow> string \<Rightarrow> exc option \<Rightarrow> (exc \<Rightarrow> string) \<Rightarrow> (job_state set \<Rightarrow> job_state list) \<Rightarrow> pg
     \<Rightarrow> (jobs_table \<Rightarrow> jobs_table) \<Rightarrow> pg \<Rightarrow> string \<Rightarrow> jobs_table \<Rightarrow> message_response response \<times> jobs_table" where
  "move_job target what message conn exc_str set_iter p0 between p job_id t =
     (case conn of
        Some e \<Rightarrow> (Escapes e, t)
      | None \<Rightarrow>
          (case get_job p0 job_id t of
             Inl e \<Rightarrow> (database_error exc_str ''Database error while loading job: '' e, t)
           | Inr None \<Rightarrow> (not_found job_id, t)
           | Inr (Some record) \<Rightarrow>
               (case parse_state (jr_state record) of
                  Inr response \<Rightarrow> (response, t)
                | Inl current \<Rightarrow>
                    if \<not> can_transition current target then (HttpError 409 (explain_transition set_iter current target), t)
                    else
                      (case update_job_state p job_id (state_value target) (between t) of
                         (Inl e, t') \<Rightarrow> (database_error exc_str (''Database error while '' @ what @ '': '') e, t')
                       | (Inr None, t') \<Rightarrow> (not_found job_id, t')
                       | (Inr (Some updated), t') \<Rightarrow>
                           (Body \<lparr>ms_message = message, ms_job_id = jr_job_id updated, ms_state = jr_state updated\<rparr>, t')))))"

definition cancel_job where
  "cancel_job = move_job CANCELED ''canceling job'' ''Job canceled''"

definition retry_job where
  "retry_job = move_job RETRY_SCHEDULED ''scheduling retry'' ''Job retried''"

section \<open>Metrics\<close>

definition get_metrics :: "scheduler_metrics \<Rightarrow> metrics_snapshot" where
  "get_metrics m = snapshot m"

definition get_job_metrics :: "exc option \<Rightarrow> (exc \<Rightarrow> string) \<Rightarrow> pg \<Rightarrow> jobs_table \<Rightarrow> job_state_counts_response response" where
  "get_job_metrics conn exc_str p t =
     (case conn of
        Some e \<Rightarrow> Escapes e
      | None \<Rightarrow>
          (case count_jobs_by_state p t of
             Inl e \<Rightarrow> database_error exc_str ''Database error while loading job counts: '' e
           | Inr counts \<Rightarrow> Body \<lparr>jc_job_state_counts = counts\<rparr>))"

definition get_job_duration_metrics :: "exc option \<Rightarrow> (exc \<Rightarrow> string) \<Rightarrow> pg \<Rightarrow> jobs_table \<Rightarrow> job_duration_response response" where
  "get_job_duration_metrics conn exc_str p t =
     (case conn of
        Some e \<Rightarrow> Escapes e
      | None \<Rightarrow>
          (case list_jobs p METRICS_JOB_LOAD_LIMIT t of
             Inl e \<Rightarrow> database_error exc_str ''Database error while loading job durations: '' e
           | Inr jobs \<Rightarrow>
               (let m = compute_job_duration_metrics (map view_of_record jobs)
                in Body \<lparr>du_completed_jobs_count = jd_completed_jobs_count m,
                     du_average_queue_wait_seconds = jd_average_queue_wait_seconds m,
                     du_average_completion_seconds = jd_average_completion_seconds m,
                     du_p50_queue_wait_seconds = jd_p50_queue_wait_seconds m,
                     du_p95_queue_wait_seconds = jd_p95_queue_wait_seconds m,
                     du_p99_queue_wait_seconds = jd_p99_queue_wait_seconds m\<rparr>)))"

text \<open>The two queries of this endpoint see the table at two times.\<close>

definition get_prometheus_job_metrics ::
    "(py_float \<Rightarrow> string) \<Rightarrow> exc option \<Rightarrow> (exc \<Rightarrow> string) \<Rightarrow> pg \<Rightarrow> pg \<Rightarrow> jobs_table \<Rightarrow> jobs_table \<Rightarrow> string response" where
  "get_prometheus_job_metrics frepr conn exc_str p0 p t0 t =
     (case conn of
        Some e \<Rightarrow> Escapes e
      | None \<Rightarrow>
          (case bind_res (count_jobs_by_state p0 t0) (\<lambda>counts.
                bind_res (list_jobs p METRICS_JOB_LOAD_LIMIT t) (\<lambda>jobs.
                  Inr (counts, compute_job_duration_metrics (map view_of_record jobs)))) of
             Inl e \<Rightarrow> database_error exc_str ''Database error while loading Prometheus metrics: '' e
           | Inr (counts, duration_metrics) \<Rightarrow>
               (case bind_res (format_job_state_counts_for_prometheus frepr (map (\<lambda>(s, n). (s, SInt n)) counts)) (\<lambda>b1.
                     bind_res (format_job_duration_metrics_for_prometheus frepr duration_metrics) (\<lambda>b2.
                     bind_res (format_result_consumer_metrics frepr (SInt 0) (SInt 0)) (\<lambda>b3. Inr (b1 @ b2 @ b3)))) of
                  Inl e \<Rightarrow> Escapes e
                | Inr body \<Rightarrow> Body body)))"

section \<open>Lookups\<close>

lemma get_job_find:
  assumes "pg_documented p" "ids_distinct t" "pg_fault p = None"
  shows "get_job p i t = Inr (map_option row_to_record (find (\<lambda>r. r_job_id r = i) t))"
proof (cases "find (\<lambda>r. r_job_id r = i) t")
  case None
  then have "\<forall>r \<in> set (pg_scan p t). r_job_id r \<noteq> i" using scan_set [OF assms(1), of t] by (auto simp: find_None_iff)
  then have "find (\<lambda>r. r_job_id r = i) (pg_scan p t) = None" by (auto simp: find_None_iff)
  then show ?thesis using None assms(3) by (simp add: get_job_def)
next
  case (Some r)
  then have r: "r \<in> set t" "r_job_id r = i" by (auto dest: find_Some_mem)
  then have "find (\<lambda>r. r_job_id r = i) (pg_scan p t) \<noteq> None" using scan_set [OF assms(1), of t] by (auto simp: find_None_iff)
  then obtain s where s: "find (\<lambda>r. r_job_id r = i) (pg_scan p t) = Some s" by blast
  then have "s \<in> set t" "r_job_id s = i" using scan_set [OF assms(1), of t] by (auto dest: find_Some_mem)
  then have "s = r" using ids_distinct_eq [OF assms(2)] r by blast
  then show ?thesis using Some s assms(3) by (simp add: get_job_def)
qed

definition enqueued_row :: "pg \<Rightarrow> string \<Rightarrow> enqueue_request \<Rightarrow> job_row" where
  "enqueued_row p job_id body =
     \<lparr>r_job_id = job_id, r_tenant_id = rq_tenant_id body, r_priority = rq_priority body, r_state = state_value QUEUED,
      r_payload = JObj (case rq_payload body of Some d \<Rightarrow> d | None \<Rightarrow> []), r_retry_count = 0,
      r_max_retries = (case rq_max_retries body of Some n \<Rightarrow> n | None \<Rightarrow> 3),
      r_created_at = pg_now p, r_updated_at = pg_now p, r_dispatched_at = None, r_retry_after = None\<rparr>"

lemma find_id_None: "find (\<lambda>r. r_job_id r = i) t = None \<longleftrightarrow> i \<notin> r_job_id ` set t"
  by (auto simp: find_None_iff)

lemma find_snoc: "\<forall>x \<in> set xs. \<not> P x \<Longrightarrow> P y \<Longrightarrow> find P (xs @ [y]) = Some y"
  by (induction xs) auto

lemma create_queued:
  assumes "pg_fault p = None" "request_valid job_id body" "in_int4 (rq_priority body)"
    and "in_int4 (case rq_max_retries body of Some n \<Rightarrow> n | None \<Rightarrow> 3)"
  shows "create_job p job_id (rq_tenant_id body) (rq_priority body) (state_value QUEUED)
      (Some (case rq_payload body of Some d \<Rightarrow> d | None \<Rightarrow> [])) (case rq_max_retries body of Some n \<Rightarrow> n | None \<Rightarrow> 3) t =
    (if job_id \<in> r_job_id ` set t then (Inl UniqueViolation, t)
     else (Inr (row_to_record (enqueued_row p job_id body)), t @ [enqueued_row p job_id body]))"
  using assms by (auto simp: create_job_def enqueued_row_def request_valid_def Let_def split: option.splits)

lemma enqueue_eq:
  assumes "pg_documented p0" "pg_fault p0 = None" "pg_fault p = None" "ids_distinct t"
    and "request_valid job_id body" "\<not> is_blank (rq_tenant_id body)" "in_int4 (rq_priority body)"
    and "in_int4 (case rq_max_retries body of Some n \<Rightarrow> n | None \<Rightarrow> 3)"
  shows "enqueue_job None exc_str p0 between p job_id body (t, m) =
    (if job_id \<in> r_job_id ` set t then (already_exists job_id, t, m)
     else if job_id \<in> r_job_id ` set (between t) then (already_exists job_id, between t, m)
     else (Body (record_to_response (row_to_record (enqueued_row p job_id body))),
           between t @ [enqueued_row p job_id body], record_enqueue_result ACCEPTED m))"
proof (cases "find (\<lambda>r. r_job_id r = job_id) t")
  case None
  then show ?thesis
    using assms(5,6) get_job_find [OF assms(1,4,2), of job_id] create_queued [OF assms(3,5,7,8), of "between t"] find_id_None [of job_id t]
    by (simp add: enqueue_job_def Let_def)
next
  case (Some r)
  then show ?thesis
    using assms(5,6) get_job_find [OF assms(1,4,2), of job_id] find_id_None [of job_id t] by (simp add: enqueue_job_def)
qed

section \<open>Properties\<close>

text \<open>
  C15: Enqueueing is safe under races. For a valid request with integers that fit their
  columns, whatever other transactions do between the existence check and the insert, a job id
  that exists at either time is answered with 409 and nothing is inserted or counted; otherwise
  one row is appended, queued and with no retry used, one accepted enqueue is counted, and a
  following \<open>GET /jobs/{job_id}\<close> answers exactly the body the enqueue returned.
\<close>

theorem enqueue_creates_once:
  assumes "pg_documented p0" and "pg_fault p0 = None" and "pg_fault p = None" and "ids_distinct t" and "ids_distinct (between t)"
    and "request_valid job_id body" and "\<not> is_blank (rq_tenant_id body)" and "in_int4 (rq_priority body)"
    and "in_int4 (case rq_max_retries body of Some n \<Rightarrow> n | None \<Rightarrow> 3)"
    and "pg_documented p1" and "pg_fault p1 = None"
    and "enqueue_job None exc_str p0 between p job_id body (t, m) = (response, t', m')"
  shows "ids_distinct t' \<and>
     (if job_id \<in> r_job_id ` set t \<union> r_job_id ` set (between t)
      then response = HttpError 409 (''Job '' @ py_repr job_id @ '' already exists'') \<and> t' \<in> {t, between t} \<and> m' = m
      else \<exists>row b. t' = between t @ [row] \<and> r_job_id row = job_id \<and> r_state row = ''queued'' \<and> r_retry_count row = 0 \<and>
        response = Body b \<and> api_get_job None exc_str p1 job_id t' = Body b \<and>
        m' = m\<lparr>enqueue_accepted_count := enqueue_accepted_count m + 1\<rparr>)"
proof -
  note eq = enqueue_eq [OF assms(1-4,6-9), of exc_str between m]
  let ?row = "enqueued_row p job_id body"
  have row: "r_job_id ?row = job_id" "r_state ?row = ''queued''" "r_retry_count ?row = 0" by (simp_all add: enqueued_row_def)
  show ?thesis
  proof (cases "job_id \<in> r_job_id ` set t \<union> r_job_id ` set (between t)")
    case True
    have "response = already_exists job_id \<and> (t' = t \<or> t' = between t) \<and> m' = m"
      using eq [unfolded assms(12)] UnE [OF True] by (simp split: if_splits)
    then show ?thesis using True assms(4,5) by (auto simp only: already_exists_def if_True insert_iff)
  next
    case False
    then have r: "response = Body (record_to_response (row_to_record ?row))" "t' = between t @ [?row]"
      "m' = record_enqueue_result ACCEPTED m" using eq assms(12) by auto
    have d: "ids_distinct t'" using r(2) False assms(5) row(1) by (auto simp: ids_distinct_def)
    have "find (\<lambda>r. r_job_id r = job_id) t' = Some ?row" 
      unfolding r(2) by (rule find_snoc) (use False row(1) in auto)
    then have "api_get_job None exc_str p1 job_id t' = response"
      using get_job_find [OF assms(10) d assms(11), of job_id] r(1) by (simp add: api_get_job_def)
    then show ?thesis using False d r row by auto
  qed
qed

text \<open>
  C16: Cancel and retry follow the lifecycle when nothing interferes between their read and
  their write: an unknown job is 404 and a forbidden transition 409, both without a change;
  otherwise exactly the row of the job moves, to \<open>canceled\<close> or \<open>retry_scheduled\<close>, from a state
  from which \<open>can_transition\<close> allows it.
\<close>

theorem cancel_and_retry_follow_lifecycle:
  assumes "pg_documented p0" and "pg_fault p0 = None" and "pg_documented p" and "pg_fault p = None"
    and "ids_distinct t" and "\<forall>r \<in> set t. valid_state r"
    and "(endpoint = cancel_job \<and> target = CANCELED) \<or> (endpoint = retry_job \<and> target = RETRY_SCHEDULED)"
    and "endpoint None exc_str set_iter p0 (\<lambda>t. t) p job_id t = (response, t')"
  shows "(case find (\<lambda>r. r_job_id r = job_id) t of
       None \<Rightarrow> response = HttpError 404 (''Job '' @ py_repr job_id @ '' not found'') \<and> t' = t
     | Some r \<Rightarrow> (\<exists>s. r_state r = state_value s \<and>
         (if can_transition s target
          then (\<exists>msg. response = Body \<lparr>ms_message = msg, ms_job_id = job_id, ms_state = state_value target\<rparr>) \<and>
            t' = map (\<lambda>x. if r_job_id x = job_id then x\<lparr>r_state := state_value target, r_updated_at := pg_now p\<rparr> else x) t
          else response = HttpError 409 (explain_transition set_iter s target) \<and> t' = t)))"
proof -
  obtain what msg where e: "endpoint = move_job target what msg"
    using assms(7) unfolding cancel_job_def retry_job_def by blast
  note g = get_job_find [OF assms(1,5,2), of job_id]
  show ?thesis
  proof (cases "find (\<lambda>r. r_job_id r = job_id) t")
    case None
    then show ?thesis using assms(8) g by (auto simp: e move_job_def not_found_def)
  next
    case (Some r)
    then have r: "r \<in> set t" "r_job_id r = job_id" by (auto dest: find_Some_mem)
    then obtain s where s: "r_state r = state_value s" using assms(6) by (auto simp: valid_state_def)
    show ?thesis
    proof (cases "can_transition s target")
      case False
      then show ?thesis using assms(8) g Some s by (auto simp: e move_job_def parse_state_def simp del: state_value.simps)
    next
      case True
      have u: "update_job_state p job_id (state_value target) t =
        (Inr (Some (row_to_record (r\<lparr>r_state := state_value target, r_updated_at := pg_now p\<rparr>))),
         update_where (\<lambda>x. r_job_id x = job_id) (\<lambda>x. x\<lparr>r_state := state_value target, r_updated_at := pg_now p\<rparr>) t)"
        using update_ids_one [OF assms(3,5) r(1)] assms(4) r(2) by (simp add: update_job_state_def del: state_value.simps)
      show ?thesis
        using assms(8) g Some s True r(2) u
        by (auto simp: e move_job_def parse_state_def update_where_def simp del: state_value.simps)
    qed
  qed
qed

text \<open>
  C37: A cancel that races with a worker's success overwrites it. If the job is running when
  \<open>cancel_job\<close> reads it and its success is recorded before the cancel writes, the request is
  answered as a success and the row leaves the terminal state \<open>succeeded\<close> for \<open>canceled\<close>, which
  \<open>can_transition\<close> forbids: the update has no condition on the state that was checked.
\<close>

theorem cancel_race_overwrites_success:
  assumes "pg_documented p0" and "pg_fault p0 = None" and "pg_documented p1" and "pg_fault p1 = None"
    and "pg_documented p" and "pg_fault p = None" and "ids_distinct t" and "r \<in> set t" and "r_state r = state_value RUNNING"
    and "between = (\<lambda>t. snd (update_job_state_from_worker_result p1 (r_job_id r) (state_value SUCCEEDED) t))"
    and "cancel_job None exc_str set_iter p0 between p (r_job_id r) t = (response, t')"
  shows "response = Body \<lparr>ms_message = ''Job canceled'', ms_job_id = r_job_id r, ms_state = ''canceled''\<rparr> \<and>
     (\<forall>x \<in> set (between t). r_job_id x = r_job_id r \<longrightarrow> r_state x = state_value SUCCEEDED) \<and>
     (\<exists>x \<in> set t'. r_job_id x = r_job_id r \<and> r_state x = state_value CANCELED) \<and> \<not> can_transition SUCCEEDED CANCELED"
proof -
  let ?i = "r_job_id r"
  let ?r1 = "r\<lparr>r_state := state_value SUCCEEDED, r_updated_at := pg_now p1\<rparr>"
  have b: "between t = update_where (\<lambda>x. r_job_id x = ?i) (\<lambda>x. x\<lparr>r_state := state_value SUCCEEDED, r_updated_at := pg_now p1\<rparr>) t"
    using assms(4,10) update_ids_one [OF assms(3,7,8)] by (simp add: update_job_state_from_worker_result_def del: state_value.simps)
  have d: "ids_distinct (between t)" unfolding b using assms(7)
    by (simp add: ids_distinct_def update_where_def comp_def if_distrib cong: if_cong del: state_value.simps)
  have r1: "?r1 \<in> set (between t)" unfolding b update_where_def using assms(8) by (force simp del: state_value.simps)
  have f: "find (\<lambda>x. r_job_id x = ?i) t = Some r"
  proof -
    obtain y where y: "find (\<lambda>x. r_job_id x = ?i) t = Some y" using assms(8) find_id_None [of ?i t] by fastforce
    then have "y = r" using ids_distinct_eq [OF assms(7)] assms(8) by (auto dest: find_Some_mem)
    then show ?thesis using y by simp
  qed
  have u: "update_job_state p ?i (state_value CANCELED) (between t) =
    (Inr (Some (row_to_record (?r1\<lparr>r_state := state_value CANCELED, r_updated_at := pg_now p\<rparr>))),
     update_where (\<lambda>x. r_job_id x = ?i) (\<lambda>x. x\<lparr>r_state := state_value CANCELED, r_updated_at := pg_now p\<rparr>) (between t))"
    using update_ids_one [OF assms(5) d r1] assms(6) by (simp add: update_job_state_def del: state_value.simps)
  have can: "can_transition RUNNING CANCELED" "\<not> can_transition SUCCEEDED CANCELED"
    by (simp_all add: can_transition_def TERMINAL_STATES_def allowed_to_states_def ALLOWED_TRANSITIONS_def dict_get_def)
  have res: "response = Body \<lparr>ms_message = ''Job canceled'', ms_job_id = ?i, ms_state = state_value CANCELED\<rparr>"
    "t' = update_where (\<lambda>x. r_job_id x = ?i) (\<lambda>x. x\<lparr>r_state := state_value CANCELED, r_updated_at := pg_now p\<rparr>) (between t)"
    using assms(9,11) get_job_find [OF assms(1,7,2), of ?i] f u can
    by (auto simp: cancel_job_def move_job_def parse_state_def simp del: state_value.simps)
  have "?r1\<lparr>r_state := state_value CANCELED, r_updated_at := pg_now p\<rparr> \<in> set t'"
    unfolding res(2) update_where_def set_map by (rule rev_image_eqI [OF r1]) (simp del: state_value.simps)
  then have "\<exists>x \<in> set t'. r_job_id x = ?i \<and> r_state x = state_value CANCELED" by (rule bexI [rotated]) simp
  moreover have "\<forall>x \<in> set (between t). r_job_id x = ?i \<longrightarrow> r_state x = state_value SUCCEEDED"
    unfolding b update_where_def by (auto simp del: state_value.simps)
  ultimately show ?thesis using res(1) can(2) by simp
qed

lemma counts_printable:
  assumes "pg_documented p" "repo_inv t" "count_jobs_by_state p t = Inr counts"
  shows "counts_valid (map (\<lambda>(s, n). (s, SInt n)) counts)"
proof -
  have "counts = map (\<lambda>s. (s, int (count_list (map r_state t) s))) (remdups (map r_state (pg_scan p t)))"
    using assms(3) by (auto simp: count_jobs_by_state_def split: option.splits)
  moreover have "\<not> is_blank (r_state r)" if "r \<in> set t" for r
  proof -
    have "valid_state r" using assms(2) that by (simp add: repo_inv_def)
    then obtain s where "r_state r = state_value s" by (auto simp: valid_state_def)
    then show ?thesis by (cases s) (auto simp: is_blank_iff py_isspace_def)
  qed
  ultimately show ?thesis using scan_set [OF assms(1), of t] by (auto simp: counts_valid_def)
qed

text \<open>
  The Prometheus endpoint always answers. On any two tables that satisfy the repository's
  invariant (the two queries may see different ones), with a server that does not fail, the
  response is a body: no state is blank, no count and no percentile is negative, so none of the
  formatters raises.
\<close>

theorem prometheus_endpoint_answers:
  assumes "pg_documented p0" and "pg_fault p0 = None" and "repo_inv t0"
    and "pg_documented p" and "pg_fault p = None" and "repo_inv t"
  shows "\<exists>body. get_prometheus_job_metrics frepr None exc_str p0 p t0 t = Body body"
proof -
  obtain counts where c: "count_jobs_by_state p0 t0 = Inr counts" using assms(2) by (simp add: count_jobs_by_state_def)
  obtain jobs where j: "list_jobs p METRICS_JOB_LOAD_LIMIT t = Inr jobs" and n: "length jobs \<le> nat METRICS_JOB_LOAD_LIMIT"
    using assms(5) select_length [OF assms(4), of "\<lambda>r. True" r_created_at METRICS_JOB_LOAD_LIMIT t]
    by (simp add: list_jobs_def METRICS_JOB_LOAD_LIMIT_def)
  have "length (map view_of_record jobs) \<le> 2 ^ 40" using n by (simp add: METRICS_JOB_LOAD_LIMIT_def)
  from durations_print [OF this] obtain b2 where
    b2: "format_job_duration_metrics_for_prometheus frepr (compute_job_duration_metrics (map view_of_record jobs)) = Inr b2" by blast
  have "counts_valid (sort_key fst (map (\<lambda>(s, n). (s, SInt n)) counts))"
    using counts_printable [OF assms(1,3) c] by (simp add: counts_valid_sort)
  then obtain b1 where b1: "format_job_state_counts_for_prometheus frepr (map (\<lambda>(s, n). (s, SInt n)) counts) = Inr b1"
    by (auto simp: format_job_state_counts_for_prometheus_def bind_res_eq_Inr state_lines_Inr)
  obtain b3 where b3: "format_result_consumer_metrics frepr (SInt 0) (SInt 0) = Inr b3"
    by (simp add: format_result_consumer_metrics_def validate_non_negative_int_def)
  show ?thesis unfolding get_prometheus_job_metrics_def using c j b1 b2 b3 by simp
qed

section \<open>Witnesses\<close>

definition demo_request :: enqueue_request where
  "demo_request = \<lparr>rq_tenant_id = ''t'', rq_priority = 5, rq_payload = None, rq_max_retries = None\<rparr>"

theorem enqueue_creates_once_witness:
  "let (response, t', m') = enqueue_job None (\<lambda>_. []) (demo_pg 1 []) (\<lambda>t. t @ [demo_row ''b'' 1 QUEUED 0 None]) (demo_pg 2 []) ''a''
        demo_request ([], metrics_init)
   in ids_distinct t' \<and> enqueue_accepted_count m' = 1 \<and> response = api_get_job None (\<lambda>_. []) (demo_pg 3 []) ''a'' t'"
proof -
  let ?between = "\<lambda>t. t @ [demo_row ''b'' 1 QUEUED 0 None]"
  obtain response t' m' where e: "enqueue_job None (\<lambda>_. []) (demo_pg 1 []) ?between (demo_pg 2 []) ''a'' demo_request
      ([], metrics_init) = (response, t', m')" by (metis prod_cases3)
  have h: "ids_distinct []" "ids_distinct (?between [])" "request_valid ''a'' demo_request" "\<not> is_blank (rq_tenant_id demo_request)"
    "in_int4 (rq_priority demo_request)" "in_int4 (case rq_max_retries demo_request of Some n \<Rightarrow> n | None \<Rightarrow> 3)"
    by (simp_all add: ids_distinct_def request_valid_def demo_request_def is_blank_iff py_isspace_def in_int4_def)
  have i: "r_job_id (demo_row ''b'' 1 QUEUED 0 None) = ''b''" by (simp add: demo_row_def)
  show ?thesis
    using enqueue_creates_once [OF demo_pg_documented(1) demo_pg_documented(2) demo_pg_documented(2) h demo_pg_documented(1) [of 3 "[]"]
        demo_pg_documented(2) e] e
    by (auto simp: i metrics_init_def)
qed

theorem cancel_and_retry_follow_lifecycle_witness:
  "let (response, t') = cancel_job None (\<lambda>_. []) (\<lambda>_. []) (demo_pg 1 []) (\<lambda>t. t) (demo_pg 2 []) ''a'' [demo_row ''a'' 1 QUEUED 0 None]
   in map r_state t' = [''canceled'']"
proof -
  let ?r = "demo_row ''a'' 1 QUEUED 0 None"
  obtain response t' where e: "cancel_job None (\<lambda>_. []) (\<lambda>_. []) (demo_pg 1 []) (\<lambda>t. t) (demo_pg 2 []) ''a'' [?r] = (response, t')"
    by fastforce
  have h: "ids_distinct [?r]" "\<forall>r \<in> set [?r]. valid_state r" "r_job_id ?r = ''a''" "r_state ?r = state_value QUEUED"
    by (auto simp: ids_distinct_def valid_state_def demo_row_def intro: range_eqI [of _ _ QUEUED])
  have can: "can_transition QUEUED CANCELED"
    by (simp add: can_transition_def TERMINAL_STATES_def allowed_to_states_def ALLOWED_TRANSITIONS_def dict_get_def)
  have t: "(cancel_job = cancel_job \<and> CANCELED = CANCELED) \<or> (cancel_job = retry_job \<and> CANCELED = RETRY_SCHEDULED)" by simp
  have "\<exists>s. state_value QUEUED = state_value s \<and> (if can_transition s CANCELED then
      t' = [?r\<lparr>r_state := state_value CANCELED, r_updated_at := pg_now (demo_pg 2 [])\<rparr>] else t' = [?r])"
    using cancel_and_retry_follow_lifecycle [where endpoint = cancel_job and target = CANCELED, OF demo_pg_documented(1) demo_pg_documented(2) demo_pg_documented(1) demo_pg_documented(2)
        h(1,2) t e] h(3,4)
    by (auto simp del: state_value.simps split: if_splits)
  then show ?thesis using e can by (simp del: state_value.simps) simp
qed

theorem cancel_race_overwrites_success_witness:
  "let t = [demo_row ''a'' 1 RUNNING 0 None];
       between = (\<lambda>t. snd (update_job_state_from_worker_result (demo_pg 2 []) ''a'' (state_value SUCCEEDED) t));
       (response, t') = cancel_job None (\<lambda>_. []) (\<lambda>_. []) (demo_pg 1 []) between (demo_pg 3 []) ''a'' t
   in \<exists>x \<in> set t'. r_state x = state_value CANCELED"
proof -
  let ?r = "demo_row ''a'' 1 RUNNING 0 None"
  let ?b = "\<lambda>t. snd (update_job_state_from_worker_result (demo_pg 2 []) (r_job_id ?r) (state_value SUCCEEDED) t)"
  obtain response t' where e: "cancel_job None (\<lambda>_. []) (\<lambda>_. []) (demo_pg 1 []) ?b (demo_pg 3 []) (r_job_id ?r) [?r] = (response, t')"
    by fastforce
  have h: "ids_distinct [?r]" "?r \<in> set [?r]" "r_state ?r = state_value RUNNING" "r_job_id ?r = ''a''"
    by (simp_all add: ids_distinct_def demo_row_def)
  show ?thesis
    using cancel_race_overwrites_success [OF demo_pg_documented(1) demo_pg_documented(2) demo_pg_documented(1) demo_pg_documented(2)
        demo_pg_documented(1) demo_pg_documented(2) h(1-3) refl e] e unfolding h(4) Let_def by auto
qed

theorem prometheus_endpoint_answers_witness:
  "\<exists>body. get_prometheus_job_metrics (\<lambda>_. ''0.0'') None (\<lambda>_. []) (demo_pg 1 []) (demo_pg 1 [])
     [demo_row ''a'' 1 QUEUED 0 None] [demo_row ''a'' 1 QUEUED 0 None] = Body body"
proof -
  have "repo_inv [demo_row ''a'' 1 QUEUED 0 None]"
    by (auto simp: repo_inv_def ids_distinct_def valid_state_def demo_row_def in_int4_def intro: range_eqI [of _ _ QUEUED])
  then show ?thesis by (intro prometheus_endpoint_answers) simp_all
qed

end
