(* ===== verification/Control_Plane_System.thy ===== *)
theory Control_Plane_System
  imports Control_Plane_Api Dispatch_Pipeline Result_Consumer
begin

text \<open>
  The whole control plane as a labelled transition system. The processes of the program (API
  requests, scheduler ticks, retry scans, the result consumer, the operator's replay of dead
  letters) share the \<open>jobs\<close> table and run in any order; each step is one call of the code, with
  the server's choices free. While an API request is between its read and its write, other
  transactions may run (\<open>ops\<close>). The consumer's handler is \<open>recording\<close>: the label of a delivery is the
  clock reading of its claim and the events on which \<open>process_message\<close> called the handler.
\<close>

record 'k sys_config =
  sc_frepr :: "py_float \<Rightarrow> string"
  sc_wide :: "nat \<Rightarrow> string"
  sc_ext :: "exc \<Rightarrow> string"
  sc_set_iter :: "job_state set \<Rightarrow> job_state list"
  sc_publish :: "'k publisher"
  sc_clock :: "nat \<Rightarrow> py_float"
  sc_dispatch_ttl :: int
  sc_result_ttl :: int

text \<open>The result consumer's claims are numbered, as the ticks' are; both clocks are the same function of the number.\<close>

record 'k system =
  sy_table :: jobs_table
  sy_metrics :: scheduler_metrics
  sy_tick :: "(mem_store, 'k) tick_state"
  sy_runner :: "(mem_store, jobs_table \<times> worker_result list) runner"
  sy_reads :: nat

definition system_init :: "'k \<Rightarrow> 'k system" where
  "system_init k =
     \<lparr>sy_table = [], sy_metrics = metrics_init, sy_tick = tick_state_init mem_init k,
      sy_runner = runner_init mem_init ([], []), sy_reads = 0\<rparr>"

datatype label = Quiet | Delivered py_float "worker_result list"

inductive sys_step :: "'k sys_config \<Rightarrow> 'k system \<Rightarrow> label \<Rightarrow> 'k system \<Rightarrow> bool" for cfg where
  enqueue: "enqueue_job conn (sc_ext cfg) p0 (run_ops ops) p job_id body (sy_table s, sy_metrics s) = (response, t', m') \<Longrightarrow>
    sys_step cfg s Quiet (s\<lparr>sy_table := t', sy_metrics := m'\<rparr>)"
| cancel: "cancel_job conn (sc_ext cfg) (sc_set_iter cfg) p0 (run_ops ops) p job_id (sy_table s) = (response, t') \<Longrightarrow>
    sys_step cfg s Quiet (s\<lparr>sy_table := t'\<rparr>)"
| retry: "retry_job conn (sc_ext cfg) (sc_set_iter cfg) p0 (run_ops ops) p job_id (sy_table s) = (response, t') \<Longrightarrow>
    sys_step cfg s Quiet (s\<lparr>sy_table := t'\<rparr>)"
| replay: "requeue_dead_lettered_job p job_id (sy_table s) = (replayed, t') \<Longrightarrow> sys_step cfg s Quiet (s\<lparr>sy_table := t'\<rparr>)"
| scan: "scanner_run_once (sc_ext cfg) True limit p clock now (sy_table s) = (result, t') \<Longrightarrow>
    sys_step cfg s Quiet (s\<lparr>sy_table := t'\<rparr>)"
| tick: "tick_run_once (sc_frepr cfg) (sc_ext cfg) mem_try_claim (sc_dispatch_ttl cfg) (Some (sc_publish cfg)) (sc_clock cfg) p limit
      (sy_table s, sy_tick s) = (result, t', st') \<Longrightarrow>
    sys_step cfg s Quiet (s\<lparr>sy_table := t', sy_tick := st'\<rparr>)"
| deliver: "process_message (sc_frepr cfg) (sc_wide cfg) mem_try_claim (sc_result_ttl cfg) (Some (recording (handle_result True p wall)))
      (sc_clock cfg (sy_reads s)) v ((sy_runner s)\<lparr>rn_handler := (sy_table s, [])\<rparr>) = (e, rn') \<Longrightarrow>
    sys_step cfg s (Delivered (sc_clock cfg (sy_reads s)) (snd (rn_handler rn')))
      (s\<lparr>sy_table := fst (rn_handler rn'), sy_runner := rn', sy_reads := Suc (sy_reads s)\<rparr>)"

inductive sys_run :: "'k sys_config \<Rightarrow> 'k system \<Rightarrow> label list \<Rightarrow> 'k system \<Rightarrow> bool" for cfg where
  start: "sys_run cfg s [] s"
| step: "sys_run cfg s ls s1 \<Longrightarrow> sys_step cfg s1 l s2 \<Longrightarrow> sys_run cfg s (ls @ [l]) s2"

section \<open>Every step acts on the table through repository operations\<close>

definition table_reaches :: "jobs_table \<Rightarrow> jobs_table \<Rightarrow> bool" where
  "table_reaches t t' \<longleftrightarrow> (\<exists>ops. t' = run_ops ops t)"

lemma run_ops_append: "run_ops (xs @ ys) t = run_ops ys (run_ops xs t)"
  by (simp add: run_ops_def)

lemma reaches_refl [intro, simp]: "table_reaches t t"
  unfolding table_reaches_def by (intro exI [of _ "[]"]) simp

lemma reaches_op: "table_reaches t (repo_apply op t)"
  unfolding table_reaches_def by (intro exI [of _ "[op]"]) simp

lemma reaches_ops: "table_reaches t (run_ops ops t)"
  unfolding table_reaches_def by blast

lemma reaches_trans: "table_reaches t u \<Longrightarrow> table_reaches u v \<Longrightarrow> table_reaches t v"
  unfolding table_reaches_def by (metis run_ops_append)

lemma reaches_then: "table_reaches t (repo_apply op (run_ops ops t))"
  by (rule reaches_trans [OF reaches_ops reaches_op])

lemma enqueue_reaches:
  assumes "enqueue_job conn exc_str p0 (run_ops ops) p job_id body (t, m) = (response, t', m')"
  shows "table_reaches t t'"
proof -
  let ?create = "create_job p job_id (rq_tenant_id body) (rq_priority body) (state_value QUEUED)
      (Some (case rq_payload body of Some d \<Rightarrow> d | None \<Rightarrow> [])) (case rq_max_retries body of Some n \<Rightarrow> n | None \<Rightarrow> 3) (run_ops ops t)"
  have "t' = t \<or> t' = snd ?create"
    using assms unfolding enqueue_job_def Let_def
    by (auto simp del: state_value.simps split: if_splits option.splits sum.splits prod.splits exc.splits)
  moreover have "table_reaches t (snd ?create)"
    using reaches_then [of t "CreateJob p job_id (rq_tenant_id body) (rq_priority body) QUEUED
      (Some (case rq_payload body of Some d \<Rightarrow> d | None \<Rightarrow> [])) (case rq_max_retries body of Some n \<Rightarrow> n | None \<Rightarrow> 3)" ops] by simp
  ultimately show ?thesis by auto
qed

lemma move_reaches:
  assumes "move_job target what msg conn exc_str set_iter p0 (run_ops ops) p job_id t = (response, t')"
  shows "table_reaches t t'"
proof -
  have "t' = t \<or> t' = snd (update_job_state p job_id (state_value target) (run_ops ops t))"
    using assms unfolding move_job_def
    by (auto simp del: state_value.simps split: if_splits option.splits sum.splits prod.splits)
  moreover have "table_reaches t (snd (update_job_state p job_id (state_value target) (run_ops ops t)))"
    using reaches_then [of t "UpdateState p job_id target" ops] by simp
  ultimately show ?thesis by auto
qed

lemma handle_reaches: "table_reaches t (snd (handle_result True p wall ev t))"
proof (cases "we_status ev = ''retryable_failure''")
  case True
  have "snd (handle_result True p wall ev t) = repo_apply (ScheduleRetry p wall (we_job_id ev) DEFAULT_RETRY_DELAY_SECONDS) t"
    using True by (auto simp: handle_result_def split: sum.splits option.splits prod.splits)
  then show ?thesis using reaches_op by metis
next
  case False
  then have "snd (handle_result True p wall ev t) \<in>
      {t, repo_apply (WorkerState p (we_job_id ev) SUCCEEDED) t, repo_apply (WorkerState p (we_job_id ev) FAILED) t}"
    by (auto simp: handle_result_def map_result_status_to_job_state_def split: sum.splits option.splits prod.splits if_splits)
  then show ?thesis by (elim insertE emptyE) (metis reaches_refl reaches_op)+
qed

lemma deliver_reaches:
  assumes "process_message frepr wide mem_try_claim ttl (Some (recording (handle_result True p wall))) now v rn = (e, rn')"
  shows "table_reaches (fst (rn_handler rn)) (fst (rn_handler rn'))"
proof -
  have "rn_handler rn' = rn_handler rn \<or> (\<exists>ev. rn_handler rn' = snd (recording (handle_result True p wall) ev (rn_handler rn)))"
    using assms unfolding process_message_def
    by (auto split: sum.splits option.splits prod.splits bool.splits) (metis snd_conv)+
  moreover have "fst (snd (recording (handle_result True p wall) ev (t, calls))) = snd (handle_result True p wall ev t)" for ev t calls
    by (simp add: recording_def split: prod.split)
  ultimately show ?thesis using handle_reaches by (cases "rn_handler rn") auto
qed

lemma sys_step_table: "sys_step cfg s l s' \<Longrightarrow> table_reaches (sy_table s) (sy_table s')"
proof (induction rule: sys_step.induct)
  case (enqueue conn p0 ops p job_id body s response t' m')
  then show ?case by (simp add: enqueue_reaches)
next
  case (cancel conn p0 ops p job_id s response t')
  then show ?case by (simp add: cancel_job_def move_reaches)
next
  case (retry conn p0 ops p job_id s response t')
  then show ?case by (simp add: retry_job_def move_reaches)
next
  case (replay p job_id s replayed t')
  then show ?case using reaches_op [of "sy_table s" "ReplayDeadLetter p job_id"] by simp
next
  case (scan limit p clock now s result t')
  let ?now = "case now of None \<Rightarrow> py_int_of_float clock | Some n \<Rightarrow> n"
  have "t' = repo_apply (RequeueDue p ?now limit) (sy_table s)"
    using scan unfolding scanner_run_once_def Let_def by (auto split: prod.splits sum.splits)
  then have "table_reaches (sy_table s) t'" by (metis reaches_op)
  then show ?case by simp
next
  case (tick p limit s result t' st')
  have "t' = repo_apply (ClaimJobs p limit) (sy_table s)"
    using tick unfolding tick_run_once_def by (auto split: prod.splits sum.splits option.splits)
  then have "table_reaches (sy_table s) t'" by (metis reaches_op)
  then show ?case by simp
next
  case (deliver p wall s v e rn')
  then show ?case using deliver_reaches [OF deliver] by simp
qed

lemma sys_run_table: "sys_run cfg s ls s' \<Longrightarrow> table_reaches (sy_table s) (sy_table s')"
  by (induction rule: sys_run.induct) (auto intro: reaches_trans sys_step_table)

section \<open>Ledgers of the two stores\<close>

text \<open>The calls of the handler in a run, each with the clock reading of its delivery.\<close>

definition applied :: "label list \<Rightarrow> (py_float \<times> worker_result) list" where
  "applied ls = concat (map (\<lambda>l. case l of Quiet \<Rightarrow> [] | Delivered now events \<Rightarrow> map (Pair now) events) ls)"

definition applied_claims :: "int \<Rightarrow> label list \<Rightarrow> py_float claim list" where
  "applied_claims ttl ls = map (\<lambda>(now, ev). (result_key ev, ttl, now)) (applied ls)"

lemma applied_claims_append [simp]: "applied_claims ttl (ls @ ls') = applied_claims ttl ls @ applied_claims ttl ls'"
  by (simp add: applied_claims_def applied_def)

lemma applied_claims_simps [simp]:
  "applied_claims ttl [] = []" "applied_claims ttl [Quiet] = []"
  "applied_claims ttl [Delivered now events] = map (\<lambda>ev. (result_key ev, ttl, now)) events"
  by (simp_all add: applied_claims_def applied_def)

text \<open>Of the store of the result consumer: it holds the applied results, and these keep apart.\<close>

definition result_ledger :: "'k sys_config \<Rightarrow> label list \<Rightarrow> 'k system \<Rightarrow> bool" where
  "result_ledger cfg ls s \<longleftrightarrow>
     (\<forall>t k. sc_clock cfg (sy_reads s) \<le> t \<longrightarrow>
        mem_live (rn_store (sy_runner s)) t k = held float_add_int (applied_claims (sc_result_ttl cfg) ls) t k) \<and>
     claims_apart float_add_int (sc_result_ttl cfg) (snd \<circ> snd) fst (applied_claims (sc_result_ttl cfg) ls)"

lemma claims_apart_snoc:
  "claims_apart deadline ttl (snd \<circ> snd) fst xs \<Longrightarrow> \<forall>x \<in> set xs. fst (snd x) = ttl \<Longrightarrow> \<not> held deadline xs now k \<Longrightarrow>
   claims_apart deadline ttl (snd \<circ> snd) fst (xs @ [(k, ttl, now)])"
  by (fastforce simp: claims_apart_def sorted_wrt_append held_def not_less)

lemma applied_ttl: "\<forall>x \<in> set (applied_claims ttl ls). fst (snd x) = ttl"
  by (auto simp: applied_claims_def)

lemma deliver_ledger:
  assumes "mono (sc_clock cfg)" "0 < sc_result_ttl cfg" "result_ledger cfg ls s"
    and "process_message (sc_frepr cfg) (sc_wide cfg) mem_try_claim (sc_result_ttl cfg) (Some (recording handle))
      (sc_clock cfg (sy_reads s)) v ((sy_runner s)\<lparr>rn_handler := (t0, [])\<rparr>) = (e, rn')"
    and "l = Delivered (sc_clock cfg (sy_reads s)) (snd (rn_handler rn'))"
  shows "result_ledger cfg (ls @ [l]) (s\<lparr>sy_table := t', sy_runner := rn', sy_reads := Suc (sy_reads s)\<rparr>)"
proof -
  let ?now = "sc_clock cfg (sy_reads s)" and ?g = "applied_claims (sc_result_ttl cfg) ls"
  let ?rn = "(sy_runner s)\<lparr>rn_handler := (t0, [])\<rparr>"
  have live: "mem_live (rn_store (sy_runner s)) t k = held float_add_int ?g t k" if "?now \<le> t" for t k
    using assms(3) that by (simp add: result_ledger_def)
  have apart: "claims_apart float_add_int (sc_result_ttl cfg) (snd \<circ> snd) fst ?g" using assms(3) by (simp add: result_ledger_def)
  have later: "?now \<le> t" if "sc_clock cfg (Suc (sy_reads s)) \<le> t" for t
    using that assms(1) by (meson le_SucI monoD order_refl order_trans)
  show ?thesis
  proof (cases "accept (sc_frepr cfg) (sc_wide cfg) (?now, v, recording handle)")
    case None
    then have "rn' = ?rn" using process_rejected [OF None] assms(4) by (metis prod.inject)
    then show ?thesis using None assms(5) live later apart by (simp add: result_ledger_def)
  next
    case (Some d)
    have now: "ac_now d = ?now" by (rule acceptE [OF Some])
    have valid: "validate_claim_inputs (ac_key d) (sc_result_ttl cfg) = None" by (rule accept_key_valid [OF Some assms(2)])
    let ?h = "held float_add_int ?g ?now (ac_key d)"
    obtain s' where c: "mem_try_claim (rn_store (sy_runner s)) ?now (ac_key d) (sc_result_ttl cfg) = (Inr (\<not> ?h), s')"
      and l': "\<And>t k. ?now \<le> t \<Longrightarrow> mem_live s' t k =
        held float_add_int (if ?h then ?g else (ac_key d, sc_result_ttl cfg, ?now) # ?g) t k"
      using mem.claim_next [OF live valid] by blast
    have "rn_store rn' = s' \<and> snd (rn_handler rn') = (if ?h then [] else [ac_event d])"
    proof (cases ?h)
      case True
      then have "mem_try_claim (rn_store ?rn) ?now (ac_key d) (sc_result_ttl cfg) = (Inr False, s')" using c by simp
      from process_refused [where claim = mem_try_claim, OF Some this] show ?thesis using assms(4) True by auto
    next
      case False
      then have "mem_try_claim (rn_store ?rn) ?now (ac_key d) (sc_result_ttl cfg) = (Inr True, s')" using c by simp
      moreover obtain e2 t2 where "handle (ac_event d) t0 = (e2, t2)" by fastforce
      then have "recording handle (ac_event d) (rn_handler ?rn) = (e2, (t2, [ac_event d]))" by (simp add: recording_def)
      ultimately show ?thesis using process_granted [where claim = mem_try_claim and rn = ?rn, OF Some] assms(4) False by auto
    qed
    then have rn: "rn_store rn' = s'" and calls: "snd (rn_handler rn') = (if ?h then [] else [ac_event d])" by auto
    have l: "applied_claims (sc_result_ttl cfg) (ls @ [l]) = (if ?h then ?g else ?g @ [(ac_key d, sc_result_ttl cfg, ?now)])"
      unfolding assms(5) calls by (simp add: accept_result_key [OF Some])
    have "claims_apart float_add_int (sc_result_ttl cfg) (snd \<circ> snd) fst (applied_claims (sc_result_ttl cfg) (ls @ [l]))"
      unfolding l using apart claims_apart_snoc [OF apart applied_ttl] by (cases ?h) simp_all
    moreover have "mem_live s' t k = held float_add_int (applied_claims (sc_result_ttl cfg) (ls @ [l])) t k" if "?now \<le> t" for t k
      unfolding l using l' [OF that, of k] by (cases ?h) (simp_all add: held_append held_def)
    ultimately show ?thesis using later by (simp add: result_ledger_def rn)
  qed
qed

lemma sys_run_result_ledger:
  assumes "sys_run cfg (system_init k) ls s" "mono (sc_clock cfg)" "0 < sc_result_ttl cfg"
  shows "result_ledger cfg ls s"
  using assms(1)
proof (induction "system_init k" ls s rule: sys_run.induct)
  case start
  then show ?case by (simp add: result_ledger_def system_init_def runner_init_def held_def claims_apart_def)
next
  case (step ls s1 l s2)
  from step(3) show ?case
  proof (cases rule: sys_step.cases)
    case (deliver p wall v e rn')
    then show ?thesis using deliver_ledger [OF assms(2,3) step(2), of "handle_result True p wall" v "sy_table s1" e rn'] by simp
  qed (use step(2) in \<open>auto simp: result_ledger_def\<close>)
qed

text \<open>Of the store of the ticks: what was published keeps apart.\<close>

definition dispatch_ledger :: "'k sys_config \<Rightarrow> 'k \<Rightarrow> 'k system \<Rightarrow> bool" where
  "dispatch_ledger cfg k s \<longleftrightarrow> (\<exists>ds. tk_producer (sy_tick s) = publish_all (sc_publish cfg) ds k \<and>
     claims_apart float_add_int (sc_dispatch_ttl cfg) (\<lambda>(n, job). sc_clock cfg n) (\<lambda>(n, job). job_key job) ds \<and>
     (\<forall>t k. sc_clock cfg (tk_reads (sy_tick s)) \<le> t \<longrightarrow> mem_live (tk_store (sy_tick s)) t k =
        held float_add_int (map (\<lambda>(n, job). (job_key job, sc_dispatch_ttl cfg, sc_clock cfg n)) ds) t k))"

lemma sys_run_dispatch_ledger:
  assumes "sys_run cfg (system_init k) ls s" "mono (sc_clock cfg)" "0 < sc_dispatch_ttl cfg"
  shows "dispatch_ledger cfg k s"
  using assms(1)
proof (induction "system_init k" ls s rule: sys_run.induct)
  case start
  then show ?case
    unfolding dispatch_ledger_def
    by (intro exI [of _ "[]"]) (simp add: system_init_def tick_state_init_def held_def claims_apart_def)
next
  case (step ls s1 l s2)
  from step(3) show ?case
  proof (cases rule: sys_step.cases)
    case (tick p limit result t' st')
    note t = tick(3)
    obtain ds where ds: "tk_producer (sy_tick s1) = publish_all (sc_publish cfg) ds k"
      "claims_apart float_add_int (sc_dispatch_ttl cfg) (\<lambda>(n, job). sc_clock cfg n) (\<lambda>(n, job). job_key job) ds"
      and live: "\<And>t k. sc_clock cfg (tk_reads (sy_tick s1)) \<le> t \<Longrightarrow> mem_live (tk_store (sy_tick s1)) t k =
        held float_add_int (map (\<lambda>(n, job). (job_key job, sc_dispatch_ttl cfg, sc_clock cfg n)) ds) t k"
      using step(2) unfolding dispatch_ledger_def by blast
    obtain es where es: "tk_producer st' = publish_all (sc_publish cfg) es (tk_producer (sy_tick s1))"
      "claims_free float_add_int (\<lambda>(n, job). sc_clock cfg n) (\<lambda>(n, job). job_key job)
        (map (\<lambda>(n, job). (job_key job, sc_dispatch_ttl cfg, sc_clock cfg n)) ds) es"
      "claims_apart float_add_int (sc_dispatch_ttl cfg) (\<lambda>(n, job). sc_clock cfg n) (\<lambda>(n, job). job_key job) es"
      and live': "\<And>t k. sc_clock cfg (tk_reads st') \<le> t \<Longrightarrow> mem_live (tk_store st') t k = held float_add_int
        (map (\<lambda>(n, job). (job_key job, sc_dispatch_ttl cfg, sc_clock cfg n)) es @
         map (\<lambda>(n, job). (job_key job, sc_dispatch_ttl cfg, sc_clock cfg n)) ds) t k"
      using mem.tick_ledger [OF assms(2,3) live t] by blast
    have "claims_apart float_add_int (sc_dispatch_ttl cfg) (\<lambda>(n, job). sc_clock cfg n) (\<lambda>(n, job). job_key job) (ds @ es)"
      using ledger_append [of float_add_int "sc_dispatch_ttl cfg" "sc_clock cfg" ds es "[]"] ds(2) es(2,3)
      by (simp add: claims_free_def held_def)
    then show ?thesis
      unfolding dispatch_ledger_def tick(2) using ds es live'
      by (intro exI [of _ "ds @ es"]) (auto simp: held_append)
  qed (use step(2) in \<open>auto simp: dispatch_ledger_def\<close>)
qed

section \<open>Properties\<close>

text \<open>
  C2: The system's invariant. In every state the control plane can reach, by API requests that
  race with other transactions, ticks, scans, result deliveries and replays in any order and
  with any database behaviour: job ids are unique, states are lifecycle states, retry counts lie
  between zero and their budget, and priorities fit their column. Moreover the table is always
  one that a sequence of repository operations produces from the empty one.
\<close>

theorem system_invariant:
  assumes "sys_run cfg (system_init k) ls s"
  shows "distinct (map r_job_id (sy_table s)) \<and>
     (\<forall>r \<in> set (sy_table s). (\<exists>st. r_state r = state_value st) \<and> 0 \<le> r_retry_count r \<and> r_retry_count r \<le> r_max_retries r \<and>
        0 \<le> r_priority r \<and> r_priority r < 2 ^ 31) \<and>
     (\<exists>ops. sy_table s = run_ops ops [])"
proof -
  obtain ops where ops: "sy_table s = run_ops ops []"
    using sys_run_table [OF assms] by (auto simp: table_reaches_def system_init_def)
  have "repo_inv []" by (simp add: repo_inv_def ids_distinct_def)
  then have "repo_inv (sy_table s)" unfolding ops by (rule run_ops_inv)
  then show ?thesis using ops by (auto simp: repo_inv_def ids_distinct_def in_int4_def valid_state_def)
qed

text \<open>
  C1: End-to-end duplicate suppression. In every run of the whole system, whatever is
  redelivered and however the processes interleave: two calls of the result handler on events of
  one job and attempt are at least the result time-to-live apart (so no delivery calls it twice),
  and the events handed to the Kafka producer are those of a list of claimed jobs in which two
  entries of one job and retry count are at least the dispatch time-to-live apart.
\<close>

theorem system_suppresses_duplicates:
  assumes "sys_run cfg (system_init k) ls s" and "mono (sc_clock cfg)"
    and "0 < sc_result_ttl cfg" and "0 < sc_dispatch_ttl cfg"
  shows "(\<forall>i j now ev now' ev'. i < j \<and> j < length (applied ls) \<and> applied ls ! i = (now, ev) \<and> applied ls ! j = (now', ev') \<and>
        worker_result_key (ArgStr (we_job_id ev)) (we_attempt ev) = worker_result_key (ArgStr (we_job_id ev')) (we_attempt ev') \<longrightarrow>
        float_add_int now (sc_result_ttl cfg) \<le> now') \<and>
     (\<exists>ds. tk_producer (sy_tick s) = publish_all (sc_publish cfg) ds k \<and>
        (\<forall>i j. i < j \<and> j < length ds \<and> py_strip (jr_job_id (snd (ds ! i))) = py_strip (jr_job_id (snd (ds ! j))) \<and>
           jr_retry_count (snd (ds ! i)) = jr_retry_count (snd (ds ! j)) \<longrightarrow>
           float_add_int (sc_clock cfg (fst (ds ! i))) (sc_dispatch_ttl cfg) \<le> sc_clock cfg (fst (ds ! j))))"
proof
  let ?as = "applied ls"
  have "claims_apart float_add_int (sc_result_ttl cfg) (snd \<circ> snd) fst (applied_claims (sc_result_ttl cfg) ls)"
    using sys_run_result_ledger [OF assms(1-3)] by (simp add: result_ledger_def)
  then have apart: "sorted_wrt (\<lambda>(now, ev) (now', ev'). result_key ev = result_key ev' \<longrightarrow> float_add_int now (sc_result_ttl cfg) \<le> now') ?as"
    unfolding claims_apart_def applied_claims_def sorted_wrt_map by (simp add: case_prod_beta')
  have "float_add_int now (sc_result_ttl cfg) \<le> now'"
    if "i < j \<and> j < length ?as \<and> ?as ! i = (now, ev) \<and> ?as ! j = (now', ev') \<and>
      worker_result_key (ArgStr (we_job_id ev)) (we_attempt ev) = worker_result_key (ArgStr (we_job_id ev')) (we_attempt ev')"
    for i j now ev now' ev'
    using sorted_wrt_nth_less [OF apart, of i j] that by (simp add: result_key_def)
  then show "\<forall>i j now ev now' ev'. i < j \<and> j < length ?as \<and> ?as ! i = (now, ev) \<and> ?as ! j = (now', ev') \<and>
      worker_result_key (ArgStr (we_job_id ev)) (we_attempt ev) = worker_result_key (ArgStr (we_job_id ev')) (we_attempt ev') \<longrightarrow>
      float_add_int now (sc_result_ttl cfg) \<le> now'" by blast
  obtain ds where p: "tk_producer (sy_tick s) = publish_all (sc_publish cfg) ds k"
    and a: "claims_apart float_add_int (sc_dispatch_ttl cfg) (\<lambda>(n, job). sc_clock cfg n) (\<lambda>(n, job). job_key job) ds"
    using sys_run_dispatch_ledger [OF assms(1,2,4)] by (auto simp: dispatch_ledger_def)
  have "float_add_int (sc_clock cfg (fst (ds ! i))) (sc_dispatch_ttl cfg) \<le> sc_clock cfg (fst (ds ! j))"
    if "i < j \<and> j < length ds \<and> py_strip (jr_job_id (snd (ds ! i))) = py_strip (jr_job_id (snd (ds ! j))) \<and>
      jr_retry_count (snd (ds ! i)) = jr_retry_count (snd (ds ! j))" for i j
    using sorted_wrt_nth_less [OF a [unfolded claims_apart_def], of i j] that by (simp add: case_prod_beta job_key_def)
  then show "\<exists>ds. tk_producer (sy_tick s) = publish_all (sc_publish cfg) ds k \<and>
      (\<forall>i j. i < j \<and> j < length ds \<and> py_strip (jr_job_id (snd (ds ! i))) = py_strip (jr_job_id (snd (ds ! j))) \<and>
         jr_retry_count (snd (ds ! i)) = jr_retry_count (snd (ds ! j)) \<longrightarrow>
         float_add_int (sc_clock cfg (fst (ds ! i))) (sc_dispatch_ttl cfg) \<le> sc_clock cfg (fst (ds ! j)))"
    using p by blast
qed

section \<open>Witnesses\<close>

definition demo_config :: "string list sys_config" where
  "demo_config =
     \<lparr>sc_frepr = (\<lambda>_. []), sc_wide = (\<lambda>_. []), sc_ext = (\<lambda>_. []), sc_set_iter = (\<lambda>_. []), sc_publish = demo_publish,
      sc_clock = demo_clock, sc_dispatch_ttl = 10, sc_result_ttl = 10\<rparr>"

lemma run_one: "sys_step cfg s l s' \<Longrightarrow> sys_run cfg s [l] s'"
  using sys_run.step [OF sys_run.start] by fastforce

theorem system_invariant_witness:
  "\<exists>s. sys_run demo_config (system_init []) [Quiet] s \<and> map r_job_id (sy_table s) = [''a''] \<and> (\<exists>ops. sy_table s = run_ops ops [])"
proof -
  let ?p = "demo_pg 1 []" and ?s = "system_init [] :: string list system"
  obtain response t' m' where e: "enqueue_job None (sc_ext demo_config) ?p (run_ops []) ?p ''a'' demo_request (sy_table ?s, sy_metrics ?s) =
      (response, t', m')" by (metis prod_cases3)
  have "ids_distinct []" "request_valid ''a'' demo_request" "\<not> is_blank (rq_tenant_id demo_request)"
    "in_int4 (rq_priority demo_request)" "in_int4 (case rq_max_retries demo_request of Some n \<Rightarrow> n | None \<Rightarrow> 3)"
    by (simp_all add: ids_distinct_def request_valid_def demo_request_def is_blank_iff py_isspace_def in_int4_def)
  from enqueue_eq [OF demo_pg_documented demo_pg_documented(2) this]
  have "t' = [enqueued_row ?p ''a'' demo_request]" using e by (simp add: system_init_def)
  then have i: "map r_job_id t' = [''a'']" by (simp add: enqueued_row_def)
  have r: "sys_run demo_config ?s [Quiet] (?s\<lparr>sy_table := t', sy_metrics := m'\<rparr>)"
    by (rule run_one) (rule sys_step.enqueue [OF e])
  show ?thesis using system_invariant [OF r] r i by (intro exI [of _ "?s\<lparr>sy_table := t', sy_metrics := m'\<rparr>"]) simp
qed

text \<open>The same message twice, a second apart: the handler runs on the first delivery only.\<close>

lemma demo_deliveries:
  "\<exists>s. sys_run demo_config (system_init []) [Delivered 0 [demo_result ''succeeded''], Delivered 1 []] s"
proof -
  let ?s = "system_init [] :: string list system" and ?h = "recording (handle_result True (demo_pg 1 []) 0)"
  let ?key = "''worker-result:a:0''" and ?ev = "demo_result ''succeeded''"
  obtain v where v: "\<And>now (handle :: (jobs_table \<times> worker_result list) handler). accept (\<lambda>_. []) (\<lambda>_. []) (now :: py_float, v, handle) =
      Some \<lparr>ac_now = now, ac_key = ?key, ac_event = ?ev, ac_handle = handle\<rparr>"
    using demo_accept [of "''succeeded''"] by (auto simp: ALLOWED_STATUSES_def)
  have cfg: "sc_frepr demo_config = (\<lambda>_. [])" "sc_wide demo_config = (\<lambda>_. [])" "sc_result_ttl demo_config = 10"
    "sc_clock demo_config 0 = 0" "sc_clock demo_config (Suc 0) = 1"
    by (simp_all add: demo_config_def demo_clock_def)
  have ten: "float_add_int 0 10 = 10" using float_add_int_exact [of 0 10] by simp
  have key: "validate_claim_inputs ?key 10 = None" by (simp add: validate_claim_inputs_None is_blank_iff py_isspace_def)
  obtain m where first: "mem_try_claim mem_init 0 ?key 10 = (Inr True, m)" and live: "mem_live m 1 ?key"
    using mem.claim_valid [OF key, of mem_init 0] ten by (fastforce simp: mem_live_init)
  obtain m' where second: "mem_try_claim m 1 ?key 10 = (Inr False, m')"
    using mem.claim_valid [OF key, of m 1] live by auto
  obtain e t where "handle_result True (demo_pg 1 []) 0 ?ev [] = (e, t)" by fastforce
  then have h: "?h ?ev ([], []) = (e, (t, [?ev]))" by (simp add: recording_def)
  let ?rn = "(sy_runner ?s)\<lparr>rn_handler := (sy_table ?s, [])\<rparr>"
  have p1: "process_message (\<lambda>_. []) (\<lambda>_. []) mem_try_claim 10 (Some ?h) 0 v ?rn =
      (e, ?rn\<lparr>rn_store := m, rn_handler := (t, [?ev]), rn_processed := rn_processed ?rn + (if e = None then 1 else 0)\<rparr>)"
    by (rule process_granted [where claim = mem_try_claim, OF v]) (use first h in \<open>simp_all add: system_init_def runner_init_def\<close>)
  define s1 where "s1 = ?s\<lparr>sy_table := t, sy_runner := ?rn\<lparr>rn_store := m, rn_handler := (t, [?ev]),
      rn_processed := rn_processed ?rn + (if e = None then 1 else 0)\<rparr>, sy_reads := Suc (sy_reads ?s)\<rparr>"
  have r: "sy_reads ?s = 0" "sy_reads s1 = Suc 0" by (simp_all add: system_init_def s1_def)
  have "sys_step demo_config ?s (Delivered 0 [?ev]) s1"
    using sys_step.deliver [of demo_config "demo_pg 1 []" 0 ?s v] p1 unfolding cfg r s1_def by simp
  moreover
  let ?rn1 = "(sy_runner s1)\<lparr>rn_handler := (sy_table s1, [])\<rparr>"
  obtain line where "process_message (\<lambda>_. []) (\<lambda>_. []) mem_try_claim 10 (Some ?h) 1 v ?rn1 =
      (None, ?rn1\<lparr>rn_store := m', rn_duplicate := rn_duplicate ?rn1 + 1, rn_printed := rn_printed ?rn1 @ [line]\<rparr>)"
    using process_refused [where claim = mem_try_claim and rn = ?rn1 and ttl = 10 and s = m', OF v] second by (auto simp: s1_def)
  then have "\<exists>s2. sys_step demo_config s1 (Delivered 1 []) s2"
    using sys_step.deliver [of demo_config "demo_pg 1 []" 0 s1 v] unfolding cfg r by fastforce
  ultimately show ?thesis using sys_run.step [OF sys_run.step [OF sys_run.start]] by fastforce
qed

theorem system_suppresses_duplicates_witness:
  "\<exists>s. sys_run demo_config (system_init []) [Delivered 0 [demo_result ''succeeded''], Delivered 1 []] s \<and>
     (\<exists>ds. tk_producer (sy_tick s) = publish_all demo_publish ds [] \<and>
        (\<forall>i j. i < j \<and> j < length ds \<and> py_strip (jr_job_id (snd (ds ! i))) = py_strip (jr_job_id (snd (ds ! j))) \<and>
           jr_retry_count (snd (ds ! i)) = jr_retry_count (snd (ds ! j)) \<longrightarrow>
           float_add_int (demo_clock (fst (ds ! i))) 10 \<le> demo_clock (fst (ds ! j))))"
proof -
  obtain s where r: "sys_run demo_config (system_init []) [Delivered 0 [demo_result ''succeeded''], Delivered 1 []] s"
    using demo_deliveries by blast
  have m: "mono (sc_clock demo_config)" "0 < sc_result_ttl demo_config" "0 < sc_dispatch_ttl demo_config"
    by (simp_all add: demo_config_def mono_def demo_clock_def)
  have d: "sc_publish demo_config = demo_publish" "sc_clock demo_config = demo_clock" "sc_dispatch_ttl demo_config = 10"
    by (simp_all add: demo_config_def)
  show ?thesis using conjunct2 [OF system_suppresses_duplicates [OF r m]] r unfolding d by blast
qed

end
