(* ===== verification/Logging_Context.thy ===== *)
theory Logging_Context
  imports Idempotency_Config Logging_Utils
begin

text \<open>
  \<open>app/core/logging_context.py\<close>: identity fields from the environment, trace ids of the current
  OpenTelemetry span (a parameter: the span's context, or \<open>None\<close> when the package or the span is
  missing), the filter that writes them on log records, the logger adapter and
  \<open>attach_context_filter\<close>. A log record and an \<open>extra\<close> mapping are dictionaries from attribute
  names to strings.
\<close>

section \<open>Identity\<close>

definition DEFAULT_SERVICE_NAME :: string where "DEFAULT_SERVICE_NAME = ''kernelq-control-plane''"
definition DEFAULT_ENVIRONMENT :: string where "DEFAULT_ENVIRONMENT = ''local''"
definition DEFAULT_VERSION :: string where "DEFAULT_VERSION = ''dev''"
definition DEFAULT_LOG_LEVEL :: string where "DEFAULT_LOG_LEVEL = ''INFO''"
definition DEFAULT_LOG_FORMAT :: string where "DEFAULT_LOG_FORMAT = ''json''"

lemmas logging_defaults = DEFAULT_SERVICE_NAME_def DEFAULT_ENVIRONMENT_def DEFAULT_VERSION_def DEFAULT_LOG_LEVEL_def DEFAULT_LOG_FORMAT_def

definition env_default :: "env \<Rightarrow> string \<Rightarrow> string \<Rightarrow> string" where
  "env_default env name default_value =
     (case dict_get env name of
        None \<Rightarrow> default_value
      | Some v \<Rightarrow> (let trimmed = py_strip v in if trimmed = [] then default_value else trimmed))"

text \<open>\<open>str.upper\<close> on the code points below 256; three of them have an upper case elsewhere.\<close>

definition upper_char :: "(nat \<Rightarrow> string) \<Rightarrow> char \<Rightarrow> string" where
  "upper_char wide c = (let n = of_char c :: nat in
     if (97 \<le> n \<and> n \<le> 122) \<or> (224 \<le> n \<and> n \<le> 254 \<and> n \<noteq> 247) then [char_of (n - 32)]
     else if n = 223 then ''SS''
     else if n = 181 then wide 924
     else if n = 255 then wide 376
     else [c])"

definition py_upper :: "(nat \<Rightarrow> string) \<Rightarrow> string \<Rightarrow> string" where
  "py_upper wide s = concat (map (upper_char wide) s)"

definition load_logging_identity :: "(nat \<Rightarrow> string) \<Rightarrow> env \<Rightarrow> (string, string) dict" where
  "load_logging_identity wide env =
     [(''service'', env_default env ''KERNELQ_SERVICE_NAME'' DEFAULT_SERVICE_NAME),
      (''environment'', env_default env ''KERNELQ_ENVIRONMENT'' DEFAULT_ENVIRONMENT),
      (''version'', env_default env ''KERNELQ_VERSION'' DEFAULT_VERSION),
      (''log_level'', py_upper wide (env_default env ''KERNELQ_LOG_LEVEL'' DEFAULT_LOG_LEVEL)),
      (''log_format'', py_lower (env_default env ''KERNELQ_LOG_FORMAT'' DEFAULT_LOG_FORMAT))]"

section \<open>Trace ids\<close>

record span_context =
  sx_is_valid :: bool
  sx_trace_id :: nat
  sx_span_id :: nat

fun hex_nat :: "nat \<Rightarrow> string" where
  "hex_nat n = (if n < 16 then [hex_digit n] else hex_nat (n div 16) @ [hex_digit (n mod 16)])"

declare hex_nat.simps [simp del]

text \<open>\<open>format(n, "032x")\<close>\<close>

definition hex_pad :: "nat \<Rightarrow> nat \<Rightarrow> string" where
  "hex_pad w n = replicate (w - length (hex_nat n)) (CHR ''0'') @ hex_nat n"

definition current_trace_ids :: "span_context option \<Rightarrow> string option \<times> string option" where
  "current_trace_ids ctx =
     (case ctx of
        None \<Rightarrow> (None, None)
      | Some c \<Rightarrow>
          if \<not> sx_is_valid c then (None, None)
          else
            (let trace_id = hex_pad 32 (sx_trace_id c); span_id = hex_pad 16 (sx_span_id c)
             in if trace_id = replicate 32 (CHR ''0'') \<or> span_id = replicate 16 (CHR ''0'') then (None, None)
                else (Some trace_id, Some span_id)))"

section \<open>Filter and adapter\<close>

record context_filter =
  cf_service :: string
  cf_environment :: string
  cf_version :: string
  cf_component :: "string option"
  cf_operation :: "string option"

text \<open>\<open>service or identity["service"]\<close>: an empty argument counts as missing.\<close>

definition or_identity :: "string option \<Rightarrow> (string, string) dict \<Rightarrow> string \<Rightarrow> string" where
  "or_identity arg identity k =
     (case arg of Some (c # s) \<Rightarrow> c # s | _ \<Rightarrow> (case dict_get identity k of Some v \<Rightarrow> v | None \<Rightarrow> []))"

definition filter_init ::
    "(nat \<Rightarrow> string) \<Rightarrow> env \<Rightarrow> string option \<Rightarrow> string option \<Rightarrow> string option \<Rightarrow> string option \<Rightarrow> string option \<Rightarrow> context_filter" where
  "filter_init wide env service environment version component operation =
     (let identity = load_logging_identity wide env
      in \<lparr>cf_service = or_identity service identity ''service'', cf_environment = or_identity environment identity ''environment'',
          cf_version = or_identity version identity ''version'', cf_component = component, cf_operation = operation\<rparr>)"

type_synonym log_record = "(string, string) dict"

definition set_optional :: "string \<Rightarrow> string option \<Rightarrow> log_record \<Rightarrow> log_record" where
  "set_optional k v record = (case v of None \<Rightarrow> record | Some x \<Rightarrow> dict_set k x record)"

definition filter_record :: "span_context option \<Rightarrow> context_filter \<Rightarrow> log_record \<Rightarrow> bool \<times> log_record" where
  "filter_record ctx f record =
     (let record = dict_set ''service'' (cf_service f) record;
          record = dict_set ''environment'' (cf_environment f) record;
          record = dict_set ''version'' (cf_version f) record;
          record = set_optional ''component'' (cf_component f) record;
          record = set_optional ''operation'' (cf_operation f) record;
          (trace_id, span_id) = current_trace_ids ctx;
          record = set_optional ''trace_id'' trace_id record;
          record = set_optional ''span_id'' span_id record
      in (True, record))"

definition setdefault :: "string \<Rightarrow> string \<Rightarrow> log_record \<Rightarrow> log_record" where
  "setdefault k v d = (case dict_get d k of None \<Rightarrow> dict_set k v d | Some w \<Rightarrow> d)"

definition adapter_process ::
    "(nat \<Rightarrow> string) \<Rightarrow> env \<Rightarrow> span_context option \<Rightarrow> log_record option \<Rightarrow> string \<Rightarrow> log_record option \<Rightarrow> string \<times> log_record" where
  "adapter_process wide env ctx self_extra msg kwargs_extra =
     (let extra = (case kwargs_extra of None \<Rightarrow> [] | Some d \<Rightarrow> d);
          identity = load_logging_identity wide env;
          extra = setdefault ''service'' (or_identity None identity ''service'') extra;
          extra = setdefault ''environment'' (or_identity None identity ''environment'') extra;
          extra = setdefault ''version'' (or_identity None identity ''version'') extra;
          extra = (case self_extra of None \<Rightarrow> extra | Some d \<Rightarrow> foldl (\<lambda>e (k, v). setdefault k v e) extra d);
          (trace_id, span_id) = current_trace_ids ctx;
          extra = (case trace_id of None \<Rightarrow> extra | Some t \<Rightarrow> setdefault ''trace_id'' t extra);
          extra = (case span_id of None \<Rightarrow> extra | Some s \<Rightarrow> setdefault ''span_id'' s extra)
      in (msg, extra))"

text \<open>A logger's filters; a filter of another class is only told apart by a number.\<close>

datatype log_filter = OtherFilter nat | ContextFilter context_filter

definition attach_context_filter ::
    "(nat \<Rightarrow> string) \<Rightarrow> env \<Rightarrow> string option \<Rightarrow> string option \<Rightarrow> log_filter list \<Rightarrow> context_filter \<times> log_filter list" where
  "attach_context_filter wide env component operation filters =
     (let filt = filter_init wide env None None None component operation
      in case find (\<lambda>f. case f of ContextFilter c \<Rightarrow> True | OtherFilter n \<Rightarrow> False) filters of
           Some (ContextFilter existing) \<Rightarrow> (existing, filters)
         | _ \<Rightarrow> (filt, filters @ [ContextFilter filt]))"

section \<open>Properties\<close>

definition is_context :: "log_filter \<Rightarrow> bool" where
  "is_context f = (case f of ContextFilter c \<Rightarrow> True | OtherFilter n \<Rightarrow> False)"

lemma attach_cases:
  "attach_context_filter wide env component operation filters =
     (case filter is_context filters of
        ContextFilter c # cs \<Rightarrow> (c, filters)
      | _ \<Rightarrow> (let filt = filter_init wide env None None None component operation in (filt, filters @ [ContextFilter filt])))"
proof -
  have "find (\<lambda>f. case f of ContextFilter c \<Rightarrow> True | OtherFilter n \<Rightarrow> False) filters =
      (case filter is_context filters of [] \<Rightarrow> None | f # fs \<Rightarrow> Some f)"
    by (induction filters) (auto simp: is_context_def split: log_filter.splits)
  moreover have "is_context f" if "f # fs = filter is_context filters" for f fs
    using that by (metis Cons_eq_filterD)
  ultimately show ?thesis
    by (cases "filter is_context filters") (auto simp: attach_context_filter_def is_context_def Let_def split: log_filter.splits)
qed

text \<open>
  \<open>attach_context_filter\<close> is idempotent. Whatever the environment and the arguments of the two
  calls, the second one returns the filter of the first and leaves the logger's filters as they
  are; the filters of other classes are kept in order, and a logger without a context filter
  gets exactly one.
\<close>

theorem attach_filter_idempotent:
  "case attach_context_filter wide env component operation filters of (f1, filters1) \<Rightarrow>
     attach_context_filter wide env' component' operation' filters1 = (f1, filters1) \<and>
     filter (\<lambda>f. \<not> is_context f) filters1 = filter (\<lambda>f. \<not> is_context f) filters \<and>
     filter is_context filters1 = (if filter is_context filters = [] then [ContextFilter f1] else filter is_context filters)"
proof (cases "filter is_context filters")
  case Nil
  then show ?thesis by (auto simp: attach_cases Let_def is_context_def)
next
  case (Cons f fs)
  then have "is_context f" by (metis Cons_eq_filterD)
  then obtain c where "f = ContextFilter c" by (auto simp: is_context_def split: log_filter.splits)
  then show ?thesis using Cons by (auto simp: attach_cases Let_def)
qed

lemma hex_nat_not_Nil [simp]: "hex_nat n \<noteq> []"
  by (subst hex_nat.simps) simp

lemma length_hex_nat: "n < 16 ^ k \<Longrightarrow> 0 < k \<Longrightarrow> length (hex_nat n) \<le> k"
proof (induction n arbitrary: k rule: hex_nat.induct)
  case (1 n)
  show ?case
  proof (cases "n < 16")
    case True
    then show ?thesis using "1.prems"(2) by (simp add: hex_nat.simps [of n])
  next
    case False
    then obtain j where k: "k = Suc j" "0 < j" using "1.prems" by (cases k; cases "k - 1") auto
    then have "n div 16 < 16 ^ j" using "1.prems"(1) by (simp add: less_mult_imp_div_less mult.commute)
    then show ?thesis using "1.IH" [OF False, of j] False k by (simp add: hex_nat.simps [of n])
  qed
qed

definition lower_hex :: "char \<Rightarrow> bool" where
  "lower_hex c \<longleftrightarrow> (let n = of_char c :: nat in (48 \<le> n \<and> n \<le> 57) \<or> (97 \<le> n \<and> n \<le> 102))"

lemma hex_digit_lower: "n < 16 \<Longrightarrow> lower_hex (hex_digit n)"
  by (auto simp: lower_hex_def hex_digit_def Let_def)

lemma hex_pad_0: "0 < w \<Longrightarrow> hex_pad w 0 = replicate w (CHR ''0'')"
proof -
  have "hex_nat 0 = [CHR ''0'']" by (simp add: hex_nat.simps hex_digit_def char_of_def bit_0)
  then show "0 < w \<Longrightarrow> hex_pad w 0 = replicate w (CHR ''0'')" by (cases w) (simp_all add: hex_pad_def replicate_append_same)
qed

lemma hex_nat_lower: "c \<in> set (hex_nat n) \<Longrightarrow> lower_hex c"
proof (induction n rule: hex_nat.induct)
  case (1 n)
  then show ?case by (cases "n < 16") (auto simp: hex_nat.simps [of n] hex_digit_lower)
qed

text \<open>
  Trace ids are well-formed: for a span context whose ids fit in 128 and 64 bits, the two
  ids are given together or not at all; a given trace id has 32 and a span id 16 lower-case
  hexadecimal digits; an invalid context, or one of whose ids is zero, gives none.
\<close>

theorem trace_ids_wellformed:
  assumes "sx_trace_id c < 2 ^ 128" and "sx_span_id c < 2 ^ 64" and "current_trace_ids (Some c) = (ti, si)"
  shows "(case (ti, si) of
      (Some tr, Some sp) \<Rightarrow> length tr = 32 \<and> length sp = 16 \<and> (\<forall>x \<in> set (tr @ sp). lower_hex x) \<and>
        sx_is_valid c \<and> sx_trace_id c \<noteq> 0 \<and> sx_span_id c \<noteq> 0
    | (None, None) \<Rightarrow> True
    | _ \<Rightarrow> False)"
proof -
  have l: "length (hex_nat (sx_trace_id c)) \<le> 32" "length (hex_nat (sx_span_id c)) \<le> 16"
    using assms(1,2) by (intro length_hex_nat; simp)+
  have h: "lower_hex x" if "x \<in> set (hex_pad w n)" for x w n
    using that hex_nat_lower by (auto simp: hex_pad_def) (simp add: lower_hex_def)
  have len: "length (hex_pad 32 (sx_trace_id c)) = 32" "length (hex_pad 16 (sx_span_id c)) = 16" using l by (simp_all add: hex_pad_def)
  show ?thesis
  proof (cases "sx_is_valid c \<and> hex_pad 32 (sx_trace_id c) \<noteq> replicate 32 (CHR ''0'') \<and> hex_pad 16 (sx_span_id c) \<noteq> replicate 16 (CHR ''0'')")
    case True
    then have t: "ti = Some (hex_pad 32 (sx_trace_id c))" "si = Some (hex_pad 16 (sx_span_id c))"
      using assms(3) unfolding current_trace_ids_def Let_def by auto
    have "sx_trace_id c \<noteq> 0" "sx_span_id c \<noteq> 0" using True hex_pad_0 [of 32] hex_pad_0 [of 16] by (metis zero_less_numeral)+
    then show ?thesis unfolding t using True len h by auto
  next
    case False
    then have "ti = None" "si = None" using assms(3) unfolding current_trace_ids_def Let_def by (auto split: if_splits)
    then show ?thesis by simp
  qed
qed

theorem trace_ids_wellformed_witness:
  "\<exists>tr sp. current_trace_ids (Some \<lparr>sx_is_valid = True, sx_trace_id = 255, sx_span_id = 1\<rparr>) = (Some tr, Some sp) \<and>
     length tr = 32 \<and> length sp = 16"
proof -
  let ?c = "\<lparr>sx_is_valid = True, sx_trace_id = 255, sx_span_id = 1\<rparr>"
  obtain ti si where t: "current_trace_ids (Some ?c) = (ti, si)" by fastforce
  have "hex_nat 255 = ''ff''" "hex_nat 1 = ''1''" by (simp_all add: hex_nat.simps hex_digit_def char_of_def bit_0)
  then have "last (hex_pad 32 255) \<noteq> last (replicate 32 (CHR ''0''))" "last (hex_pad 16 1) \<noteq> last (replicate 16 (CHR ''0''))"
    by (simp_all add: hex_pad_def)
  then have "ti \<noteq> None" using t unfolding current_trace_ids_def Let_def by (auto split: if_splits)
  then show ?thesis using trace_ids_wellformed [OF _ _ t] t by (cases ti; cases si) simp_all
qed

end
