(* ===== verification/Scheduler_Comparison.thy ===== *)
theory Scheduler_Comparison
  imports Scheduler_Fifo Scheduler_Priority Scheduler_Weighted_RR Scheduler_Composed Scheduler_Metrics
begin

text \<open>
  \<open>scripts/compare_schedulers.py\<close>: one workload through the four schedulers, with the same
  admission rules, a clock that ticks once per dispatch, and the metrics of each run. The four
  functions of the script differ in the scheduler they drive; the enqueue loop and the dequeue
  loop are written once here, over a scheduler's \<open>submit\<close>, \<open>dequeue\<close> and \<open>size\<close> (\<open>depth\<close>). The dequeue loop
  is a partial function, so that a loop that does not end would be \<open>None\<close>. The locale
  \<open>drained_scheduler\<close> states what the loops need of a scheduler; all four satisfy it.
\<close>

section \<open>The workload\<close>

record workload_job =
  wl_job_id :: string
  wl_tenant_id :: string
  wl_priority :: int
  wl_created_at :: int

definition build_workload :: "workload_job list" where
  "build_workload =
     [\<lparr>wl_job_id = ''a-low'', wl_tenant_id = ''tenant-a'', wl_priority = 1, wl_created_at = -8\<rparr>,
      \<lparr>wl_job_id = ''b-one'', wl_tenant_id = ''tenant-b'', wl_priority = 5, wl_created_at = -7\<rparr>,
      \<lparr>wl_job_id = ''a-high'', wl_tenant_id = ''tenant-a'', wl_priority = 10, wl_created_at = -6\<rparr>,
      \<lparr>wl_job_id = ''b-two'', wl_tenant_id = ''tenant-b'', wl_priority = 1, wl_created_at = -5\<rparr>,
      \<lparr>wl_job_id = [], wl_tenant_id = ''tenant-a'', wl_priority = 1, wl_created_at = -4\<rparr>,
      \<lparr>wl_job_id = ''a-mid'', wl_tenant_id = ''tenant-a'', wl_priority = 5, wl_created_at = -3\<rparr>,
      \<lparr>wl_job_id = ''b-three'', wl_tenant_id = ''tenant-b'', wl_priority = 2, wl_created_at = -2\<rparr>,
      \<lparr>wl_job_id = ''overflow'', wl_tenant_id = ''tenant-a'', wl_priority = 10, wl_created_at = -1\<rparr>]"

definition is_valid :: "workload_job \<Rightarrow> string set \<Rightarrow> bool" where
  "is_valid job allowed_tenants \<longleftrightarrow>
     \<not> is_blank (wl_job_id job) \<and> \<not> is_blank (wl_tenant_id job) \<and> wl_tenant_id job \<in> allowed_tenants"

definition metric_of :: "workload_job \<Rightarrow> metric_job" where
  "metric_of job = \<lparr>mj_tenant_id = wl_tenant_id job, mj_priority = wl_priority job, mj_created_at = wl_created_at job\<rparr>"

section \<open>The loops\<close>

definition observed :: "int \<Rightarrow> scheduler_metrics \<Rightarrow> scheduler_metrics result" where
  "observed depth m = (case observe_queue_depth depth m of (Some e, _) \<Rightarrow> Inl e | (None, m') \<Rightarrow> Inr m')"

text \<open>The admission rules that the script applies before a scheduler that has none of its own.\<close>

definition admit ::
    "('q \<Rightarrow> int) \<Rightarrow> ('q \<Rightarrow> workload_job \<Rightarrow> 'q result) \<Rightarrow> string set \<Rightarrow> int \<Rightarrow> 'q \<Rightarrow> workload_job \<Rightarrow> (enqueue_status \<times> 'q) result" where
  "admit depth enqueue allowed_tenants capacity scheduler job =
     (if \<not> is_valid job allowed_tenants then Inr (REJECTED_INVALID, scheduler)
      else if depth scheduler \<ge> capacity then Inr (REJECTED_FULL, scheduler)
      else bind_res (enqueue scheduler job) (\<lambda>scheduler. Inr (ACCEPTED, scheduler)))"

text \<open>The enqueue loop; \<open>by_id\<close> keeps the accepted jobs.\<close>

fun enqueue_phase ::
    "('q \<Rightarrow> workload_job \<Rightarrow> (enqueue_status \<times> 'q) result) \<Rightarrow> ('q \<Rightarrow> int) \<Rightarrow> workload_job list
     \<Rightarrow> 'q \<times> (string, workload_job) dict \<times> scheduler_metrics \<Rightarrow> ('q \<times> (string, workload_job) dict \<times> scheduler_metrics) result" where
  "enqueue_phase submit depth [] st = Inr st"
| "enqueue_phase submit depth (job # workload) (scheduler, by_id, metrics) =
     bind_res (submit scheduler job) (\<lambda>(status, scheduler).
       bind_res (observed (depth scheduler) (record_enqueue_result status metrics)) (\<lambda>metrics.
         enqueue_phase submit depth workload
           (scheduler, if status = ACCEPTED then dict_set (wl_job_id job) job by_id else by_id, metrics)))"

partial_function (option) dispatch_phase ::
    "('q \<Rightarrow> 'j option result \<times> 'q) \<Rightarrow> ('q \<Rightarrow> int) \<Rightarrow> ('j \<Rightarrow> metric_job result) \<Rightarrow> int \<Rightarrow> 'q \<Rightarrow> scheduler_metrics
     \<Rightarrow> scheduler_metrics result option" where
  "dispatch_phase dequeue depth original tick scheduler metrics =
     (case dequeue scheduler of
        (Inl e, _) \<Rightarrow> Some (Inl e)
      | (Inr None, _) \<Rightarrow> Some (Inr metrics)
      | (Inr (Some out), scheduler) \<Rightarrow>
          (case original out of
             Inl e \<Rightarrow> Some (Inl e)
           | Inr job \<Rightarrow>
               (case observed (depth scheduler) (record_dispatch job tick metrics) of
                  Inl e \<Rightarrow> Some (Inl e)
                | Inr metrics \<Rightarrow> dispatch_phase dequeue depth original (tick + 1) scheduler metrics)))"

definition by_id_lookup :: "(string, workload_job) dict \<Rightarrow> string \<Rightarrow> metric_job result" where
  "by_id_lookup by_id job_id = (case dict_get by_id job_id of None \<Rightarrow> Inl (KeyError job_id) | Some job \<Rightarrow> Inr (metric_of job))"

record comparison =
  cr_average_queue_wait_time :: py_float
  cr_average_queue_wait_time_by_tenant :: "(string, py_float) dict"
  cr_average_queue_wait_time_by_priority :: "(int, py_float) dict"
  cr_dispatch_count_by_tenant :: "(string, int) dict"
  cr_enqueue_rejected_full_count :: int
  cr_enqueue_rejected_invalid_count :: int

definition comparison_of :: "scheduler_metrics \<Rightarrow> comparison" where
  "comparison_of metrics =
     \<lparr>cr_average_queue_wait_time = average_queue_wait_time metrics,
      cr_average_queue_wait_time_by_tenant = average_queue_wait_time_by_tenant metrics,
      cr_average_queue_wait_time_by_priority = average_queue_wait_time_by_priority metrics,
      cr_dispatch_count_by_tenant = dispatch_count_by_tenant metrics,
      cr_enqueue_rejected_full_count = enqueue_rejected_full_count metrics,
      cr_enqueue_rejected_invalid_count = enqueue_rejected_invalid_count metrics\<rparr>"

definition drive ::
    "('q \<Rightarrow> workload_job \<Rightarrow> (enqueue_status \<times> 'q) result) \<Rightarrow> ('q \<Rightarrow> 'j option result \<times> 'q) \<Rightarrow> ('q \<Rightarrow> int)
     \<Rightarrow> ((string, workload_job) dict \<Rightarrow> 'j \<Rightarrow> metric_job result) \<Rightarrow> workload_job list \<Rightarrow> 'q \<Rightarrow> comparison result option" where
  "drive submit dequeue depth original workload scheduler =
     (case enqueue_phase submit depth workload (scheduler, [], metrics_init) of
        Inl e \<Rightarrow> Some (Inl e)
      | Inr (scheduler, by_id, metrics) \<Rightarrow>
          map_option (map_sum id comparison_of) (dispatch_phase dequeue depth (original by_id) 0 scheduler metrics))"

section \<open>The four runs\<close>

definition fifo_submit :: "string set \<Rightarrow> int \<Rightarrow> fifo_scheduler \<Rightarrow> workload_job \<Rightarrow> (enqueue_status \<times> fifo_scheduler) result" where
  "fifo_submit allowed_tenants capacity =
     admit fifo_size (\<lambda>s job. Inr (fifo_enqueue s \<lparr>fj_job_id = wl_job_id job, fj_created_at = wl_created_at job\<rparr>))
       allowed_tenants capacity"

definition run_fifo :: "workload_job list \<Rightarrow> int \<Rightarrow> string set \<Rightarrow> comparison result option" where
  "run_fifo workload capacity allowed_tenants =
     drive (fifo_submit allowed_tenants capacity) (\<lambda>s. map_prod Inr id (fifo_dequeue s)) fifo_size
       (\<lambda>by_id out. by_id_lookup by_id (fj_job_id out)) workload fifo_init"

definition prio_submit :: "string set \<Rightarrow> int \<Rightarrow> priority_scheduler \<Rightarrow> workload_job \<Rightarrow> (enqueue_status \<times> priority_scheduler) result" where
  "prio_submit allowed_tenants capacity =
     admit prio_size (\<lambda>s job. Inr (prio_enqueue s
         \<lparr>pj_job_id = wl_job_id job, pj_priority = wl_priority job, pj_created_at = wl_created_at job\<rparr>))
       allowed_tenants capacity"

definition run_priority :: "workload_job list \<Rightarrow> int \<Rightarrow> string set \<Rightarrow> comparison result option" where
  "run_priority workload capacity allowed_tenants =
     drive (prio_submit allowed_tenants capacity) (\<lambda>s. map_prod Inr id (prio_dequeue s)) prio_size
       (\<lambda>by_id out. by_id_lookup by_id (pj_job_id out)) workload prio_init"

definition wrr_submit :: "string set \<Rightarrow> int \<Rightarrow> wrr \<Rightarrow> workload_job \<Rightarrow> (enqueue_status \<times> wrr) result" where
  "wrr_submit allowed_tenants capacity =
     admit (\<lambda>s. int (wrr_size s)) (\<lambda>s job. wrr_enqueue s
         \<lparr>wj_job_id = wl_job_id job, wj_tenant_id = wl_tenant_id job, wj_created_at = wl_created_at job\<rparr>)
       allowed_tenants capacity"

definition run_weighted_rr :: "workload_job list \<Rightarrow> int \<Rightarrow> (string, int) dict \<Rightarrow> string set \<Rightarrow> comparison result option" where
  "run_weighted_rr workload capacity weights allowed_tenants =
     (case wrr_init weights of
        Inl e \<Rightarrow> Some (Inl e)
      | Inr scheduler \<Rightarrow>
          drive (wrr_submit allowed_tenants capacity) wrr_dequeue (\<lambda>s. int (wrr_size s))
            (\<lambda>by_id out. by_id_lookup by_id (wj_job_id out)) workload scheduler)"

definition composed_job_of :: "workload_job \<Rightarrow> cs_job" where
  "composed_job_of job =
     \<lparr>cj_job_id = wl_job_id job, cj_tenant_id = wl_tenant_id job, cj_priority = wl_priority job, cj_created_at = wl_created_at job\<rparr>"

definition composed_submit :: "composed \<Rightarrow> workload_job \<Rightarrow> (enqueue_status \<times> composed) result" where
  "composed_submit s job = Inr (map_prod er_status id (composed_enqueue s (composed_job_of job)))"

text \<open>Here the job that comes out carries all the fields the metrics read, so \<open>by_id\<close> is not used.\<close>

definition composed_metric :: "cs_job \<Rightarrow> metric_job" where
  "composed_metric out = \<lparr>mj_tenant_id = cj_tenant_id out, mj_priority = cj_priority out, mj_created_at = cj_created_at out\<rparr>"

definition run_composed :: "workload_job list \<Rightarrow> int \<Rightarrow> (string, int) dict \<Rightarrow> comparison result option" where
  "run_composed workload capacity weights =
     (case composed_init capacity weights of
        Inl e \<Rightarrow> Some (Inl e)
      | Inr scheduler \<Rightarrow>
          drive composed_submit composed_dequeue (\<lambda>s. int (composed_size s)) (\<lambda>by_id out. Inr (composed_metric out))
            workload scheduler)"

text \<open>The printed block of a run, given the \<open>repr\<close> of a float.\<close>

definition repr_dict :: "('k \<Rightarrow> string) \<Rightarrow> ('v \<Rightarrow> string) \<Rightarrow> ('k, 'v) dict \<Rightarrow> string" where
  "repr_dict key_repr value_repr d = ''{'' @ py_join '', '' (map (\<lambda>(k, v). key_repr k @ '': '' @ value_repr v) d) @ ''}''"

definition print_result_block :: "(py_float \<Rightarrow> string) \<Rightarrow> string \<Rightarrow> comparison \<Rightarrow> string list" where
  "print_result_block frepr title r =
     [''=== '' @ title @ '' Results ==='',
      ''average_queue_wait_time: '' @ frepr (cr_average_queue_wait_time r),
      ''average_queue_wait_time_by_tenant: '' @ repr_dict py_repr frepr (cr_average_queue_wait_time_by_tenant r),
      ''average_queue_wait_time_by_priority: '' @ repr_dict str_int frepr (cr_average_queue_wait_time_by_priority r),
      ''dispatch_count_by_tenant: '' @ repr_dict py_repr str_int (cr_dispatch_count_by_tenant r),
      ''enqueue_rejected_full_count: '' @ str_int (cr_enqueue_rejected_full_count r),
      ''enqueue_rejected_invalid_count: '' @ str_int (cr_enqueue_rejected_invalid_count r), []]"

definition demo_weights :: "(string, int) dict" where
  "demo_weights = [(''tenant-a'', 2), (''tenant-b'', 1)]"

definition bind_run :: "comparison result option \<Rightarrow> (comparison \<Rightarrow> string list result option) \<Rightarrow> string list result option" where
  "bind_run r f = (case r of None \<Rightarrow> None | Some (Inl e) \<Rightarrow> Some (Inl e) | Some (Inr x) \<Rightarrow> f x)"

definition compare_main :: "(py_float \<Rightarrow> string) \<Rightarrow> string list result option" where
  "compare_main frepr =
     (let allowed_tenants = set (dict_keys demo_weights)
      in bind_run (run_fifo build_workload 6 allowed_tenants) (\<lambda>fifo_result.
         bind_run (run_priority build_workload 6 allowed_tenants) (\<lambda>priority_result.
         bind_run (run_weighted_rr build_workload 6 demo_weights allowed_tenants) (\<lambda>wrr_result.
         bind_run (run_composed build_workload 6 demo_weights) (\<lambda>composed_result.
           Some (Inr (print_result_block frepr ''FIFO'' fifo_result @ print_result_block frepr ''Priority'' priority_result @
             print_result_block frepr ''Weighted RR'' wrr_result @ print_result_block frepr ''Composed'' composed_result)))))))"

section \<open>Dispatches on the script's clock\<close>

fun ticked :: "int \<Rightarrow> metric_job list \<Rightarrow> (metric_job \<times> int) list" where
  "ticked tick [] = []"
| "ticked tick (job # jobs) = (job, tick) # ticked (tick + 1) jobs"

lemma ticked_fst: "map fst (ticked tick jobs) = jobs"
  by (induction tick jobs rule: ticked.induct) simp_all

lemma length_ticked [simp]: "length (ticked tick jobs) = length jobs"
  using arg_cong [OF ticked_fst, of length] by simp

lemma ticked_wait:
  "2 * sum_list (map wait_of (ticked tick jobs)) =
     int (length jobs) * (2 * tick + int (length jobs) - 1) - 2 * sum_list (map mj_created_at jobs)"
  by (induction tick jobs rule: ticked.induct) (simp_all add: wait_of_def algebra_simps)

lemma halve: "2 * a = b - 2 * c \<Longrightarrow> a = b div 2 - c" for a b c :: int
  by presburger

lemma length_filter_mset: "length (filter P xs) = size (filter_mset P (mset xs))"
  by (metis mset_filter size_mset)

lemma ticked_class:
  assumes "mset jobs = image_mset f (mset ws)"
  shows "length (filter (\<lambda>d. key (fst d) = k) (ticked tick jobs)) = length (filter (\<lambda>w. key (f w) = k) ws)"
proof -
  have "length (filter (\<lambda>d. key (fst d) = k) (ticked tick jobs)) = length (filter (\<lambda>j. key j = k) (map fst (ticked tick jobs)))"
    by (simp add: filter_map comp_def)
  also have "\<dots> = length (filter (\<lambda>w. key (f w) = k) ws)"
    unfolding ticked_fst length_filter_mset assms by (simp add: filter_mset_image_mset)
  finally show ?thesis .
qed

lemma run_metrics_enqueue:
  assumes "\<forall>status. RecordEnqueue status \<notin> set ops"
  shows "enqueue_rejected_full_count (run_metrics ops m) = enqueue_rejected_full_count m"
    "enqueue_rejected_invalid_count (run_metrics ops m) = enqueue_rejected_invalid_count m"
  using assms
  by (induction ops arbitrary: m rule: dispatches.induct) (auto simp: record_dispatch_def Let_def observe_eq)

text \<open>
  What every fair comparison has in common: with \<open>n\<close> jobs admitted out of the valid ones, the
  average wait is that of \<open>n\<close> jobs leaving at the ticks \<open>0 \<dots> n - 1\<close>, in whatever order, each tenant
  has its own admitted jobs dispatched, and everything else is counted as refused.
\<close>

definition accounts_for :: "(workload_job \<Rightarrow> bool) \<Rightarrow> workload_job list \<Rightarrow> workload_job list \<Rightarrow> comparison \<Rightarrow> bool" where
  "accounts_for ok adm ws r \<longleftrightarrow>
     cr_average_queue_wait_time r =
       (if adm = [] then 0
        else int_truediv (int (length adm) * (int (length adm) - 1) div 2 - sum_list (map wl_created_at adm)) (int (length adm))) \<and>
     (\<forall>tid. dict_get (cr_dispatch_count_by_tenant r) tid =
        (if filter (\<lambda>w. wl_tenant_id w = tid) adm = [] then None
         else Some (int (length (filter (\<lambda>w. wl_tenant_id w = tid) adm))))) \<and>
     cr_enqueue_rejected_full_count r = int (length (filter ok ws)) - int (length adm) \<and>
     cr_enqueue_rejected_invalid_count r = int (length (filter (\<lambda>w. \<not> ok w) ws))"

lemma metrics_account_for:
  assumes "dispatches ops = ticked 0 jobs" "mset jobs = image_mset metric_of (mset adm)"
    and "\<forall>status. RecordEnqueue status \<notin> set ops"
    and "m = metrics_init\<lparr>enqueue_accepted_count := a, enqueue_rejected_full_count := int (length (filter ok ws)) - int (length adm),
      enqueue_rejected_invalid_count := int (length (filter (\<lambda>w. \<not> ok w) ws)), queue_depth_peak := peak\<rparr>"
  shows "accounts_for ok adm ws (comparison_of (run_metrics ops m))"
proof -
  have len: "length jobs = length adm" using arg_cong [OF assms(2), of size] by simp
  have "sum_list (map mj_created_at jobs) = sum_list (map wl_created_at adm)"
    using arg_cong [OF assms(2), of "\<lambda>M. sum_mset (image_mset mj_created_at M)"]
    by (simp add: sum_mset_sum_list [symmetric] image_mset.compositionality comp_def metric_of_def)
  then have wait: "sum_list (map wait_of (ticked 0 jobs)) = int (length adm) * (int (length adm) - 1) div 2 - sum_list (map wl_created_at adm)"
    using halve [OF ticked_wait [of 0 jobs]] by (simp add: len)
  have "dispatch_count_total (run_metrics ops m) = int (length adm)" "total_queue_wait_time (run_metrics ops m) =
      int (length adm) * (int (length adm) - 1) div 2 - sum_list (map wl_created_at adm)"
    using run_metrics_totals [of ops m] wait unfolding assms(1,4) by (simp_all add: metrics_init_def len)
  moreover have "dict_get (dispatch_count_by_tenant (run_metrics ops m)) tid =
      (if filter (\<lambda>w. wl_tenant_id w = tid) adm = [] then None
       else Some (int (length (filter (\<lambda>w. wl_tenant_id w = tid) adm))))" for tid
  proof -
    have "length (filter (\<lambda>d. mj_tenant_id (fst d) = tid) (ticked 0 jobs)) = length (filter (\<lambda>w. wl_tenant_id w = tid) adm)"
      using ticked_class [OF assms(2), of mj_tenant_id tid 0] by (simp add: metric_of_def)
    moreover from this have "filter (\<lambda>d. mj_tenant_id (fst d) = tid) (ticked 0 jobs) = [] \<longleftrightarrow> filter (\<lambda>w. wl_tenant_id w = tid) adm = []"
      by (metis length_0_conv)
    moreover have "dispatch_count_by_tenant m = []" by (simp add: assms(4) metrics_init_def)
    ultimately show ?thesis unfolding run_metrics_maps assms(1) by (simp add: stats_count)
  qed
  ultimately show ?thesis
    using run_metrics_enqueue [OF assms(3), of m]
    by (simp add: accounts_for_def comparison_of_def average_queue_wait_time_def assms(4) metrics_init_def)
qed

section \<open>What the loops need of a scheduler\<close>

locale drained_scheduler =
  fixes submit :: "'q \<Rightarrow> workload_job \<Rightarrow> (enqueue_status \<times> 'q) result" and dequeue :: "'q \<Rightarrow> 'j option result \<times> 'q"
    and depth :: "'q \<Rightarrow> int" and invar :: "'q \<Rightarrow> bool" and contents :: "'q \<Rightarrow> 'j multiset"
    and ok :: "workload_job \<Rightarrow> bool" and capacity :: int and job_of :: "workload_job \<Rightarrow> 'j"
  assumes submit_ok: "invar q \<Longrightarrow> \<exists>status q'. submit q w = Inr (status, q') \<and> invar q' \<and>
      status = (if \<not> ok w then REJECTED_INVALID else if capacity \<le> depth q then REJECTED_FULL else ACCEPTED) \<and>
      contents q' = (if status = ACCEPTED then add_mset (job_of w) (contents q) else contents q)"
    and depth_size: "invar q \<Longrightarrow> depth q = int (size (contents q))"
    and dequeue_empty: "invar q \<Longrightarrow> contents q = {#} \<Longrightarrow> \<exists>q'. dequeue q = (Inr None, q')"
    and dequeue_some: "invar q \<Longrightarrow> contents q \<noteq> {#} \<Longrightarrow>
      \<exists>x q'. dequeue q = (Inr (Some x), q') \<and> invar q' \<and> contents q = add_mset x (contents q')"
begin

lemma observed_depth:
  "invar q \<Longrightarrow> observed (depth q) m = Inr (m\<lparr>queue_depth_peak := max (queue_depth_peak m) (depth q)\<rparr>)"
  by (simp add: observed_def observe_queue_depth_def depth_size)

text \<open>The first valid jobs are admitted, as many as there is room for.\<close>

definition admitted :: "'q \<Rightarrow> workload_job list \<Rightarrow> workload_job list" where
  "admitted q ws = take (nat (capacity - depth q)) (filter ok ws)"

lemma enqueue_phase_ok:
  assumes "invar q"
  shows "\<exists>q' peak. invar q' \<and> contents q' = contents q + mset (map job_of (admitted q ws)) \<and>
    enqueue_phase submit depth ws (q, by_id, m) =
      Inr (q', foldl (\<lambda>d w. dict_set (wl_job_id w) w d) by_id (admitted q ws),
        m\<lparr>enqueue_accepted_count := enqueue_accepted_count m + int (length (admitted q ws)),
          enqueue_rejected_full_count := enqueue_rejected_full_count m + int (length (filter ok ws)) - int (length (admitted q ws)),
          enqueue_rejected_invalid_count := enqueue_rejected_invalid_count m + int (length (filter (\<lambda>w. \<not> ok w) ws)),
          queue_depth_peak := peak\<rparr>)"
  using assms
proof (induction ws arbitrary: q by_id m)
  case Nil
  then show ?case by (intro exI [of _ q] exI [of _ "queue_depth_peak m"]) (simp add: admitted_def)
next
  case (Cons w ws)
  obtain status q1 where s: "submit q w = Inr (status, q1)" "invar q1"
    and st: "status = (if \<not> ok w then REJECTED_INVALID else if capacity \<le> depth q then REJECTED_FULL else ACCEPTED)"
    and c: "contents q1 = (if status = ACCEPTED then add_mset (job_of w) (contents q) else contents q)"
    using submit_ok [OF Cons.prems] by blast
  have d: "depth q1 = (if status = ACCEPTED then depth q + 1 else depth q)"
    using depth_size [OF Cons.prems] depth_size [OF s(2)] c by simp
  have a: "admitted q (w # ws) = (if status = ACCEPTED then w # admitted q1 ws else admitted q1 ws)"
  proof (cases "status = ACCEPTED")
    case True
    then have "ok w" "depth q < capacity" using st by (auto split: if_splits)
    moreover from this have "nat (capacity - depth q) = Suc (nat (capacity - depth q1))" using d True by simp
    ultimately show ?thesis using True by (simp add: admitted_def)
  next
    case False
    then show ?thesis using st d by (auto simp: admitted_def split: if_splits)
  qed
  let ?b = "if status = ACCEPTED then dict_set (wl_job_id w) w by_id else by_id"
  let ?m = "(record_enqueue_result status m)\<lparr>queue_depth_peak := max (queue_depth_peak m) (depth q1)\<rparr>"
  obtain q' peak where ih: "invar q'" "contents q' = contents q1 + mset (map job_of (admitted q1 ws))"
    and e: "enqueue_phase submit depth ws (q1, ?b, ?m) =
      Inr (q', foldl (\<lambda>d w. dict_set (wl_job_id w) w d) ?b (admitted q1 ws),
        ?m\<lparr>enqueue_accepted_count := enqueue_accepted_count ?m + int (length (admitted q1 ws)),
          enqueue_rejected_full_count := enqueue_rejected_full_count ?m + int (length (filter ok ws)) - int (length (admitted q1 ws)),
          enqueue_rejected_invalid_count := enqueue_rejected_invalid_count ?m + int (length (filter (\<lambda>w. \<not> ok w) ws)),
          queue_depth_peak := peak\<rparr>)"
    using Cons.IH [OF s(2)] by blast
  have "enqueue_phase submit depth (w # ws) (q, by_id, m) = enqueue_phase submit depth ws (q1, ?b, ?m)"
    using s by (simp add: observed_depth)
  then show ?case
    unfolding e a using ih c st by (intro exI [of _ q'] exI [of _ peak]) (auto split: if_splits)
qed

text \<open>The dequeue loop ends after as many turns as there are jobs, and dispatches each of them.\<close>

lemma dispatch_phase_ok:
  assumes "invar q" "\<And>x. x \<in># contents q \<Longrightarrow> original x = Inr (orig x)"
  shows "\<exists>xs ops. mset xs = contents q \<and> dispatches ops = ticked tick (map orig xs) \<and>
    (\<forall>status. RecordEnqueue status \<notin> set ops) \<and>
    dispatch_phase dequeue depth original tick q m = Some (Inr (run_metrics ops m))"
  using assms
proof (induction "size (contents q)" arbitrary: q tick m)
  case 0
  then obtain q' where "dequeue q = (Inr None, q')" using dequeue_empty [OF 0(2)] by auto
  then have "dispatch_phase dequeue depth original tick q m = Some (Inr m)" by (subst dispatch_phase.simps) simp
  then show ?case using 0(1) by (intro exI [of _ "[]"] exI [of _ "[] :: metric_op list"]) simp
next
  case (Suc n)
  then have "contents q \<noteq> {#}" by auto
  from dequeue_some [OF Suc.prems(1) this] obtain x q' where
    d: "dequeue q = (Inr (Some x), q')" "invar q'" "contents q = add_mset x (contents q')" by blast
  let ?m = "metric_apply (ObserveDepth (depth q')) (record_dispatch (orig x) tick m)"
  have "n = size (contents q')" using Suc.hyps(2) d(3) by simp
  from Suc.hyps(1) [OF this d(2), of "tick + 1" ?m] Suc.prems(2) d(3) obtain xs ops where ih: "mset xs = contents q'"
    "dispatches ops = ticked (tick + 1) (map orig xs)" "\<forall>status. RecordEnqueue status \<notin> set ops"
    "dispatch_phase dequeue depth original (tick + 1) q' ?m = Some (Inr (run_metrics ops ?m))" by auto
  have "observed (depth q') (record_dispatch (orig x) tick m) = Inr ?m"
    using observed_depth [OF d(2)] depth_size [OF d(2)] by (simp add: observe_eq)
  then have "dispatch_phase dequeue depth original tick q m = Some (Inr (run_metrics ops ?m))"
    using d(1) Suc.prems(2) [of x] d(3) ih(4) by (subst dispatch_phase.simps) simp
  then show ?case
    using ih d(3) by (intro exI [of _ "x # xs"] exI [of _ "RecordDispatch (orig x) tick # ObserveDepth (depth q') # ops"]) simp
qed

lemma drive_ok:
  assumes "invar q" "contents q = {#}" and "\<And>w. w \<in> set (take (nat capacity) (filter ok ws)) \<Longrightarrow>
      original (foldl (\<lambda>d w. dict_set (wl_job_id w) w d) [] (take (nat capacity) (filter ok ws))) (job_of w) = Inr (metric_of w)"
  shows "\<exists>r. drive submit dequeue depth original ws q = Some (Inr r) \<and> accounts_for ok (take (nat capacity) (filter ok ws)) ws r"
proof -
  let ?adm = "take (nat capacity) (filter ok ws)" and ?b = "foldl (\<lambda>d w. dict_set (wl_job_id w) w d) []"
  have adm: "admitted q ws = ?adm" using depth_size [OF assms(1)] assms(2) by (simp add: admitted_def)
  have zero: "enqueue_accepted_count metrics_init = 0" "enqueue_rejected_full_count metrics_init = 0"
    "enqueue_rejected_invalid_count metrics_init = 0" by (simp_all add: metrics_init_def)
  define counted where "counted peak = metrics_init\<lparr>enqueue_accepted_count := int (length ?adm),
      enqueue_rejected_full_count := int (length (filter ok ws)) - int (length ?adm),
      enqueue_rejected_invalid_count := int (length (filter (\<lambda>w. \<not> ok w) ws)), queue_depth_peak := peak\<rparr>" for peak
  obtain q' peak where e: "enqueue_phase submit depth ws (q, [], metrics_init) = Inr (q', ?b ?adm, counted peak)" "invar q'"
    "contents q' = mset (map job_of ?adm)"
    using enqueue_phase_ok [OF assms(1), of ws "[]" metrics_init] unfolding adm assms(2) zero counted_def add_0 by blast
  let ?m = "counted peak"
  define look orig where "look = original (?b ?adm)" and "orig x = projr (look x)" for x
  have look: "look (job_of w) = Inr (metric_of w)" if "w \<in> set ?adm" for w using assms(3) [OF that] by (simp add: look_def)
  have orig: "look x = Inr (orig x)" if "x \<in># contents q'" for x
    using that look by (auto simp: e(3) orig_def)
  obtain xs ops where o: "mset xs = contents q'" "dispatches ops = ticked 0 (map orig xs)"
    "\<forall>status. RecordEnqueue status \<notin> set ops"
    "dispatch_phase dequeue depth look 0 q' ?m = Some (Inr (run_metrics ops ?m))"
    using dispatch_phase_ok [OF e(2), of look orig, OF orig] by blast
  have "map orig (map job_of ?adm) = map metric_of ?adm" using look by (simp add: orig_def)
  then have "mset (map orig xs) = image_mset metric_of (mset ?adm)"
    using o(1) e(3) by (metis mset_map)
  from metrics_account_for [OF o(2) this o(3) counted_def]
  have "accounts_for ok ?adm ws (comparison_of (run_metrics ops ?m))" .
  then show ?thesis using e(1) o(4) by (simp add: drive_def look_def)
qed

end

section \<open>The four schedulers\<close>

lemma all_jobs_empty: "all_jobs d = {#} \<longleftrightarrow> total_jobs d = 0"
  by (metis size_all_jobs size_eq_0_iff_empty)

lemma admit_ok:
  assumes "invar q" and "is_valid w allowed \<Longrightarrow> \<exists>q'. enq q w = Inr q' \<and> invar q' \<and> contents q' = add_mset (job_of w) (contents q)"
  shows "\<exists>status q'. admit depth enq allowed capacity q w = Inr (status, q') \<and> invar q' \<and>
    status = (if \<not> is_valid w allowed then REJECTED_INVALID else if capacity \<le> depth q then REJECTED_FULL else ACCEPTED) \<and>
    contents q' = (if status = ACCEPTED then add_mset (job_of w) (contents q) else contents q)"
  using assms by (cases "is_valid w allowed"; cases "capacity \<le> depth q") (force simp: admit_def)+

interpretation fifo_run: drained_scheduler "fifo_submit allowed capacity" "\<lambda>s. map_prod Inr id (fifo_dequeue s)" fifo_size
  "\<lambda>_. True" "\<lambda>s. mset (fs_queue s)" "\<lambda>w. is_valid w allowed" capacity
  "\<lambda>job. \<lparr>fj_job_id = wl_job_id job, fj_created_at = wl_created_at job\<rparr>" for allowed capacity
proof unfold_locales
  show "\<exists>status q'. fifo_submit allowed capacity q w = Inr (status, q') \<and> True \<and>
      status = (if \<not> is_valid w allowed then REJECTED_INVALID else if capacity \<le> fifo_size q then REJECTED_FULL else ACCEPTED) \<and>
      mset (fs_queue q') = (if status = ACCEPTED
        then add_mset \<lparr>fj_job_id = wl_job_id w, fj_created_at = wl_created_at w\<rparr> (mset (fs_queue q)) else mset (fs_queue q))" for q w
    unfolding fifo_submit_def
    by (rule admit_ok [of "\<lambda>_. True" q _ _ _ "\<lambda>s. mset (fs_queue s)"]) (simp_all add: fifo_enqueue_def)
qed (auto simp: fifo_size_def fifo_dequeue_def split: list.splits)

interpretation prio_run: drained_scheduler "prio_submit allowed capacity" "\<lambda>s. map_prod Inr id (prio_dequeue s)" prio_size
  prio_inv prio_jobs "\<lambda>w. is_valid w allowed" capacity
  "\<lambda>job. \<lparr>pj_job_id = wl_job_id job, pj_priority = wl_priority job, pj_created_at = wl_created_at job\<rparr>" for allowed capacity
proof unfold_locales
  fix q
  assume inv: "prio_inv q"
  show "\<exists>status q'. prio_submit allowed capacity q w = Inr (status, q') \<and> prio_inv q' \<and>
      status = (if \<not> is_valid w allowed then REJECTED_INVALID else if capacity \<le> prio_size q then REJECTED_FULL else ACCEPTED) \<and>
      prio_jobs q' = (if status = ACCEPTED
        then add_mset \<lparr>pj_job_id = wl_job_id w, pj_priority = wl_priority w, pj_created_at = wl_created_at w\<rparr> (prio_jobs q)
        else prio_jobs q)" for w
    unfolding prio_submit_def
    by (rule admit_ok [of prio_inv q _ _ _ prio_jobs]) (simp_all add: inv prio.ins_contents prio.ins_invar)
  show "prio_size q = int (size (prio_jobs q))" by (simp add: prio_size_def prio_jobs_def)
  show "prio_jobs q = {#} \<Longrightarrow> \<exists>q'. map_prod Inr id (prio_dequeue q) = (Inr None, q')"
    using prio.pop_empty [OF inv] by simp
  show "prio_jobs q \<noteq> {#} \<Longrightarrow> \<exists>x q'. map_prod Inr id (prio_dequeue q) = (Inr (Some x), q') \<and> prio_inv q' \<and>
      prio_jobs q = add_mset x (prio_jobs q')"
    using prio.pop_least [OF inv] by auto
qed

interpretation wrr_drive: drained_scheduler "wrr_submit allowed capacity" wrr_dequeue "\<lambda>s. int (wrr_size s)"
  "\<lambda>s. wrr_inv s \<and> set (dict_keys (wrr_queues s)) = allowed" "all_jobs \<circ> wrr_queues" "\<lambda>w. is_valid w allowed" capacity
  "\<lambda>job. \<lparr>wj_job_id = wl_job_id job, wj_tenant_id = wl_tenant_id job, wj_created_at = wl_created_at job\<rparr>" for allowed capacity
proof unfold_locales
  fix q
  assume inv: "wrr_inv q \<and> set (dict_keys (wrr_queues q)) = allowed"
  show "\<exists>status q'. wrr_submit allowed capacity q w = Inr (status, q') \<and> (wrr_inv q' \<and> set (dict_keys (wrr_queues q')) = allowed) \<and>
      status = (if \<not> is_valid w allowed then REJECTED_INVALID else if capacity \<le> int (wrr_size q) then REJECTED_FULL else ACCEPTED) \<and>
      (all_jobs \<circ> wrr_queues) q' = (if status = ACCEPTED
        then add_mset \<lparr>wj_job_id = wl_job_id w, wj_tenant_id = wl_tenant_id w, wj_created_at = wl_created_at w\<rparr> ((all_jobs \<circ> wrr_queues) q)
        else (all_jobs \<circ> wrr_queues) q)" for w
    unfolding wrr_submit_def
  proof (rule admit_ok [of "\<lambda>s. wrr_inv s \<and> set (dict_keys (wrr_queues s)) = allowed" q _ _ _ "all_jobs \<circ> wrr_queues", OF inv])
    let ?j = "\<lparr>wj_job_id = wl_job_id w, wj_tenant_id = wl_tenant_id w, wj_created_at = wl_created_at w\<rparr>"
    assume "is_valid w allowed"
    then have k: "wl_tenant_id w \<in> set (dict_keys (wrr_queues q))" using inv by (simp add: is_valid_def)
    then obtain q' where e: "wrr_enqueue q ?j = Inr q'" using wrr_enqueue_Inr [of q ?j] by auto
    then show "\<exists>q'. wrr_enqueue q ?j = Inr q' \<and> (wrr_inv q' \<and> set (dict_keys (wrr_queues q')) = allowed) \<and>
        (all_jobs \<circ> wrr_queues) q' = add_mset ?j ((all_jobs \<circ> wrr_queues) q)"
      using inv k wrr_enqueue_inv [OF conjunct1 [OF inv] e] by (auto simp: wrr_enqueue_Inr all_jobs_add dict_keys_set_same)
  qed
  show "int (wrr_size q) = int (size ((all_jobs \<circ> wrr_queues) q))" by (simp add: wrr_size_total)
  show "(all_jobs \<circ> wrr_queues) q = {#} \<Longrightarrow> \<exists>q'. wrr_dequeue q = (Inr None, q')"
    by (simp add: wrr_dequeue_def wrr_size_total all_jobs_empty)
  from inv have "wrr_inv q" ..
  then show "(all_jobs \<circ> wrr_queues) q \<noteq> {#} \<Longrightarrow> \<exists>x q'. wrr_dequeue q = (Inr (Some x), q') \<and>
      (wrr_inv q' \<and> set (dict_keys (wrr_queues q')) = allowed) \<and> (all_jobs \<circ> wrr_queues) q = add_mset x ((all_jobs \<circ> wrr_queues) q')"
  proof (cases rule: wrr_dequeue_cases)
    case idle
    then have "total_jobs (wrr_queues q) = 0" using inv by (simp add: wrr_inv_def turn_wf_def total_jobs_0_iff)
    moreover assume "(all_jobs \<circ> wrr_queues) q \<noteq> {#}"
    ultimately show ?thesis by (simp add: all_jobs_empty)
  next
    case (turn t p s')
    then have "(all_jobs \<circ> wrr_queues) q = add_mset (hd (wrr_jobs q t)) ((all_jobs \<circ> wrr_queues) s')"
      using wrr_count.deq_contents [OF conjunct1 [OF inv] wrr_take_eq [OF turn(4)]] by simp
    moreover have "set (dict_keys (wrr_queues s')) = allowed"
      using inv turn(3) dict_keys_set_same [OF tenant_jobs_key [OF turn(1)]] by simp
    ultimately show ?thesis using turn(4,5) by blast
  qed
qed

interpretation composed_drive: drained_scheduler composed_submit composed_dequeue "\<lambda>s. int (composed_size s)"
  "\<lambda>s. composed_inv s \<and> cs_capacity s = capacity \<and> set (dict_keys (cs_queues s)) = allowed" "all_jobs \<circ> cs_queues"
  "\<lambda>w. is_valid w allowed" capacity composed_job_of for allowed capacity
proof unfold_locales
  fix q
  assume inv: "composed_inv q \<and> cs_capacity q = capacity \<and> set (dict_keys (cs_queues q)) = allowed"
  show "\<exists>status q'. composed_submit q w = Inr (status, q') \<and>
      (composed_inv q' \<and> cs_capacity q' = capacity \<and> set (dict_keys (cs_queues q')) = allowed) \<and>
      status = (if \<not> is_valid w allowed then REJECTED_INVALID else if capacity \<le> int (composed_size q) then REJECTED_FULL else ACCEPTED) \<and>
      (all_jobs \<circ> cs_queues) q' = (if status = ACCEPTED then add_mset (composed_job_of w) ((all_jobs \<circ> cs_queues) q)
        else (all_jobs \<circ> cs_queues) q)" for w
  proof -
    obtain r q' where e: "composed_enqueue q (composed_job_of w) = (r, q')" by fastforce
    have st: "er_status r = (if \<not> is_valid w allowed then REJECTED_INVALID
        else if capacity \<le> int (composed_size q) then REJECTED_FULL else ACCEPTED)"
      using composed_enqueue_status [of q "composed_job_of w"] e inv
      by (auto simp: is_valid_def composed_job_of_def composed_remaining_capacity_def)
    have a: "composed_admit q (composed_job_of w) = (er_status r = ACCEPTED, q')"
      using e by (simp add: composed_admit_def is_accepted_def)
    have k: "er_status r = ACCEPTED \<Longrightarrow> cj_tenant_id (composed_job_of w) \<in> set (dict_keys (cs_queues q))"
      using st inv by (auto simp: is_valid_def composed_job_of_def split: if_splits)
    have "dict_keys (cs_queues q') = dict_keys (cs_queues q)"
      using composed_enqueue_state [of q "composed_job_of w"] e k by (auto simp: dict_keys_set_same split: if_splits)
    then show ?thesis
      using e st inv composed_bound.enq_invar [OF conjunct1 [OF inv] a] composed_bound.enq_contents [OF conjunct1 [OF inv] a]
        composed_bound.enq_capacity [OF conjunct1 [OF inv] a]
      by (simp add: composed_submit_def)
  qed
  show "int (composed_size q) = int (size ((all_jobs \<circ> cs_queues) q))" by (simp add: composed_size_total)
  from inv have i: "composed_inv q" ..
  from i show "(all_jobs \<circ> cs_queues) q = {#} \<Longrightarrow> \<exists>q'. composed_dequeue q = (Inr None, q')"
  proof (cases rule: composed_dequeue_cases)
    case (turn t p j job s')
    moreover assume "(all_jobs \<circ> cs_queues) q = {#}"
    ultimately show ?thesis using composed_bound.deq_contents [OF i composed_take_eq [OF turn(7)]] by simp
  qed blast
  from i show "(all_jobs \<circ> cs_queues) q \<noteq> {#} \<Longrightarrow> \<exists>x q'. composed_dequeue q = (Inr (Some x), q') \<and>
      (composed_inv q' \<and> cs_capacity q' = capacity \<and> set (dict_keys (cs_queues q')) = allowed) \<and>
      (all_jobs \<circ> cs_queues) q = add_mset x ((all_jobs \<circ> cs_queues) q')"
  proof (cases rule: composed_dequeue_cases)
    case idle
    then have "composed_size q = 0" using i by (simp add: composed_size_0)
    moreover assume "(all_jobs \<circ> cs_queues) q \<noteq> {#}"
    ultimately show ?thesis by (simp add: all_jobs_empty composed_size_total)
  next
    case (turn t p j job s')
    then show ?thesis
      using composed_bound.deq_contents [OF i composed_take_eq [OF turn(7)]] composed_take_turn_inv [OF i composed_take_eq [OF turn(7)]] inv
      by (intro exI [of _ job] exI [of _ s']) simp
  qed
qed

section \<open>The comparison\<close>

lemma by_id_ok:
  assumes "distinct (map wl_job_id ws)" "w \<in> set ws"
  shows "by_id_lookup (foldl (\<lambda>d w. dict_set (wl_job_id w) w d) [] ws) (wl_job_id w) = Inr (metric_of w)"
proof -
  have "dict_get (foldl (\<lambda>d w. dict_set (wl_job_id w) w d) acc ws) (wl_job_id w) =
      (if w \<in> set ws then Some w else dict_get acc (wl_job_id w))" if "distinct (map wl_job_id ws)" "w \<in> set ws \<or> wl_job_id w \<notin> wl_job_id ` set ws"
    for acc using that by (induction ws arbitrary: acc) auto
  then show ?thesis using assms by (simp add: by_id_lookup_def)
qed

lemma positive_weights_init: "composed_init capacity weights = Inr s \<Longrightarrow> dict_wf weights \<Longrightarrow> \<exists>s'. wrr_init weights = Inr s'"
  using composed_init_ok [of capacity weights s]
  by (auto simp: wrr_init_def positive_weights_def find_None_iff split: option.splits dest!: find_Some_mem)

text \<open>
  C35: The comparison of the script: for a capacity and weights that \<open>ComposedScheduler\<close> accepts and a
  workload whose valid jobs have different ids, all four runs end without an error, admit the same
  jobs (the first valid ones up to the capacity), refuse the same numbers of jobs as full and as
  invalid, dispatch as many jobs of each tenant, and report the same average queue wait: with one
  dispatch per tick the order of the dispatches does not matter for it. Only the averages per
  tenant and per priority can tell the policies apart.
\<close>

theorem comparison_same_totals:
  assumes "composed_init capacity weights = Inr s0" and "dict_wf weights" and "allowed = set (dict_keys weights)"
    and "adm = take (nat capacity) (filter (\<lambda>w. is_valid w allowed) workload)" and "distinct (map wl_job_id adm)"
  shows "\<exists>fifo prio rr comp. run_fifo workload capacity allowed = Some (Inr fifo) \<and>
     run_priority workload capacity allowed = Some (Inr prio) \<and>
     run_weighted_rr workload capacity weights allowed = Some (Inr rr) \<and>
     run_composed workload capacity weights = Some (Inr comp) \<and>
     (\<forall>r \<in> {fifo, prio, rr, comp}. accounts_for (\<lambda>w. is_valid w allowed) adm workload r)"
proof -
  let ?ok = "\<lambda>w. is_valid w allowed"
  note b = by_id_ok [OF assms(5) [unfolded assms(4)]]
  note c = composed_init_ok [OF assms(1,2)]
  obtain s1 where s1: "wrr_init weights = Inr s1" using positive_weights_init [OF assms(1,2)] by blast
  note w = wrr_init_ok [OF s1 assms(2)]
  have keys: "dict_keys (map (\<lambda>(t, w). (t, [])) weights) = dict_keys weights"
    by (simp add: dict_keys_def comp_def case_prod_beta)
  have "\<exists>r. run_fifo workload capacity allowed = Some (Inr r) \<and> accounts_for ?ok adm workload r"
    unfolding run_fifo_def assms(4) by (rule fifo_run.drive_ok) (simp_all add: fifo_init_def b)
  moreover have "\<exists>r. run_priority workload capacity allowed = Some (Inr r) \<and> accounts_for ?ok adm workload r"
    unfolding run_priority_def assms(4) by (rule prio_run.drive_ok) (simp_all add: prio_init_facts b)
  moreover have "\<exists>r. run_weighted_rr workload capacity weights allowed = Some (Inr r) \<and> accounts_for ?ok adm workload r"
    unfolding run_weighted_rr_def s1 sum.case assms(4)
    by (rule wrr_drive.drive_ok) (simp_all add: b [unfolded assms(3)] w keys assms(3) wrr_init_inv [OF s1 assms(2)])
  moreover have "\<exists>r. run_composed workload capacity weights = Some (Inr r) \<and> accounts_for ?ok adm workload r"
    unfolding run_composed_def assms(1) sum.case assms(4)
    by (rule composed_drive.drive_ok)
      (simp_all add: c keys assms(3) composed_init_inv [OF assms(1,2)] composed_metric_def composed_job_of_def metric_of_def)
  ultimately show ?thesis by blast
qed

lemma demo_weights_init: "\<exists>s. composed_init 6 demo_weights = Inr s" "dict_wf demo_weights"
  by (simp_all add: composed_init_def demo_weights_def is_blank_iff py_isspace_def composed_build_weight_cycle_def
      composed_gcd_of_weights_def dict_wf_def dict_keys_def)

lemma build_workload_admitted:
  assumes "adm = take 6 (filter (\<lambda>w. is_valid w {''tenant-a'', ''tenant-b''}) build_workload)"
  shows "length adm = 6" "distinct (map wl_job_id adm)" "sum_list (map wl_created_at adm) = -31"
    "length (filter (\<lambda>w. is_valid w {''tenant-a'', ''tenant-b''}) build_workload) = 7"
    "length (filter (\<lambda>w. \<not> is_valid w {''tenant-a'', ''tenant-b''}) build_workload) = 1"
  unfolding assms by (simp_all add: build_workload_def is_valid_def is_blank_iff py_isspace_def)

theorem comparison_same_totals_witness:
  "\<exists>fifo prio rr comp. run_fifo build_workload 6 {''tenant-a'', ''tenant-b''} = Some (Inr fifo) \<and>
     run_priority build_workload 6 {''tenant-a'', ''tenant-b''} = Some (Inr prio) \<and>
     run_weighted_rr build_workload 6 demo_weights {''tenant-a'', ''tenant-b''} = Some (Inr rr) \<and>
     run_composed build_workload 6 demo_weights = Some (Inr comp) \<and>
     (\<forall>r \<in> {fifo, prio, rr, comp}. cr_average_queue_wait_time r = int_truediv 46 6 \<and>
        cr_enqueue_rejected_full_count r = 1 \<and> cr_enqueue_rejected_invalid_count r = 1)"
proof -
  let ?a = "{''tenant-a'', ''tenant-b''}" and ?adm = "take 6 (filter (\<lambda>w. is_valid w {''tenant-a'', ''tenant-b''}) build_workload)"
  obtain s where s: "composed_init 6 demo_weights = Inr s" using demo_weights_init(1) by blast
  have a: "?a = set (dict_keys demo_weights)" by (auto simp: demo_weights_def dict_keys_def)
  have "accounts_for (\<lambda>w. is_valid w ?a) ?adm build_workload r \<Longrightarrow> cr_average_queue_wait_time r = int_truediv 46 6 \<and>
      cr_enqueue_rejected_full_count r = 1 \<and> cr_enqueue_rejected_invalid_count r = 1" for r
    using build_workload_admitted [OF refl] unfolding accounts_for_def by (auto simp: eval_nat_numeral)
  with comparison_same_totals [OF s demo_weights_init(2) a, of ?adm build_workload] build_workload_admitted(2) [OF refl]
  show ?thesis by (simp only: nat_numeral) blast
qed

end
