(* ===== verification/Scheduler_Simulation.thy ===== *)
theory Scheduler_Simulation
  imports Scheduler_Comparison
begin

text \<open>
  \<open>scripts/simulate_composed_scheduler.py\<close>: one workload through a \<open>ComposedScheduler\<close>, with what
  the script prints. The scenario of the script is \<open>simulation_workload\<close>; the two loops and the
  summary are written for any workload. The dequeue loop is a partial function: \<open>None\<close> would be a
  loop that does not end.
\<close>

section \<open>The program\<close>

definition simulation_workload :: "cs_job list" where
  "simulation_workload = map (\<lambda>(i, tid, pri, created). \<lparr>cj_job_id = i, cj_tenant_id = tid, cj_priority = pri, cj_created_at = created\<rparr>)
     [(''a-low'', ''tenant-a'', 1, -8), (''b-one'', ''tenant-b'', 5, -7), (''a-high'', ''tenant-a'', 10, -6),
      (''b-two'', ''tenant-b'', 1, -5), ([], ''tenant-a'', 1, -4), (''a-mid'', ''tenant-a'', 5, -3),
      (''b-three'', ''tenant-b'', 2, -2), (''overflow'', ''tenant-a'', 99, -1)]"

text \<open>The fields \<open>{i:2}\<close> of a number and \<open>{s:20}\<close> of a string: numbers are padded on the left, strings on the right.\<close>

definition pad_left :: "nat \<Rightarrow> string \<Rightarrow> string" where
  "pad_left n s = replicate (n - length s) (CHR '' '') @ s"

definition pad_right :: "nat \<Rightarrow> string \<Rightarrow> string" where
  "pad_right n s = s @ replicate (n - length s) (CHR '' '')"

record sim_state =
  si_sched :: composed
  si_metrics :: scheduler_metrics
  si_enqueue_log :: "(string \<times> string) list"
  si_printed :: "string list"

fun simulate_enqueue :: "nat \<Rightarrow> cs_job list \<Rightarrow> sim_state \<Rightarrow> sim_state result" where
  "simulate_enqueue i [] st = Inr st"
| "simulate_enqueue i (job # workload) st =
     (let label = (if py_strip (cj_job_id job) \<noteq> [] then cj_job_id job else ''(blank job_id)'');
          (result, sched) = composed_enqueue (si_sched st) job
      in bind_res (observed (int (composed_size sched)) (record_enqueue_result (er_status result) (si_metrics st))) (\<lambda>metrics.
           let status_line = enqueue_status_value (er_status result) @ '': '' @ er_message result
           in simulate_enqueue (Suc i) workload
                \<lparr>si_sched = sched, si_metrics = metrics, si_enqueue_log = si_enqueue_log st @ [(label, status_line)],
                 si_printed = si_printed st @
                   [''  ['' @ pad_left 2 (str_nat i) @ ''] submit '' @ pad_right 20 (py_repr label) @ '' -> '' @ status_line]\<rparr>))"

partial_function (option) simulate_dispatch ::
    "int \<Rightarrow> composed \<Rightarrow> scheduler_metrics \<Rightarrow> string list \<Rightarrow> string list
     \<Rightarrow> (scheduler_metrics \<times> string list \<times> string list) result option" where
  "simulate_dispatch dispatch_tick sched metrics dispatch_order printed =
     (case composed_dequeue sched of
        (Inl e, _) \<Rightarrow> Some (Inl e)
      | (Inr None, _) \<Rightarrow> Some (Inr (metrics, dispatch_order, printed))
      | (Inr (Some job), sched) \<Rightarrow>
          (case observed (int (composed_size sched)) (record_dispatch (composed_metric job) dispatch_tick metrics) of
             Inl e \<Rightarrow> Some (Inl e)
           | Inr metrics \<Rightarrow>
               simulate_dispatch (dispatch_tick + 1) sched metrics (dispatch_order @ [cj_job_id job])
                 (printed @ [''  dispatch '' @ py_repr (cj_job_id job) @ '' (tenant='' @ py_repr (cj_tenant_id job) @
                    '', priority='' @ str_int (cj_priority job) @ '')''])))"

text \<open>The printed entries of the snapshot, in the order of its dictionary.\<close>

definition snapshot_items :: "(py_float \<Rightarrow> string) \<Rightarrow> metrics_snapshot \<Rightarrow> (string, string) dict" where
  "snapshot_items frepr snap =
     (let m = sn_counters snap in
      [(''enqueue_accepted_count'', str_int (enqueue_accepted_count m)),
       (''enqueue_rejected_full_count'', str_int (enqueue_rejected_full_count m)),
       (''enqueue_rejected_invalid_count'', str_int (enqueue_rejected_invalid_count m)),
       (''dispatch_count_total'', str_int (dispatch_count_total m)),
       (''dispatch_count_by_tenant'', repr_dict py_repr str_int (dispatch_count_by_tenant m)),
       (''dispatch_count_by_priority'', repr_dict str_int str_int (dispatch_count_by_priority m)),
       (''total_queue_wait_time'', str_int (total_queue_wait_time m)),
       (''total_queue_wait_time_by_tenant'', repr_dict py_repr str_int (total_queue_wait_time_by_tenant m)),
       (''total_queue_wait_time_by_priority'', repr_dict str_int str_int (total_queue_wait_time_by_priority m)),
       (''average_queue_wait_time'', frepr (sn_average_queue_wait_time snap)),
       (''average_queue_wait_time_by_tenant'', repr_dict py_repr frepr (sn_average_by_tenant snap)),
       (''average_queue_wait_time_by_priority'', repr_dict str_int frepr (sn_average_by_priority snap)),
       (''queue_depth_peak'', str_int (queue_depth_peak m))])"

definition simulation_summary ::
    "(py_float \<Rightarrow> string) \<Rightarrow> (string \<times> string) list \<Rightarrow> string list \<Rightarrow> scheduler_metrics \<Rightarrow> string list" where
  "simulation_summary frepr enqueue_log dispatch_order metrics =
     [[], ''=== Summary ==='', [], ''Enqueue results (in order):''] @
     map (\<lambda>(label, line). ''  - '' @ label @ '': '' @ line) enqueue_log @
     [[], ''Dispatch order (job_id):'', ''  '' @ py_join '' -> '' dispatch_order,
      [], ''=== Wait Time Summary ==='', [],
      ''  average_queue_wait_time: '' @ frepr (average_queue_wait_time metrics),
      ''  average_queue_wait_time_by_tenant: '' @ repr_dict py_repr frepr (average_queue_wait_time_by_tenant metrics),
      ''  average_queue_wait_time_by_priority: '' @ repr_dict str_int frepr (average_queue_wait_time_by_priority metrics),
      [], ''Final metric snapshot:''] @
     map (\<lambda>(key, v). ''  '' @ key @ '': '' @ v) (sort_key fst (snapshot_items frepr (snapshot metrics))) @ [[]]"

record simulation =
  sr_enqueue_log :: "(string \<times> string) list"
  sr_dispatch_order :: "string list"
  sr_metrics :: scheduler_metrics
  sr_stdout :: "string list"

definition simulate ::
    "(py_float \<Rightarrow> string) \<Rightarrow> int \<Rightarrow> (string, int) dict \<Rightarrow> cs_job list \<Rightarrow> simulation result option" where
  "simulate frepr capacity weights workload =
     (case composed_init capacity weights of
        Inl e \<Rightarrow> Some (Inl e)
      | Inr sched \<Rightarrow>
          (case simulate_enqueue 1 workload
               \<lparr>si_sched = sched, si_metrics = metrics_init, si_enqueue_log = [], si_printed = [''=== Enqueue phase ==='', []]\<rparr> of
             Inl e \<Rightarrow> Some (Inl e)
           | Inr st \<Rightarrow>
               map_option (map_sum id (\<lambda>(metrics, dispatch_order, printed).
                   \<lparr>sr_enqueue_log = si_enqueue_log st, sr_dispatch_order = dispatch_order, sr_metrics = metrics,
                    sr_stdout = printed @ simulation_summary frepr (si_enqueue_log st) dispatch_order metrics\<rparr>))
                 (simulate_dispatch 0 (si_sched st) (si_metrics st) []
                    (si_printed st @ [[], ''=== Dequeue phase (until empty) ==='', []]))))"

definition simulation_main :: "(py_float \<Rightarrow> string) \<Rightarrow> simulation result option" where
  "simulation_main frepr = simulate frepr 6 [(''tenant-a'', 2), (''tenant-b'', 1)] simulation_workload"

section \<open>The loops against the scheduler's contract\<close>

lemma observed_size:
  "observed (int n) m = Inr (m\<lparr>queue_depth_peak := max (queue_depth_peak m) (int n)\<rparr>)"
  by (simp add: observed_def observe_queue_depth_def)

lemma record_enqueue_accepted:
  "enqueue_accepted_count (record_enqueue_result st m) = enqueue_accepted_count m + (if st = ACCEPTED then 1 else 0)"
  "dispatch_count_total (record_enqueue_result st m) = dispatch_count_total m"
  "queue_depth_peak (record_enqueue_result st m) = queue_depth_peak m"
  by (cases st; simp)+

lemma simulate_enqueue_ok:
  assumes "composed_inv (si_sched st)" "queue_depth_peak (si_metrics st) \<le> cs_capacity (si_sched st)"
  shows "\<exists>st' ins. simulate_enqueue i ws st = Inr st' \<and>
    run_queue composed_admit composed_take (map Submit ws) (si_sched st) = (ins, [], si_sched st') \<and>
    composed_inv (si_sched st') \<and> cs_capacity (si_sched st') = cs_capacity (si_sched st) \<and>
    length (si_enqueue_log st') = length (si_enqueue_log st) + length ws \<and>
    enqueue_accepted_count (si_metrics st') = enqueue_accepted_count (si_metrics st) + int (length ins) \<and>
    dispatch_count_total (si_metrics st') = dispatch_count_total (si_metrics st) \<and>
    queue_depth_peak (si_metrics st') \<le> cs_capacity (si_sched st)"
  using assms
proof (induction ws arbitrary: i st)
  case (Cons job ws)
  obtain r q where e: "composed_enqueue (si_sched st) job = (r, q)" by fastforce
  have a: "composed_admit (si_sched st) job = (er_status r = ACCEPTED, q)" using e by (simp add: composed_admit_def is_accepted_def)
  have inv: "composed_inv q" using composed_enqueue_inv [OF Cons.prems(1), of job] e by simp
  have cap: "cs_capacity q = cs_capacity (si_sched st)" using composed_bound.enq_capacity [OF Cons.prems(1) a] .
  have size: "int (composed_size q) \<le> cs_capacity (si_sched st)"
    using composed_bound.invar_capacity [OF inv] cap by (simp add: composed_size_total)
  let ?label = "if py_strip (cj_job_id job) \<noteq> [] then cj_job_id job else ''(blank job_id)''"
  let ?line = "enqueue_status_value (er_status r) @ '': '' @ er_message r"
  let ?m = "record_enqueue_result (er_status r) (si_metrics st)"
  let ?st = "\<lparr>si_sched = q, si_metrics = ?m\<lparr>queue_depth_peak := max (queue_depth_peak ?m) (int (composed_size q))\<rparr>,
    si_enqueue_log = si_enqueue_log st @ [(?label, ?line)],
    si_printed = si_printed st @ [''  ['' @ pad_left 2 (str_nat i) @ ''] submit '' @ pad_right 20 (py_repr ?label) @ '' -> '' @ ?line]\<rparr>"
  have step: "simulate_enqueue i (job # ws) st = simulate_enqueue (Suc i) ws ?st" using e by (simp add: observed_size Let_def)
  have "queue_depth_peak (si_metrics ?st) \<le> cs_capacity (si_sched ?st)"
    using Cons.prems(2) size cap by (simp add: record_enqueue_accepted)
  from Cons.IH [of ?st "Suc i", OF _ this] inv obtain st' ins where ih: "simulate_enqueue (Suc i) ws ?st = Inr st'"
    "run_queue composed_admit composed_take (map Submit ws) q = (ins, [], si_sched st')"
    "composed_inv (si_sched st') \<and> cs_capacity (si_sched st') = cs_capacity q \<and>
     length (si_enqueue_log st') = length (si_enqueue_log ?st) + length ws \<and>
     enqueue_accepted_count (si_metrics st') = enqueue_accepted_count (si_metrics ?st) + int (length ins) \<and>
     dispatch_count_total (si_metrics st') = dispatch_count_total (si_metrics ?st) \<and>
     queue_depth_peak (si_metrics st') \<le> cs_capacity q" by auto
  show ?case
    unfolding step using ih a cap
    by (intro exI [of _ st'] exI [of _ "if er_status r = ACCEPTED then job # ins else ins"]) (simp add: record_enqueue_accepted)
qed simp

lemma simulate_dispatch_ok:
  assumes "composed_inv s" "queue_depth_peak m \<le> cs_capacity s"
  shows "\<exists>xs s' m' ls. take_n composed_take (composed_size s) s = (xs, s') \<and> mset xs = all_jobs (cs_queues s) \<and>
    simulate_dispatch tick s m order printed = Some (Inr (m', order @ map cj_job_id xs, ls)) \<and>
    dispatch_count_total m' = dispatch_count_total m + int (length xs) \<and>
    enqueue_accepted_count m' = enqueue_accepted_count m \<and> queue_depth_peak m' \<le> cs_capacity s"
  using assms
proof (induction "composed_size s" arbitrary: s tick m order printed)
  case 0
  then have "composed_dequeue s = (Inr None, s)"
    by (cases rule: composed_dequeue_cases [OF 0(2)]) (simp_all add: composed_size_0)
  then have "simulate_dispatch tick s m order printed = Some (Inr (m, order, printed))" by (subst simulate_dispatch.simps) simp
  moreover have "all_jobs (cs_queues s) = {#}" using 0(1) by (simp add: all_jobs_empty composed_size_total)
  ultimately show ?case using 0 by (intro exI [of _ "[]"] exI [of _ s] exI [of _ m] exI [of _ printed]) simp
next
  case (Suc n)
  from Suc.prems(1) obtain x s1 where d: "composed_dequeue s = (Inr (Some x), s1)"
  proof (cases rule: composed_dequeue_cases)
    case idle
    then show thesis using Suc.hyps(2) composed_size_0 [OF Suc.prems(1)] by simp
  qed (use that in blast)
  note t = composed_take_eq [OF d]
  note inv = composed_take_turn_inv [OF Suc.prems(1) t]
  have n: "n = composed_size s1" using composed_take_Some(3) [OF Suc.prems(1) t] Suc.hyps(2) by simp
  have size: "int (composed_size s1) \<le> cs_capacity s"
    using composed_bound.invar_capacity [OF inv(1)] inv(3) by (simp add: composed_size_total)
  let ?m = "(record_dispatch (composed_metric x) tick m)\<lparr>queue_depth_peak :=
    max (queue_depth_peak (record_dispatch (composed_metric x) tick m)) (int (composed_size s1))\<rparr>"
  have "queue_depth_peak ?m \<le> cs_capacity s1" using Suc.prems(2) size inv(3) by (simp add: record_dispatch_def Let_def)
  from Suc.hyps(1) [OF n inv(1) this, of "tick + 1" "order @ [cj_job_id x]"] obtain xs s' m' ls where
    ih: "take_n composed_take (composed_size s1) s1 = (xs, s')" "mset xs = all_jobs (cs_queues s1)"
    "simulate_dispatch (tick + 1) s1 ?m (order @ [cj_job_id x]) (printed @ [''  dispatch '' @ py_repr (cj_job_id x) @ '' (tenant='' @
       py_repr (cj_tenant_id x) @ '', priority='' @ str_int (cj_priority x) @ '')'']) = Some (Inr (m', (order @ [cj_job_id x]) @ map cj_job_id xs, ls))"
    "dispatch_count_total m' = dispatch_count_total ?m + int (length xs)"
    "enqueue_accepted_count m' = enqueue_accepted_count ?m" "queue_depth_peak m' \<le> cs_capacity s1" by metis
  have "simulate_dispatch tick s m order printed = Some (Inr (m', order @ map cj_job_id (x # xs), ls))"
    using d ih(3) by (subst simulate_dispatch.simps) (simp add: observed_size)
  then show ?case
    using t ih n Suc.hyps(2) [symmetric] inv(3) composed_bound.deq_contents [OF Suc.prems(1) t]
    by (intro exI [of _ "x # xs"] exI [of _ s'] exI [of _ m'] exI [of _ ls]) (simp add: record_dispatch_def Let_def)
qed

section \<open>Properties\<close>

text \<open>
  C19: The simulation ends and tells the truth about its scheduler. For every capacity and weights
  the constructor accepts and every workload, both loops end without raising; every submission
  has a line in the log; the printed dispatch order is a permutation of the accepted jobs, in
  which each tenant's jobs are ordered by priority, age and id; the counters of accepted and
  dispatched jobs agree with it, and the observed depth never passes the capacity.
\<close>

theorem simulation_faithful:
  assumes "composed_init capacity weights = Inr s0" and "dict_wf weights"
  shows "\<exists>sim ins s xs. simulate frepr capacity weights workload = Some (Inr sim) \<and>
     run_queue composed_admit composed_take (map Submit workload) s0 = (ins, [], s) \<and>
     length (sr_enqueue_log sim) = length workload \<and>
     sr_dispatch_order sim = map cj_job_id xs \<and> mset xs = mset ins \<and>
     (\<forall>tid. sorted (map (\<lambda>j. (- cj_priority j, cj_created_at j, cj_job_id j)) (filter (\<lambda>j. cj_tenant_id j = tid) xs))) \<and>
     enqueue_accepted_count (sr_metrics sim) = int (length ins) \<and> dispatch_count_total (sr_metrics sim) = int (length ins) \<and>
     queue_depth_peak (sr_metrics sim) \<le> capacity"
proof -
  note init = composed_init_ok [OF assms] and inv0 = composed_init_inv [OF assms]
  let ?st = "\<lparr>si_sched = s0, si_metrics = metrics_init, si_enqueue_log = [], si_printed = [''=== Enqueue phase ==='', []]\<rparr>"
  have cap: "cs_capacity s0 = capacity" "0 < capacity" "all_jobs (cs_queues s0) = {#}" using init by simp_all
  obtain st ins where e: "simulate_enqueue 1 workload ?st = Inr st"
    "run_queue composed_admit composed_take (map Submit workload) s0 = (ins, [], si_sched st)"
    "composed_inv (si_sched st)" "cs_capacity (si_sched st) = capacity" "length (si_enqueue_log st) = length workload"
    "enqueue_accepted_count (si_metrics st) = int (length ins)" "dispatch_count_total (si_metrics st) = 0"
    "queue_depth_peak (si_metrics st) \<le> capacity"
    using simulate_enqueue_ok [of ?st 1 workload] inv0 cap by (auto simp: metrics_init_def)
  obtain xs s' m ls where d: "take_n composed_take (composed_size (si_sched st)) (si_sched st) = (xs, s')"
    "mset xs = all_jobs (cs_queues (si_sched st))"
    "simulate_dispatch 0 (si_sched st) (si_metrics st) [] (si_printed st @ [[], ''=== Dequeue phase (until empty) ==='', []]) =
       Some (Inr (m, map cj_job_id xs, ls))"
    "dispatch_count_total m = int (length xs)" "enqueue_accepted_count m = int (length ins)" "queue_depth_peak m \<le> capacity"
    using simulate_dispatch_ok [OF e(3), of "si_metrics st" 0 "[]"] e(4,6-8) by fastforce
  note drained = composed_drain_sorted [OF e(3) order_refl d(1)]
  have all: "all_jobs (cs_queues (si_sched st)) = mset ins"
    using composed_bound.run_contents [OF e(2) inv0] cap(3) by simp
  then have perm: "mset xs = mset ins" using d(2) by simp
  then have "length xs = length ins" by (rule mset_eq_length)
  then show ?thesis
    using e(1,2,5) d(3-6) drained perm assms(1)
    by (intro exI [of _ "\<lparr>sr_enqueue_log = si_enqueue_log st, sr_dispatch_order = map cj_job_id xs, sr_metrics = m,
          sr_stdout = ls @ simulation_summary frepr (si_enqueue_log st) (map cj_job_id xs) m\<rparr>"] exI [of _ ins] exI [of _ "si_sched st"] exI [of _ xs])
      (simp add: simulate_def)
qed

text \<open>The scenario of the script: six of the eight jobs are admitted.\<close>

definition simulation_start :: composed where
  "simulation_start = \<lparr>cs_capacity = 6, cs_queues = [(''tenant-a'', []), (''tenant-b'', [])],
     cs_cycle = [''tenant-a'', ''tenant-a'', ''tenant-b''], cs_cycle_pos = 0\<rparr>"

lemma simulation_init: "composed_init 6 [(''tenant-a'', 2), (''tenant-b'', 1)] = Inr simulation_start"
  by (simp add: composed_init_def simulation_start_def composed_build_weight_cycle_def composed_gcd_of_weights_def
      is_blank_iff py_isspace_def numeral_2_eq_2)

theorem simulation_faithful_witness:
  "\<exists>sim. simulation_main (\<lambda>_. []) = Some (Inr sim) \<and> length (sr_enqueue_log sim) = 8 \<and>
     dispatch_count_total (sr_metrics sim) = enqueue_accepted_count (sr_metrics sim) \<and> queue_depth_peak (sr_metrics sim) \<le> 6"
proof -
  have "dict_wf [(''tenant-a'', 2 :: int), (''tenant-b'', 1)]" by (simp add: dict_wf_def dict_keys_def)
  from simulation_faithful [OF simulation_init this, of "\<lambda>_. []" simulation_workload] show ?thesis
    by (fastforce simp: simulation_main_def simulation_workload_def)
qed

end
