(* ===== verification/Load_Benchmark.thy ===== *)
theory Load_Benchmark
  imports Scheduler_Tick Job_Metrics Scheduler_Metrics
begin

text \<open>
  \<open>scripts/generate_load_jobs.py\<close> and \<open>scripts/benchmark_scheduler_throughput.py\<close>: jobs inserted with
  cycled tenants and priorities, and the loop of scheduler ticks (without a producer) that
  dispatches them. Statement \<open>i\<close> of the insert loop meets the server \<open>pgs i\<close>, tick \<open>n\<close> the server
  \<open>ticks n\<close>; what other processes do to the shared table before tick \<open>n\<close> is \<open>others n\<close>. A
  \<open>SystemExit\<close> of the argument checks is its message. The readings of the performance counter are
  arguments. The options and the loop over the trials are in \<open>Benchmark_Scripts\<close>.
\<close>

section \<open>Generating jobs\<close>

definition validate_load_args :: "int \<Rightarrow> int \<Rightarrow> int \<Rightarrow> string option" where
  "validate_load_args count_arg tenants max_priority =
     (if count_arg \<le> 0 then Some ''--count must be a positive integer''
      else if tenants \<le> 0 then Some ''--tenants must be a positive integer''
      else if max_priority < 0 then Some ''--max-priority must be >= 0''
      else None)"

definition validate_bench_args :: "int \<Rightarrow> int \<Rightarrow> int \<Rightarrow> int \<Rightarrow> int \<Rightarrow> string option" where
  "validate_bench_args count_arg tenants max_priority batch_size trials =
     (if count_arg \<le> 0 then Some ''--count must be a positive integer''
      else if tenants \<le> 0 then Some ''--tenants must be a positive integer''
      else if max_priority < 0 then Some ''--max-priority must be >= 0''
      else if batch_size \<le> 0 then Some ''--batch-size must be a positive integer''
      else if trials \<le> 0 then Some ''--trials must be a positive integer''
      else None)"

text \<open>Python's \<open>%\<close> raises for a zero divisor.\<close>

definition py_mod :: "int \<Rightarrow> int \<Rightarrow> int result" where
  "py_mod a b = (if b = 0 then Inl ZeroDivisionError else Inr (a mod b))"

definition load_tenant_id :: "int \<Rightarrow> int \<Rightarrow> string result" where
  "load_tenant_id index tenant_count = bind_res (py_mod index tenant_count) (\<lambda>i. Inr (''tenant-'' @ str_int i))"

definition load_priority :: "int \<Rightarrow> int \<Rightarrow> int result" where
  "load_priority index max_priority = (if max_priority = 0 then Inr 0 else py_mod index (max_priority + 1))"

definition BENCHMARK_PRIORITY_BASE :: int where
  "BENCHMARK_PRIORITY_BASE = 1900000000"

definition bench_priority :: "int \<Rightarrow> int \<Rightarrow> int result" where
  "bench_priority index max_priority =
     (let spread = (if max_priority = 0 then 1 else max_priority + 1)
      in bind_res (py_mod index spread) (\<lambda>i. Inr (BENCHMARK_PRIORITY_BASE + i)))"

definition trial_prefix :: "string \<Rightarrow> int \<Rightarrow> int \<Rightarrow> string" where
  "trial_prefix base_prefix trial_number timestamp =
     base_prefix @ ''-trial-'' @ str_int trial_number @ ''-'' @ str_int timestamp"

text \<open>
  The insert loop of both scripts: they differ in the priorities and the payload. It returns the
  ids of the rows inserted; an exception of \<open>create_job\<close> ends it.
\<close>

fun insert_jobs ::
    "(int \<Rightarrow> pg) \<Rightarrow> string \<Rightarrow> int \<Rightarrow> (int \<Rightarrow> int result) \<Rightarrow> (int \<Rightarrow> (string \<times> json) list) \<Rightarrow> int list
     \<Rightarrow> string list \<Rightarrow> jobs_table \<Rightarrow> string list result \<times> jobs_table" where
  "insert_jobs pgs prefix tenants priority payload [] job_ids t = (Inr job_ids, t)"
| "insert_jobs pgs prefix tenants priority payload (index # rest) job_ids t =
     (case load_tenant_id index tenants of
        Inl e \<Rightarrow> (Inl e, t)
      | Inr tenant_id \<Rightarrow>
          (case priority index of
             Inl e \<Rightarrow> (Inl e, t)
           | Inr pri \<Rightarrow>
               (let job_id = prefix @ ''-'' @ str_int index
                in case create_job (pgs index) job_id tenant_id pri (state_value QUEUED) (Some (payload index)) 3 t of
                     (Inl e, t') \<Rightarrow> (Inl e, t')
                   | (Inr record, t') \<Rightarrow>
                       insert_jobs pgs prefix tenants priority payload rest (job_ids @ [job_id]) t')))"

definition py_range :: "int \<Rightarrow> int list" where
  "py_range n = map int [0..<nat n]"

text \<open>The loop of \<open>main\<close> of \<open>generate_load_jobs.py\<close>: the number of rows created.\<close>

definition generate_load_jobs ::
    "(int \<Rightarrow> pg) \<Rightarrow> int \<Rightarrow> string \<Rightarrow> int \<Rightarrow> int \<Rightarrow> int \<Rightarrow> jobs_table \<Rightarrow> int result \<times> jobs_table" where
  "generate_load_jobs pgs count_arg prefix_arg tenants max_priority run_timestamp t =
     (let prefix = (if py_strip prefix_arg = [] then ''load'' else py_strip prefix_arg)
      in case insert_jobs pgs (prefix @ ''-'' @ str_int run_timestamp) tenants (\<lambda>index. load_priority index max_priority)
             (\<lambda>index. [(''kind'', JStr ''load-test''), (''index'', JInt index)]) (py_range count_arg) [] t of
           (Inl e, t') \<Rightarrow> (Inl e, t')
         | (Inr job_ids, t') \<Rightarrow> (Inr (int (length job_ids)), t'))"

definition generate_jobs ::
    "(int \<Rightarrow> pg) \<Rightarrow> int \<Rightarrow> string \<Rightarrow> int \<Rightarrow> int \<Rightarrow> jobs_table \<Rightarrow> string list result \<times> jobs_table" where
  "generate_jobs pgs count_arg prefix tenants max_priority t =
     insert_jobs pgs prefix tenants (\<lambda>index. bench_priority index max_priority)
       (\<lambda>index. [(''kind'', JStr ''sched-bench''), (''index'', JInt index), (''trial_prefix'', JStr prefix)])
       (py_range count_arg) [] t"

section \<open>Dispatching them\<close>

definition max_tick_iterations :: "int \<Rightarrow> int \<Rightarrow> int result" where
  "max_tick_iterations job_count batch_size =
     (if batch_size = 0 then Inl ZeroDivisionError
      else let minimum_ticks = \<lceil>int_truediv job_count batch_size\<rceil>
           in Inr (max (minimum_ticks * 5) (minimum_ticks + 10)))"

record bench_env =
  be_frepr :: "py_float \<Rightarrow> string"
  be_ext :: "exc \<Rightarrow> string"
  be_clock :: "nat \<Rightarrow> py_float"
  be_ticks :: "int \<Rightarrow> pg"
  be_others :: "int \<Rightarrow> jobs_table \<Rightarrow> jobs_table"

record bench_state =
  bs_dispatched :: "string set"
  bs_tick_count :: int
  bs_table :: jobs_table
  bs_runner :: "(mem_store, unit) tick_state"
  bs_printed :: "string list"

text \<open>One pass of the \<open>while\<close> loop, and whether it breaks off.\<close>

definition bench_pass :: "bench_env \<Rightarrow> string set \<Rightarrow> int \<Rightarrow> bench_state \<Rightarrow> exc option \<times> bool \<times> bench_state" where
  "bench_pass env our_job_ids batch_size s =
     (let n = bs_tick_count s in
      case tick_run_once (be_frepr env) (be_ext env) mem_try_claim DEFAULT_DISPATCH_DEDUPE_TTL_SECONDS None (be_clock env)
          (be_ticks env n) batch_size (be_others env n (bs_table s), bs_runner s) of
        (Inl e, t, st) \<Rightarrow> (Some e, True, s\<lparr>bs_table := t, bs_runner := st\<rparr>)
      | (Inr result, t, st) \<Rightarrow>
          (let s = s\<lparr>bs_tick_count := n + 1, bs_table := t, bs_runner := st\<rparr> in
           if tr_errors result \<noteq> [] then
             (None, True, s\<lparr>bs_printed := bs_printed s @ ''Scheduler tick error:'' # map (\<lambda>m. ''  - '' @ m) (tr_errors result)\<rparr>)
           else
             (let dispatched = foldl (\<lambda>d job_id. if job_id \<in> our_job_ids then insert job_id d else d) (bs_dispatched s)
                    (tr_dispatched_job_ids result)
              in (None, card dispatched = card (bs_dispatched s), s\<lparr>bs_dispatched := dispatched\<rparr>))))"

lemma bench_pass_count: "bench_pass env ours batch s = (None, b, s') \<Longrightarrow> bs_tick_count s' = bs_tick_count s + 1"
  by (auto simp: bench_pass_def Let_def split: sum.splits prod.splits if_splits)

function bench_loop :: "bench_env \<Rightarrow> string set \<Rightarrow> int \<Rightarrow> int \<Rightarrow> bench_state \<Rightarrow> exc option \<times> bench_state" where
  "bench_loop env our_job_ids batch_size max_iterations s =
     (if card (bs_dispatched s) < card our_job_ids \<and> bs_tick_count s < max_iterations then
        (case bench_pass env our_job_ids batch_size s of
           (Some e, b, s') \<Rightarrow> (Some e, s')
         | (None, True, s') \<Rightarrow> (None, s')
         | (None, False, s') \<Rightarrow> bench_loop env our_job_ids batch_size max_iterations s')
      else (None, s))"
  by pat_completeness auto
termination
  by (relation "measure (\<lambda>(env, ours, batch, limit, s). nat (limit - bs_tick_count s))") (auto dest!: bench_pass_count [OF sym])

declare bench_loop.simps [simp del]

definition run_dispatch_benchmark ::
    "bench_env \<Rightarrow> string set \<Rightarrow> int \<Rightarrow> int \<Rightarrow> jobs_table \<Rightarrow> (int \<times> int \<times> string list) result \<times> jobs_table" where
  "run_dispatch_benchmark env our_job_ids batch_size max_iterations t =
     (case tick_init batch_size of
        Inl e \<Rightarrow> (Inl e, t)
      | Inr max_jobs \<Rightarrow>
          (case bench_loop env our_job_ids max_jobs max_iterations
               \<lparr>bs_dispatched = {}, bs_tick_count = 0, bs_table = t, bs_runner = tick_state_init mem_init (), bs_printed = []\<rparr> of
             (Some e, s) \<Rightarrow> (Inl e, bs_table s)
           | (None, s) \<Rightarrow> (Inr (int (card (bs_dispatched s)), bs_tick_count s, bs_printed s), bs_table s)))"

record trial_result =
  tl_trial_number :: int
  tl_prefix :: string
  tl_generated_jobs :: int
  tl_dispatched_jobs :: int
  tl_elapsed_seconds :: py_float
  tl_jobs_dispatched_per_second :: py_float
  tl_tick_count :: int

definition run_single_trial ::
    "(int \<Rightarrow> pg) \<Rightarrow> bench_env \<Rightarrow> py_float \<Rightarrow> py_float \<Rightarrow> int \<Rightarrow> string \<Rightarrow> int \<Rightarrow> int \<Rightarrow> int \<Rightarrow> int \<Rightarrow> int \<Rightarrow> int \<Rightarrow> jobs_table
     \<Rightarrow> (trial_result \<times> string list) result \<times> jobs_table" where
  "run_single_trial pgs env started stopped trial_number base_prefix count_arg tenants max_priority batch_size max_iterations
       run_timestamp t =
     (let prefix = trial_prefix base_prefix trial_number run_timestamp
      in case generate_jobs pgs count_arg prefix tenants max_priority t of
           (Inl e, t') \<Rightarrow> (Inl e, t')
         | (Inr job_ids, t') \<Rightarrow>
             (case run_dispatch_benchmark env (set job_ids) batch_size max_iterations t' of
                (Inl e, t'') \<Rightarrow> (Inl e, t'')
              | (Inr (dispatched_jobs, tick_count, printed), t'') \<Rightarrow>
                  (let elapsed_seconds = float_sub stopped started
                   in (Inr (\<lparr>tl_trial_number = trial_number, tl_prefix = prefix, tl_generated_jobs = int (length job_ids),
                        tl_dispatched_jobs = dispatched_jobs, tl_elapsed_seconds = elapsed_seconds,
                        tl_jobs_dispatched_per_second =
                          (if elapsed_seconds > 0 then float_div (float_of_int dispatched_jobs) elapsed_seconds else 0),
                        tl_tick_count = tick_count\<rparr>, printed), t''))))"

section \<open>The insert loop\<close>

definition generated_row :: "pg \<Rightarrow> string \<Rightarrow> int \<Rightarrow> int \<Rightarrow> (string \<times> json) list \<Rightarrow> int \<Rightarrow> job_row" where
  "generated_row p prefix tenants pri payload index =
     \<lparr>r_job_id = prefix @ ''-'' @ str_int index, r_tenant_id = ''tenant-'' @ str_int (index mod tenants), r_priority = pri,
      r_state = state_value QUEUED, r_payload = JObj payload, r_retry_count = 0, r_max_retries = 3,
      r_created_at = pg_now p, r_updated_at = pg_now p, r_dispatched_at = None, r_retry_after = None\<rparr>"

lemma insert_jobs_ok:
  assumes "distinct indices" "0 < tenants" "\<forall>i \<in> set indices. pg_fault (pgs i) = None"
    and "\<forall>i \<in> set indices. priority i = Inr (pri i) \<and> 0 \<le> pri i \<and> in_int4 (pri i)"
    and "\<forall>i \<in> set indices. prefix @ ''-'' @ str_int i \<notin> r_job_id ` set t"
  shows "insert_jobs pgs prefix tenants priority payload indices job_ids t =
    (Inr (job_ids @ map (\<lambda>i. prefix @ ''-'' @ str_int i) indices),
     t @ map (\<lambda>i. generated_row (pgs i) prefix tenants (pri i) (payload i) i) indices)"
  using assms
proof (induction indices arbitrary: job_ids t)
  case (Cons i indices)
  let ?row = "generated_row (pgs i) prefix tenants (pri i) (payload i) i"
  have "\<forall>j \<in> set indices. prefix @ ''-'' @ str_int j \<notin> r_job_id ` set (t @ [?row])"
    using Cons.prems(1,5) by (auto simp: generated_row_def)
  then have "insert_jobs pgs prefix tenants priority payload indices (job_ids @ [prefix @ ''-'' @ str_int i]) (t @ [?row]) =
    (Inr ((job_ids @ [prefix @ ''-'' @ str_int i]) @ map (\<lambda>i. prefix @ ''-'' @ str_int i) indices),
     (t @ [?row]) @ map (\<lambda>i. generated_row (pgs i) prefix tenants (pri i) (payload i) i) indices)"
    using Cons.prems by (intro Cons.IH) simp_all
  moreover have "create_job (pgs i) (prefix @ ''-'' @ str_int i) (''tenant-'' @ str_int (i mod tenants)) (pri i) (state_value QUEUED)
      (Some (payload i)) 3 t = (Inr (row_to_record ?row), t @ [?row])"
    using Cons.prems by (simp add: create_job_def generated_row_def in_int4_def Let_def)
  moreover have "priority i = Inr (pri i)" "tenants \<noteq> 0" using Cons.prems by auto
  ultimately show ?case
    by (simp add: load_tenant_id_def py_mod_def Let_def del: state_value.simps)
qed simp

section \<open>The dispatch loop\<close>

definition bench_inv :: "string set \<Rightarrow> string set \<Rightarrow> jobs_table \<Rightarrow> bool" where
  "bench_inv ours dispatched t \<longleftrightarrow> ids_distinct t \<and> finite ours \<and> dispatched \<subseteq> ours \<and> ours \<subseteq> r_job_id ` set t \<and>
     (\<forall>r \<in> set t. r_job_id r \<in> ours \<longrightarrow> BENCHMARK_PRIORITY_BASE \<le> r_priority r \<and>
        r_state r = state_value (if r_job_id r \<in> dispatched then DISPATCHED else QUEUED)) \<and>
     (\<forall>r \<in> set t. r_job_id r \<notin> ours \<and> r_state r = state_value QUEUED \<longrightarrow> r_priority r < BENCHMARK_PRIORITY_BASE)"

text \<open>A claim takes the benchmark's jobs before all others, as many as the batch allows.\<close>

lemma claim_takes_ours:
  assumes "bench_inv ours dispatched t" "pg_documented p" "set (pg_locked p) \<inter> ours = {}" "0 < batch"
  shows "r_job_id ` set (claimed_rows p batch t) \<inter> ours \<subseteq> ours - dispatched"
    and "card (r_job_id ` set (claimed_rows p batch t) \<inter> ours) = min (nat batch) (card (ours - dispatched))"
proof -
  let ?s = "claimed_rows p batch t" and ?q = "ours - dispatched" and ?N = "length (filter (schedulable p) t)"
  let ?o = "r_job_id ` set ?s \<inter> ours"
  have ids: "ids_distinct t" and fin: "finite ours" "ours \<subseteq> r_job_id ` set t" and
    rows: "\<And>r. r \<in> set t \<Longrightarrow> r_job_id r \<in> ours \<Longrightarrow> BENCHMARK_PRIORITY_BASE \<le> r_priority r \<and>
        r_state r = state_value (if r_job_id r \<in> dispatched then DISPATCHED else QUEUED)"
    "\<And>r. r \<in> set t \<Longrightarrow> r_job_id r \<notin> ours \<Longrightarrow> r_state r = state_value QUEUED \<Longrightarrow> r_priority r < BENCHMARK_PRIORITY_BASE"
    using assms(1) by (auto simp: bench_inv_def)
  have sub: "set ?s \<subseteq> {r \<in> set t. schedulable p r}" unfolding claimed_rows_def by (rule select_set [OF assms(2)])
  have sched: "schedulable p r \<longleftrightarrow> r_job_id r \<notin> dispatched" if "r \<in> set t" "r_job_id r \<in> ours" for r
    using rows(1) [OF that] that(2) assms(3) by (auto simp: schedulable_def unlocked_def)
  show oq: "?o \<subseteq> ?q" using sub sched by blast
  have len: "length ?s = min (nat batch) ?N"
    using select_length [OF assms(2), of "schedulable p" dispatch_order batch t] by (simp add: claimed_rows_def)
  have card_s: "card (r_job_id ` set ?s) = length ?s"
    using select_distinct [OF assms(2) ids] unfolding claimed_rows_def by (metis distinct_card length_map set_map)
  have "?q \<subseteq> r_job_id ` set (filter (schedulable p) t)" using fin(2) sched by auto
  then have qN: "card ?q \<le> ?N" by (metis card_length card_mono finite_imageI List.finite_set image_set length_map order_trans)
  have oc: "card ?o \<le> card ?q" using oq fin(1) by (intro card_mono) auto
  show "card ?o = min (nat batch) (card ?q)"
  proof (cases "r_job_id ` set ?s \<subseteq> ours")
    case True
    then have "card ?o = min (nat batch) ?N" using card_s len by (simp add: Int_absorb2)
    then show ?thesis using oc qN by linarith
  next
    case False
    then obtain s where s: "s \<in> set ?s" "r_job_id s \<notin> ours" by blast
    then have low: "r_priority s < BENCHMARK_PRIORITY_BASE" using sub rows(2) by (auto simp: schedulable_def)
    have "?q \<subseteq> ?o"
    proof
      fix i assume "i \<in> ?q"
      then obtain r where r: "r \<in> set t" "r_job_id r = i" "i \<in> ours" "schedulable p r" using fin(2) sched by blast
      show "i \<in> ?o"
      proof (rule ccontr)
        assume "i \<notin> ?o"
        then have "r \<notin> set ?s" using r by blast
        then have "dispatch_order s \<le> dispatch_order r"
          using select_best [OF assms(2) r(1), where P = "schedulable p" and s = s] r(4) s(1) unfolding claimed_rows_def by blast
        then have "r_priority r \<le> r_priority s" by (auto simp: dispatch_order_def less_eq_prod_def)
        then show False using low rows(1) [OF r(1)] r(2,3) by auto
      qed
    qed
    then have "card ?o = card ?q" using oq by (metis subset_antisym)
    moreover have "card ?o \<le> length ?s" using card_s by (metis card_mono finite_imageI List.finite_set Int_lower1)
    ultimately show ?thesis using len by linarith
  qed
qed

lemma note_dispatched:
  "foldl (\<lambda>d job_id. if job_id \<in> ours then insert job_id d else d) d ids = d \<union> (set ids \<inter> ours)"
  by (induction ids arbitrary: d) auto

definition quiet_env :: "bench_env \<Rightarrow> string set \<Rightarrow> bool" where
  "quiet_env env ours \<longleftrightarrow> (\<forall>n. pg_documented (be_ticks env n) \<and> pg_fault (be_ticks env n) = None \<and>
     set (pg_locked (be_ticks env n)) \<inter> ours = {}) \<and> be_others env = (\<lambda>n t. t)"

lemma bench_pass_ok:
  assumes "bench_inv ours (bs_dispatched s) (bs_table s)" "quiet_env env ours" "0 < batch"
  shows "\<exists>s'. bench_pass env ours batch s = (None, ours = bs_dispatched s, s') \<and>
    bench_inv ours (bs_dispatched s') (bs_table s') \<and> bs_tick_count s' = bs_tick_count s + 1 \<and>
    r_job_id ` set (bs_table s') = r_job_id ` set (bs_table s) \<and> bs_printed s' = bs_printed s \<and>
    {r \<in> set (bs_table s). r_state r \<noteq> state_value QUEUED} \<subseteq> set (bs_table s') \<and>
    card (ours - bs_dispatched s') = card (ours - bs_dispatched s) - nat batch"
proof -
  let ?p = "be_ticks env (bs_tick_count s)" and ?t = "bs_table s" and ?d = "bs_dispatched s"
  have p: "pg_documented ?p" "pg_fault ?p = None" "set (pg_locked ?p) \<inter> ours = {}" "be_others env = (\<lambda>n t. t)"
    using assms(2) by (auto simp: quiet_env_def)
  have inv: "ids_distinct ?t" "finite ours" "?d \<subseteq> ours" using assms(1) by (auto simp: bench_inv_def)
  obtain jobs t' where c: "claim_schedulable_jobs ?p batch ?t = (Inr jobs, t')" using claim_eq [OF p(2) assms(3)] by blast
  note ids = claim_ids [OF p(1) inv(1) c] and ours = claim_takes_ours [OF assms(1) p(1,3) assms(3)]
  let ?d' = "?d \<union> (jr_job_id ` set jobs \<inter> ours)"
  let ?s = "s\<lparr>bs_tick_count := bs_tick_count s + 1, bs_table := t', bs_dispatched := ?d'\<rparr>"
  have new: "jr_job_id ` set jobs \<inter> ours \<subseteq> ours - ?d" "card (jr_job_id ` set jobs \<inter> ours) = min (nat batch) (card (ours - ?d))"
    using ours unfolding ids(1) by auto
  have fin: "finite ?d" "finite (jr_job_id ` set jobs \<inter> ours)" using inv by (auto intro: finite_subset)
  have "card ?d' = card ?d + min (nat batch) (card (ours - ?d))"
    using card_Un_disjoint [OF fin] new by auto
  moreover have "card (ours - ?d) = 0 \<longleftrightarrow> ours = ?d" using inv by auto
  ultimately have stop: "card ?d' = card ?d \<longleftrightarrow> ours = ?d" using assms(3) by auto
  have "ours - ?d' = (ours - ?d) - (jr_job_id ` set jobs \<inter> ours)" by blast
  then have left: "card (ours - ?d') = card (ours - ?d) - nat batch"
    using card_Diff_subset [OF fin(2) new(1)] new(2) by (simp add: min_def)
  have upd: "map r_job_id t' = map r_job_id ?t"
    unfolding ids(2) update_where_def by simp
  then have upd': "r_job_id ` set t' = r_job_id ` set ?t" by (metis set_map)
  have keep: "{r \<in> set ?t. r_state r \<noteq> state_value QUEUED} \<subseteq> set t'"
  proof (clarify)
    fix r assume r: "r \<in> set ?t" "r_state r \<noteq> state_value QUEUED"
    have "r_job_id r \<notin> jr_job_id ` set jobs"
    proof
      assume "r_job_id r \<in> jr_job_id ` set jobs"
      then obtain q where q: "q \<in> set ?t" "schedulable ?p q" "r_job_id q = r_job_id r"
        using select_set [OF p(1), of "schedulable ?p" dispatch_order batch ?t] unfolding ids(1) claimed_rows_def by auto
      then have "q = r" using inv(1) r(1) by (auto simp: ids_distinct_def distinct_map inj_on_def)
      then show False using q(2) r(2) by (simp add: schedulable_def)
    qed
    then show "r \<in> set t'" using r(1) unfolding ids(2) update_where_def by force
  qed
  have row: "\<exists>q \<in> set ?t. r_job_id r = r_job_id q \<and> r_priority r = r_priority q \<and>
      r_state r = (if r_job_id q \<in> jr_job_id ` set jobs then state_value DISPATCHED else r_state q)" if "r \<in> set t'" for r
    using that unfolding ids(2) update_where_def by (force simp del: state_value.simps split: if_splits)
  have "bench_inv ours ?d' t'"
    unfolding bench_inv_def
  proof (intro conjI ballI impI)
    show "ids_distinct t'" "finite ours" "?d' \<subseteq> ours" "ours \<subseteq> r_job_id ` set t'"
      using assms(1) upd upd' by (auto simp: bench_inv_def ids_distinct_def)
    fix r assume "r \<in> set t'"
    then obtain q where q: "q \<in> set ?t" "r_job_id r = r_job_id q" "r_priority r = r_priority q"
      "r_state r = (if r_job_id q \<in> jr_job_id ` set jobs then state_value DISPATCHED else r_state q)" using row by blast
    have inv_q: "r_job_id q \<in> ours \<Longrightarrow> BENCHMARK_PRIORITY_BASE \<le> r_priority q \<and>
        r_state q = state_value (if r_job_id q \<in> ?d then DISPATCHED else QUEUED)"
      "r_job_id q \<notin> ours \<Longrightarrow> r_state q = state_value QUEUED \<Longrightarrow> r_priority q < BENCHMARK_PRIORITY_BASE"
      using assms(1) q(1) unfolding bench_inv_def by blast+
    show "BENCHMARK_PRIORITY_BASE \<le> r_priority r" "r_state r = state_value (if r_job_id r \<in> ?d' then DISPATCHED else QUEUED)"
      if "r_job_id r \<in> ours"
      using inv_q(1) that q by auto
    show "r_priority r < BENCHMARK_PRIORITY_BASE" if "r_job_id r \<notin> ours \<and> r_state r = state_value QUEUED"
      using inv_q(2) that q by (auto split: if_splits)
  qed
  moreover have "bench_pass env ours batch s = (None, ours = ?d, ?s)"
    using c p(4) stop by (simp add: bench_pass_def tick_run_once_def tick_result_of_def note_dispatched Let_def)
  ultimately show ?thesis using left upd' keep by (intro exI [of _ ?s]) (simp del: state_value.simps)
qed

definition ceil_div :: "nat \<Rightarrow> nat \<Rightarrow> nat" where
  "ceil_div a b = (a + b - 1) div b"

lemma ceil_div_step: "0 < b \<Longrightarrow> 0 < a \<Longrightarrow> ceil_div a b = Suc (ceil_div (a - b) b)"
proof -
  assume ab: "0 < b" "0 < a"
  then obtain c where c: "a = Suc c" using gr0_implies_Suc by blast
  have "ceil_div a b = Suc (c div b)" using ab(1) by (simp add: ceil_div_def c)
  moreover have "ceil_div (a - b) b = c div b" using ab(1) by (cases "a \<le> b") (simp_all add: ceil_div_def c)
  ultimately show ?thesis by simp
qed

text \<open>The loop dispatches all the jobs, in as few ticks as the batch size allows.\<close>

lemma bench_loop_ok:
  assumes "bench_inv ours (bs_dispatched s) (bs_table s)" "quiet_env env ours" "0 < batch"
    and "bs_tick_count s + int (ceil_div (card (ours - bs_dispatched s)) (nat batch)) \<le> max_iterations"
  shows "\<exists>s'. bench_loop env ours batch max_iterations s = (None, s') \<and> bs_dispatched s' = ours \<and>
    bench_inv ours ours (bs_table s') \<and> r_job_id ` set (bs_table s') = r_job_id ` set (bs_table s) \<and> bs_printed s' = bs_printed s \<and>
    {r \<in> set (bs_table s). r_state r \<noteq> state_value QUEUED} \<subseteq> set (bs_table s') \<and>
    bs_tick_count s' = bs_tick_count s + int (ceil_div (card (ours - bs_dispatched s)) (nat batch))"
  using assms
proof (induction "card (ours - bs_dispatched s)" arbitrary: s rule: less_induct)
  case less
  have inv: "finite ours" "bs_dispatched s \<subseteq> ours" using less.prems(1) by (auto simp: bench_inv_def)
  show ?case
  proof (cases "ours = bs_dispatched s")
    case True
    then have "bench_loop env ours batch max_iterations s = (None, s)" by (subst bench_loop.simps) simp
    then show ?thesis using True less.prems(1,3) by (intro exI [of _ s]) (auto simp: ceil_div_def)
  next
    case False
    then have lt: "card (bs_dispatched s) < card ours" "0 < card (ours - bs_dispatched s)"
      using inv by (auto intro!: psubset_card_mono simp: card_gt_0_iff)
    obtain s' where s': "bench_pass env ours batch s = (None, False, s')" "bench_inv ours (bs_dispatched s') (bs_table s')"
      "bs_tick_count s' = bs_tick_count s + 1" "card (ours - bs_dispatched s') = card (ours - bs_dispatched s) - nat batch"
      "r_job_id ` set (bs_table s') = r_job_id ` set (bs_table s)" "bs_printed s' = bs_printed s"
      "{r \<in> set (bs_table s). r_state r \<noteq> state_value QUEUED} \<subseteq> set (bs_table s')"
      using bench_pass_ok [OF less.prems(1-3)] False by auto
    have c: "ceil_div (card (ours - bs_dispatched s)) (nat batch) = Suc (ceil_div (card (ours - bs_dispatched s')) (nat batch))"
      using ceil_div_step [of "nat batch" "card (ours - bs_dispatched s)"] less.prems(3) lt(2) s'(4) by simp
    then have "bench_loop env ours batch max_iterations s = bench_loop env ours batch max_iterations s'"
      using lt(1) s'(1) less.prems(4) by (simp add: bench_loop.simps [of env ours batch max_iterations s])
    moreover have "card (ours - bs_dispatched s') < card (ours - bs_dispatched s)" using s'(4) lt(2) less.prems(3) by simp
    ultimately obtain s'' where "bench_loop env ours batch max_iterations s = (None, s'')" "bs_dispatched s'' = ours"
      "bench_inv ours ours (bs_table s'')" "r_job_id ` set (bs_table s'') = r_job_id ` set (bs_table s')" "bs_printed s'' = bs_printed s'"
      "{r \<in> set (bs_table s'). r_state r \<noteq> state_value QUEUED} \<subseteq> set (bs_table s'')"
      "bs_tick_count s'' = bs_tick_count s' + int (ceil_div (card (ours - bs_dispatched s')) (nat batch))"
      using less.hyps [OF _ s'(2) less.prems(2,3)] less.prems(4) s'(3) c by auto
    then show ?thesis using s'(3,5-7) c by (intro exI [of _ s'']) auto
  qed
qed

text \<open>The safety cap leaves room for these ticks, although it is computed in floating point.\<close>

lemma iterations_enough:
  assumes "0 < batch" "0 < n" "n < 2 ^ 53" "max_tick_iterations n batch = Inr limit"
  shows "int (ceil_div (nat n) (nat batch)) \<le> limit"
proof -
  let ?x = "rat_of_int n / rat_of_int batch"
  have l: "limit \<ge> \<lceil>fl ?x\<rceil> + 10" using assms(1,4) by (auto simp: max_tick_iterations_def int_truediv_def Let_def)
  have x: "?x < 2 ^ 53"
  proof -
    have "rat_of_int n < 2 ^ 53" using assms(3) by (metis of_int_less_iff of_int_numeral of_int_power)
    moreover have "?x \<le> rat_of_int n" using assms(1,2) by (simp add: divide_le_eq mult_le_cancel_left1)
    ultimately show ?thesis by linarith
  qed
  have f: "?x - 1 \<le> fl ?x"
  proof (cases "1 \<le> ?x")
    case True
    have "?x / 2 ^ 53 \<le> 1" using x by simp
    then show ?thesis using fl_error [OF True] by linarith
  next
    case False
    moreover have "0 \<le> fl ?x" using assms(1,2) by (intro fl_nonneg) simp
    ultimately show ?thesis by linarith
  qed
  have "int (ceil_div (nat n) (nat batch)) = (n + batch - 1) div batch"
    using assms(1,2) by (simp add: ceil_div_def zdiv_int nat_add_distrib of_nat_diff)
  moreover have "rat_of_int ((n + batch - 1) div batch) \<le> ?x + 1"
  proof -
    have "rat_of_int ((n + batch - 1) div batch) \<le> rat_of_int (n + batch - 1) / rat_of_int batch"
      by (metis floor_divide_of_int_eq of_int_floor_le)
    also have "\<dots> \<le> ?x + 1" using assms(1) by (simp add: divide_simps)
    finally show ?thesis .
  qed
  ultimately show ?thesis using f l by linarith
qed

section \<open>One trial\<close>

text \<open>What a trial that dispatches all its jobs in the least number of ticks reports.\<close>

definition ideal_trial :: "int \<Rightarrow> string \<Rightarrow> int \<Rightarrow> int \<Rightarrow> py_float \<Rightarrow> py_float \<Rightarrow> int \<Rightarrow> trial_result" where
  "ideal_trial n base timestamp batch started stopped trial =
     (let elapsed = float_sub stopped started in
      \<lparr>tl_trial_number = trial, tl_prefix = trial_prefix base trial timestamp, tl_generated_jobs = n, tl_dispatched_jobs = n,
       tl_elapsed_seconds = elapsed, tl_jobs_dispatched_per_second = (if elapsed > 0 then float_div (float_of_int n) elapsed else 0),
       tl_tick_count = int (ceil_div (nat n) (nat batch))\<rparr>)"

text \<open>One trial generates its jobs and dispatches all of them, and leaves no other queued row above the base priority.\<close>

lemma trial_dispatches_all:
  assumes "validate_bench_args n tenants max_priority batch trials = None" and "n < 2 ^ 53"
    and "in_int4 (BENCHMARK_PRIORITY_BASE + max_priority)" and "max_tick_iterations n batch = Inr limit"
    and "\<forall>i. pg_fault (pgs i) = None" and "quiet_env env (set ids)" and "ids_distinct t"
    and "ids = map (\<lambda>i. trial_prefix base trial timestamp @ ''-'' @ str_int i) (py_range n)"
    and "\<forall>r \<in> set t. r_job_id r \<notin> set ids"
    and "\<forall>r \<in> set t. r_state r = state_value QUEUED \<longrightarrow> r_priority r < BENCHMARK_PRIORITY_BASE"
  shows "\<exists>t'. run_single_trial pgs env started stopped trial base n tenants max_priority batch limit timestamp t =
       (Inr (ideal_trial n base timestamp batch started stopped trial, []), t') \<and>
     (\<forall>i \<in> set ids. \<exists>r \<in> set t'. r_job_id r = i \<and> r_state r = ''dispatched'') \<and> ids_distinct t' \<and>
     r_job_id ` set t' = r_job_id ` set t \<union> set ids \<and>
     (\<forall>r \<in> set t'. r_state r = state_value QUEUED \<longrightarrow> r_priority r < BENCHMARK_PRIORITY_BASE) \<and>
     {r \<in> set t. r_state r \<noteq> state_value QUEUED} \<subseteq> set t'"
proof -
  have args: "0 < n" "0 < tenants" "0 \<le> max_priority" "0 < batch"
    using assms(1) by (auto simp: validate_bench_args_def split: if_splits)
  define prefix pri payload where "prefix = trial_prefix base trial timestamp"
    and "pri i = BENCHMARK_PRIORITY_BASE + i mod (max_priority + 1)"
    and "payload i = [(''kind'', JStr ''sched-bench''), (''index'', JInt i), (''trial_prefix'', JStr prefix)]" for i :: int
  have pri: "bench_priority i max_priority = Inr (pri i) \<and> BENCHMARK_PRIORITY_BASE \<le> pri i \<and> in_int4 (pri i)" for i
  proof -
    have "0 < max_priority + 1" using args(3) by simp
    then have "0 \<le> i mod (max_priority + 1)" "i mod (max_priority + 1) < max_priority + 1"
      using pos_mod_sign pos_mod_bound by blast+
    then show ?thesis
      using assms(3) args(3)
      by (auto simp: bench_priority_def py_mod_def pri_def in_int4_def BENCHMARK_PRIORITY_BASE_def Let_def)
  qed
  let ?row = "\<lambda>i. generated_row (pgs i) prefix tenants (pri i) (payload i) i" and ?ix = "py_range n"
  let ?t = "t @ map ?row ?ix"
  have ids: "ids = map (\<lambda>i. prefix @ ''-'' @ str_int i) ?ix" "map r_job_id (map ?row ?ix) = ids"
    by (simp_all add: assms(8) prefix_def generated_row_def)
  have dist: "distinct ids" by (simp add: ids(1) py_range_def distinct_map inj_on_def)
  have ix: "distinct ?ix" by (simp add: py_range_def distinct_map)
  have pre: "\<forall>i \<in> set ?ix. bench_priority i max_priority = Inr (pri i) \<and> 0 \<le> pri i \<and> in_int4 (pri i)"
  proof
    fix i
    show "bench_priority i max_priority = Inr (pri i) \<and> 0 \<le> pri i \<and> in_int4 (pri i)"
      using pri [of i] by (simp add: BENCHMARK_PRIORITY_BASE_def)
  qed
  have fresh: "\<forall>i \<in> set ?ix. prefix @ ''-'' @ str_int i \<notin> r_job_id ` set t" using assms(9) unfolding ids(1) by force
  have fault: "\<forall>i \<in> set ?ix. pg_fault (pgs i) = None" using assms(5) by simp
  have g: "generate_jobs pgs n prefix tenants max_priority t = (Inr ids, ?t)"
    using insert_jobs_ok [OF ix args(2) fault pre fresh, of payload "[]"]
    unfolding generate_jobs_def ids(1) payload_def by simp
  have inv: "bench_inv (set ids) {} ?t"
    unfolding bench_inv_def
  proof (intro conjI ballI impI)
    show "ids_distinct ?t" using assms(7,9) dist ids(2) by (auto simp: ids_distinct_def)
    have "r_job_id ` set (map ?row ?ix) = set ids" using arg_cong [OF ids(2), of set] by (simp only: set_map)
    then show "set ids \<subseteq> r_job_id ` set ?t" unfolding set_append image_Un by blast
    show "BENCHMARK_PRIORITY_BASE \<le> r_priority r" "r_state r = state_value (if r_job_id r \<in> {} then DISPATCHED else QUEUED)"
      if "r \<in> set ?t" "r_job_id r \<in> set ids" for r
      using that assms(9) pri by (auto simp: generated_row_def)
    show "r_priority r < BENCHMARK_PRIORITY_BASE" if "r \<in> set ?t" "r_job_id r \<notin> set ids \<and> r_state r = state_value QUEUED" for r
      using that assms(10) ids(2) by auto
  qed simp_all
  let ?s = "\<lparr>bs_dispatched = {}, bs_tick_count = 0, bs_table = ?t, bs_runner = tick_state_init mem_init (), bs_printed = []\<rparr>"
  have card: "card (set ids) = nat n" using distinct_card [OF dist] by (simp add: ids(1) py_range_def)
  from bench_loop_ok [of "set ids" ?s env batch limit] inv assms(6) args(4) iterations_enough [OF args(4,1) assms(2,4)] card
  obtain s where s: "bench_loop env (set ids) batch limit ?s = (None, s)" "bs_dispatched s = set ids"
    "bench_inv (set ids) (set ids) (bs_table s)" "bs_tick_count s = int (ceil_div (nat n) (nat batch))" 
    "r_job_id ` set (bs_table s) = r_job_id ` set ?t" "bs_printed s = []"
    "{r \<in> set ?t. r_state r \<noteq> state_value QUEUED} \<subseteq> set (bs_table s)" by (auto simp del: state_value.simps)
  have r: "run_dispatch_benchmark env (set ids) batch limit ?t = (Inr (n, int (ceil_div (nat n) (nat batch)), bs_printed s), bs_table s)"
    using s card args(1,4) by (simp add: run_dispatch_benchmark_def tick_init_def)
  have "length ids = nat n" by (simp add: ids(1) py_range_def)
  then have run: "run_single_trial pgs env started stopped trial base n tenants max_priority batch limit timestamp t =
      (Inr (ideal_trial n base timestamp batch started stopped trial, []), bs_table s)"
    using r g args(1) s(6) unfolding run_single_trial_def ideal_trial_def prefix_def [symmetric] Let_def by simp
  have "r_job_id ` set (map ?row ?ix) = set ids" using arg_cong [OF ids(2), of set] by (simp only: set_map)
  then have "r_job_id ` set (bs_table s) = r_job_id ` set t \<union> set ids" using s(5) by (simp add: image_Un)
  moreover have "r_priority r < BENCHMARK_PRIORITY_BASE" if "r \<in> set (bs_table s)" "r_state r = state_value QUEUED" for r
    using s(3) that by (cases "r_job_id r \<in> set ids") (auto simp: bench_inv_def)
  moreover have "\<forall>i \<in> set ids. \<exists>r \<in> set (bs_table s). r_job_id r = i \<and> r_state r = ''dispatched''" "ids_distinct (bs_table s)"
    using s(3) by (auto simp: bench_inv_def)
  moreover have "{r \<in> set t. r_state r \<noteq> state_value QUEUED} \<subseteq> set (bs_table s)" using s(7) by auto
  ultimately show ?thesis using run by blast
qed

end
