(* ===== verification/Operator_Scripts.thy ===== *)
theory Operator_Scripts
  imports Retry_Scanner Result_Consumer Idempotency_Config Prometheus_Metrics Db_Connection
begin

text \<open>
  The one-shot scripts of \<open>control_plane/scripts\<close> that operators and cron run: a scheduler tick, a
  retry scan, one poll of the result topic, the dead-letter tools, the snapshots and the seeding of
  latency samples. A run prints lines and ends normally, with an exit code or with an exception.
  \<open>conn\<close> is the error of opening the connections, if there is one. Code points above 255
  are printed with \<open>wide\<close>, floats with \<open>frepr\<close>, timestamps with \<open>dtrepr\<close>.
\<close>

datatype outcome = Finished | ExitCode int | Raised exc

record script_run =
  so_stdout :: "string list"
  so_stderr :: "string list"
  so_outcome :: outcome

definition finished :: "string list \<Rightarrow> script_run" where
  "finished ls = \<lparr>so_stdout = ls, so_stderr = [], so_outcome = Finished\<rparr>"

definition raised :: "string list \<Rightarrow> exc \<Rightarrow> script_run" where
  "raised ls e = \<lparr>so_stdout = ls, so_stderr = [], so_outcome = Raised e\<rparr>"

text \<open>Printing a structured line that may itself raise.\<close>

definition then_log :: "string list \<Rightarrow> string result \<Rightarrow> script_run" where
  "then_log ls line = (case line of Inl e \<Rightarrow> raised ls e | Inr l \<Rightarrow> finished (ls @ [l]))"

section \<open>Dead letters\<close>

definition REQUEUE_USAGE :: string where
  "REQUEUE_USAGE = ''usage: requeue_dead_lettered_job.py <job_id>''"

definition requeue_script :: "exc option \<Rightarrow> pg \<Rightarrow> string list \<Rightarrow> jobs_table \<Rightarrow> script_run \<times> jobs_table" where
  "requeue_script conn p argv t =
     (case argv of
        [_, arg] \<Rightarrow>
          if is_blank arg then (\<lparr>so_stdout = [], so_stderr = [REQUEUE_USAGE], so_outcome = ExitCode 1\<rparr>, t)
          else
            (let job_id = py_strip arg in
             case conn of
               Some e \<Rightarrow> (raised [] e, t)
             | None \<Rightarrow>
                 (case requeue_dead_lettered_job p job_id t of
                    (Inl e, t') \<Rightarrow> (raised [] e, t')
                  | (Inr True, t') \<Rightarrow> (finished [''requeued job_id='' @ job_id @ '' state=queued''], t')
                  | (Inr False, t') \<Rightarrow>
                      (\<lparr>so_stdout = [''not requeued job_id='' @ job_id @ '' reason=not_found_or_not_dead_lettered''],
                        so_stderr = [], so_outcome = ExitCode 1\<rparr>, t')))
      | _ \<Rightarrow> (\<lparr>so_stdout = [], so_stderr = [REQUEUE_USAGE], so_outcome = ExitCode 1\<rparr>, t))"

definition DEAD_LETTER_LIMIT :: int where "DEAD_LETTER_LIMIT = 20"

definition print_dead_letter :: "(py_float \<Rightarrow> string) \<Rightarrow> (int \<Rightarrow> string) \<Rightarrow> dead_letter_view \<Rightarrow> string list" where
  "print_dead_letter frepr dtrepr job =
     [''  job_id:       '' @ dl_job_id job,
      ''  tenant_id:    '' @ dl_tenant_id job,
      ''  priority:     '' @ str_int (dl_priority job),
      ''  retries:      '' @ str_int (dl_retry_count job) @ ''/'' @ str_int (dl_max_retries job),
      ''  updated_at:   '' @ dtrepr (dl_updated_at job),
      ''  payload:      '' @ json_dumps frepr True (JObj (dl_payload job))]"

definition list_dead_letters_script :: "(py_float \<Rightarrow> string) \<Rightarrow> (int \<Rightarrow> string) \<Rightarrow> exc option \<Rightarrow> pg \<Rightarrow> jobs_table \<Rightarrow> script_run" where
  "list_dead_letters_script frepr dtrepr conn p t =
     (case conn of
        Some e \<Rightarrow> raised [] e
      | None \<Rightarrow>
          (case list_dead_lettered_jobs p DEAD_LETTER_LIMIT t of
             Inl e \<Rightarrow> raised [] e
           | Inr jobs \<Rightarrow>
               if jobs = [] then finished [''No dead-lettered jobs found.'']
               else finished ([''Dead-lettered jobs (showing up to '' @ str_int DEAD_LETTER_LIMIT @ '', newest first):'', []] @
                 concat (map (\<lambda>(index, job). (''['' @ str_nat index @ '']'') # print_dead_letter frepr dtrepr job @ [[]])
                   (zip [1..<Suc (length jobs)] jobs)))))"

section \<open>Snapshots\<close>

definition state_snapshot_script :: "(py_float \<Rightarrow> string) \<Rightarrow> exc option \<Rightarrow> pg \<Rightarrow> jobs_table \<Rightarrow> script_run" where
  "state_snapshot_script frepr conn p t =
     (case conn of
        Some e \<Rightarrow> raised [] e
      | None \<Rightarrow>
          (case count_jobs_by_state p t of
             Inl e \<Rightarrow> raised [] e
           | Inr counts \<Rightarrow>
               then_log (''Job state counts:'' #
                   (if counts = [] then [''  (none)'']
                    else map (\<lambda>(state, n). ''  '' @ state @ '': '' @ str_int n) (sort_key fst counts)))
                 (format_log_event frepr ''job_state_snapshot''
                   [(''total_jobs'', JInt (sum_list (map snd counts))), (''states_count'', JInt (int (length counts)))])))"

definition DEFAULT_JOB_LIMIT :: int where "DEFAULT_JOB_LIMIT = 100000"

definition duration_snapshot_script :: "(py_float \<Rightarrow> string) \<Rightarrow> exc option \<Rightarrow> pg \<Rightarrow> jobs_table \<Rightarrow> script_run" where
  "duration_snapshot_script frepr conn p t =
     (case conn of
        Some e \<Rightarrow> raised [] e
      | None \<Rightarrow>
          (case list_jobs p DEFAULT_JOB_LIMIT t of
             Inl e \<Rightarrow> raised [] e
           | Inr jobs \<Rightarrow>
               (let m = compute_job_duration_metrics (map view_of_record jobs);
                    floats = [(''average_queue_wait_seconds'', jd_average_queue_wait_seconds m),
                      (''average_completion_seconds'', jd_average_completion_seconds m),
                      (''p50_queue_wait_seconds'', jd_p50_queue_wait_seconds m), (''p95_queue_wait_seconds'', jd_p95_queue_wait_seconds m),
                      (''p99_queue_wait_seconds'', jd_p99_queue_wait_seconds m)]
                in then_log ([''Job duration metrics:'', ''  completed_jobs_count: '' @ str_int (jd_completed_jobs_count m)] @
                       map (\<lambda>(name, x). ''  '' @ name @ '': '' @ frepr x) floats)
                     (format_log_event frepr ''job_duration_snapshot''
                       ((''completed_jobs_count'', JInt (jd_completed_jobs_count m)) # map (\<lambda>(name, x). (name, JFloat x)) floats)))))"

section \<open>One scheduler tick\<close>

definition bullet_list :: "string \<Rightarrow> string list \<Rightarrow> string list" where
  "bullet_list none items = (if items = [] then [none] else map (\<lambda>s. ''    - '' @ s) items)"

definition print_tick_summary :: "(nat \<Rightarrow> string) \<Rightarrow> tick_result \<Rightarrow> string list" where
  "print_tick_summary wide r =
     [''Scheduler tick finished.'', [],
      ''  selected_count:    '' @ str_int (tr_selected_count r), ''  dispatched_count:  '' @ str_int (tr_dispatched_count r),
      ''  published_count:   '' @ str_int (tr_published_count r),
      ''  duplicate_dispatches: '' @ str_int (tr_duplicate_dispatches r), [],
      ''  dispatched_job_ids:''] @
     bullet_list (''    (none '' @ wide 0x2014 @ '' no queued jobs were claimed this tick)'') (tr_dispatched_job_ids r) @
     [[], ''  errors:''] @ bullet_list ''    (none)'' (tr_errors r) @
     [[], ''  publish_errors:''] @ bullet_list ''    (none)'' (tr_publish_errors r)"

definition tick_log_line :: "(py_float \<Rightarrow> string) \<Rightarrow> tick_result \<Rightarrow> string result" where
  "tick_log_line frepr r =
     format_log_event frepr ''scheduler_tick''
       [(''selected_count'', JInt (tr_selected_count r)), (''dispatched_count'', JInt (tr_dispatched_count r)),
        (''published_count'', JInt (tr_published_count r)), (''duplicate_dispatches'', JInt (tr_duplicate_dispatches r)),
        (''errors_count'', JInt (int (length (tr_errors r)))), (''publish_errors_count'', JInt (int (length (tr_publish_errors r))))]"

text \<open>
  The tick runs with a new in-memory store; the lines it prints itself come first. The producer's
  \<open>close\<close> runs whatever happened, and an exception of it replaces an earlier one.
\<close>

definition tick_script ::
    "(py_float \<Rightarrow> string) \<Rightarrow> (nat \<Rightarrow> string) \<Rightarrow> (exc \<Rightarrow> string) \<Rightarrow> exc option \<Rightarrow> 'k publisher \<Rightarrow> ('k \<Rightarrow> exc option \<times> 'k) \<Rightarrow> (nat \<Rightarrow> py_float)
     \<Rightarrow> pg \<Rightarrow> jobs_table \<times> 'k \<Rightarrow> script_run \<times> jobs_table \<times> 'k" where
  "tick_script frepr wide ext conn publish flush clock p tk =
     (case tk of (t, k) \<Rightarrow>
      (case conn of
         Some e \<Rightarrow> (raised [] e, t, k)
       | None \<Rightarrow>
           (case tick_run_once frepr ext mem_try_claim DEFAULT_DISPATCH_DEDUPE_TTL_SECONDS (Some publish) clock p 1
                (t, tick_state_init mem_init k) of
              (r, t', st) \<Rightarrow>
                (let run = (case r of
                       Inl e \<Rightarrow> raised (tk_printed st) e
                     | Inr result \<Rightarrow> then_log (tk_printed st @ print_tick_summary wide result) (tick_log_line frepr result))
                 in case producer_close flush (tk_producer st) of
                      (Some e, k') \<Rightarrow> (run\<lparr>so_outcome := Raised e\<rparr>, t', k')
                    | (None, k') \<Rightarrow> (run, t', k')))))"

section \<open>One retry scan\<close>

definition MAX_JOBS_PER_SCAN :: int where "MAX_JOBS_PER_SCAN = 100"

definition print_scan_summary :: "(nat \<Rightarrow> string) \<Rightarrow> scanner_result \<Rightarrow> string list" where
  "print_scan_summary wide r =
     [''Retry scan finished.'', [],
      ''  scanned_at:       '' @ str_int (sc_scanned_at r), ''  requeued_count:   '' @ str_int (sc_requeued_count r), [],
      ''  requeued_job_ids:''] @
     bullet_list (''    (none '' @ wide 0x2014 @ '' no due retry_scheduled jobs this scan)'') (sc_requeued_job_ids r) @
     [[], ''  errors:''] @ bullet_list ''    (none)'' (sc_errors r)"

definition scan_log_line :: "(py_float \<Rightarrow> string) \<Rightarrow> scanner_result \<Rightarrow> string result" where
  "scan_log_line frepr r =
     format_log_event frepr ''retry_scanner''
       ([(''requeued_count'', JInt (sc_requeued_count r)), (''errors_count'', JInt (int (length (sc_errors r))))] @
        (if sc_requeued_job_ids r = [] then [] else [(''requeued_job_ids'', JList (map JStr (sc_requeued_job_ids r)))]))"

definition scan_script ::
    "(py_float \<Rightarrow> string) \<Rightarrow> (nat \<Rightarrow> string) \<Rightarrow> (exc \<Rightarrow> string) \<Rightarrow> exc option \<Rightarrow> py_float \<Rightarrow> pg \<Rightarrow> jobs_table \<Rightarrow> script_run \<times> jobs_table" where
  "scan_script frepr wide ext conn clock p t =
     (case conn of
        Some e \<Rightarrow> (raised [] e, t)
      | None \<Rightarrow>
          (case scanner_init MAX_JOBS_PER_SCAN of
             Inl e \<Rightarrow> (raised [] e, t)
           | Inr limit \<Rightarrow>
               (case scanner_run_once ext True limit p clock None t of
                  (r, t') \<Rightarrow> (then_log (print_scan_summary wide r) (scan_log_line frepr r), t'))))"

section \<open>One poll of the results\<close>

definition consume_log_line :: "(py_float \<Rightarrow> string) \<Rightarrow> bool \<Rightarrow> int \<Rightarrow> string option \<Rightarrow> string result" where
  "consume_log_line frepr processed_message errors_count error =
     format_log_event frepr ''result_consumer''
       ([(''processed_message'', JBool processed_message), (''errors_count'', JInt errors_count)] @
        (case error of None \<Rightarrow> [] | Some e \<Rightarrow> [(''error'', JStr e)]))"

definition shutdown_summary :: "(py_float \<Rightarrow> string) \<Rightarrow> env \<Rightarrow> string \<Rightarrow> int \<Rightarrow> int \<Rightarrow> string list result" where
  "shutdown_summary frepr env backend processed_messages duplicate_messages =
     bind_res (format_log_event frepr ''result_consumer_summary''
         [(''duplicate_messages'', JInt duplicate_messages), (''idempotency_backend'', JStr backend),
          (''processed_messages'', JInt processed_messages)]) (\<lambda>line.
       (let ls = [''processed_messages='' @ str_int processed_messages, ''duplicate_messages='' @ str_int duplicate_messages,
              ''idempotency_backend='' @ backend, line]
        in if py_lower (env_get env ''KERNELQ_PRINT_RESULT_CONSUMER_PROMETHEUS'' []) \<in> {''1'', ''true'', ''yes''}
           then bind_res (format_result_consumer_metrics frepr (SInt processed_messages) (SInt duplicate_messages)) (\<lambda>m. Inr (ls @ [m]))
           else Inr ls))"

text \<open>
  The body of the \<open>try\<close>: what \<open>poll_once\<close> answered, and the runner if it was built. \<open>kafka\<close> is the
  error of constructing the consumer, \<open>polled\<close> what the broker's poll returned.
\<close>

definition consume_body ::
    "(py_float \<Rightarrow> string) \<Rightarrow> (nat \<Rightarrow> string) \<Rightarrow> env \<Rightarrow> exc option \<Rightarrow> exc option \<Rightarrow> (store_config \<Rightarrow> ('s, 't) try_claim) \<Rightarrow> (store_config \<Rightarrow> 's)
     \<Rightarrow> pg \<Rightarrow> py_float \<Rightarrow> 't \<Rightarrow> kafka_message option \<Rightarrow> jobs_table \<Rightarrow> bool result \<times> ('s, jobs_table) runner option" where
  "consume_body frepr wide env conn kafka claim store p clock now polled t =
     (case conn of
        Some e \<Rightarrow> (Inl e, None)
      | None \<Rightarrow>
          (case build_idempotency_store_from_env env of
             Inl e \<Rightarrow> (Inl e, None)
           | Inr cfg \<Rightarrow>
               (let rn = runner_init (store cfg) t in
                case kafka of
                  Some e \<Rightarrow> (Inl e, Some rn)
                | None \<Rightarrow>
                    map_prod id Some
                      (poll_once wide (Some (process_message frepr wide (claim cfg) DEFAULT_DEDUPE_TTL_SECONDS
                         (Some (handle_result True p clock)) now)) polled rn))))"

text \<open>The lines of the \<open>finally\<close> clause; its own exception would replace the one under way.\<close>

definition with_shutdown :: "string list result \<Rightarrow> script_run \<Rightarrow> script_run" where
  "with_shutdown summary run =
     (case summary of
        Inl e \<Rightarrow> run\<lparr>so_outcome := Raised e\<rparr>
      | Inr ls \<Rightarrow> run\<lparr>so_stdout := so_stdout run @ ls\<rparr>)"

definition consume_script ::
    "(py_float \<Rightarrow> string) \<Rightarrow> (nat \<Rightarrow> string) \<Rightarrow> (exc \<Rightarrow> string) \<Rightarrow> env \<Rightarrow> exc option \<Rightarrow> exc option \<Rightarrow> (store_config \<Rightarrow> ('s, 't) try_claim)
     \<Rightarrow> (store_config \<Rightarrow> 's) \<Rightarrow> pg \<Rightarrow> py_float \<Rightarrow> 't \<Rightarrow> kafka_message option \<Rightarrow> jobs_table \<Rightarrow> script_run \<times> jobs_table" where
  "consume_script frepr wide exc_str env conn kafka claim store p clock now polled t =
     (case resolve_idempotency_backend env of
        Inl e \<Rightarrow> (raised [] e, t)
      | Inr backend \<Rightarrow>
          (case consume_body frepr wide env conn kafka claim store p clock now polled t of (answer, runner) \<Rightarrow>
             (let out = (''idempotency_backend='' @ backend) # (case runner of None \<Rightarrow> [] | Some rn \<Rightarrow> rn_printed rn);
                  run = (case answer of
                      Inr processed \<Rightarrow>
                        then_log (out @ [''poll_result: processed_message='' @ (if processed then ''true'' else ''false'')])
                          (consume_log_line frepr processed 0 None)
                    | Inl e \<Rightarrow> (then_log out (consume_log_line frepr False 1 (Some (exc_str e))))\<lparr>so_outcome := Raised e\<rparr>)
              in case runner of
                   None \<Rightarrow> (run, t)
                 | Some rn \<Rightarrow>
                     (case runner_stats rn of (duplicate_messages, processed_messages) \<Rightarrow>
                        (with_shutdown (shutdown_summary frepr env backend processed_messages duplicate_messages) run,
                         rn_handler rn)))))"

section \<open>Latency samples\<close>

definition QUEUE_WAIT_SECONDS :: "int list" where "QUEUE_WAIT_SECONDS = [1, 2, 3, 5, 10]"

definition COMPLETION_AFTER_DISPATCH_SECONDS :: "int list" where
  "COMPLETION_AFTER_DISPATCH_SECONDS = [2, 3, 5, 8, 12, 15, 20]"

definition JOB_COUNT :: nat where "JOB_COUNT = 20"

definition two_digits :: "nat \<Rightarrow> string" where
  "two_digits n = (if n < 10 then CHR ''0'' # str_nat n else str_nat n)"

definition seed_job_id :: "int \<Rightarrow> nat \<Rightarrow> string" where
  "seed_job_id run_id index = ''seed-latency-'' @ str_int run_id @ ''-'' @ two_digits index"

text \<open>
  One pass of the loop: \<open>now\<close> is \<open>datetime.now\<close> in microseconds, \<open>p\<close> the server at the insert and
  \<open>q\<close> at the update.
\<close>

definition seed_one :: "int \<Rightarrow> int \<Rightarrow> pg \<Rightarrow> pg \<Rightarrow> nat \<Rightarrow> jobs_table \<Rightarrow> exc option \<times> jobs_table" where
  "seed_one run_id now p q index t =
     (let job_id = seed_job_id run_id index;
          queue_wait = QUEUE_WAIT_SECONDS ! (index mod length QUEUE_WAIT_SECONDS);
          completion_extra = COMPLETION_AFTER_DISPATCH_SECONDS ! (index mod length COMPLETION_AFTER_DISPATCH_SECONDS);
          created_at = now - (24 * 3600 + int index * 11) * 1000000;
          dispatched_at = created_at + queue_wait * 1000000;
          updated_at = dispatched_at + completion_extra * 1000000
      in case create_job p job_id ''tenant-a'' 1 (state_value SUCCEEDED) (Some [(''kind'', JStr ''seed_latency_metrics'')]) 3 t of
           (Inl e, t') \<Rightarrow> (Some e, t')
         | (Inr record, t') \<Rightarrow>
             (case pg_fault q of
                Some e \<Rightarrow> (Some e, t')
              | None \<Rightarrow> (None, update_where (\<lambda>r. r_job_id r = job_id)
                  (\<lambda>r. r\<lparr>r_state := state_value SUCCEEDED, r_created_at := created_at, r_dispatched_at := Some dispatched_at,
                         r_updated_at := updated_at\<rparr>) t')))"

fun seed_from :: "int \<Rightarrow> (nat \<Rightarrow> int) \<Rightarrow> (nat \<Rightarrow> pg) \<Rightarrow> (nat \<Rightarrow> pg) \<Rightarrow> nat list \<Rightarrow> int \<Rightarrow> jobs_table \<Rightarrow> int result \<times> jobs_table" where
  "seed_from run_id now p q [] created t = (Inr created, t)"
| "seed_from run_id now p q (index # rest) created t =
     (case seed_one run_id (now index) (p index) (q index) index t of
        (Some e, t') \<Rightarrow> (Inl e, t')
      | (None, t') \<Rightarrow> seed_from run_id now p q rest (created + 1) t')"

definition seed_script ::
    "(py_float \<Rightarrow> string) \<Rightarrow> exc option \<Rightarrow> int \<Rightarrow> (nat \<Rightarrow> int) \<Rightarrow> (nat \<Rightarrow> pg) \<Rightarrow> (nat \<Rightarrow> pg) \<Rightarrow> jobs_table \<Rightarrow> script_run \<times> jobs_table" where
  "seed_script frepr conn run_id now p q t =
     (case conn of
        Some e \<Rightarrow> (raised [] e, t)
      | None \<Rightarrow>
          (case seed_from run_id now p q [0..<JOB_COUNT] 0 t of
             (Inl e, t') \<Rightarrow> (raised [] e, t')
           | (Inr created, t') \<Rightarrow>
               (then_log [''created_jobs='' @ str_int created]
                  (format_log_event frepr ''seed_latency_metrics'' [(''created_jobs'', JInt created)]), t')))"

section \<open>Properties\<close>

lemma sum_counts:
  assumes "mset ys = mset xs"
  shows "sum_list (map (\<lambda>s. int (count_list xs s)) (remdups ys)) = int (length xs)"
proof -
  have "sum_list (map (\<lambda>s. int (count_list xs s)) (remdups ys)) = (\<Sum>s \<in> set xs. int (count_list xs s))"
    using mset_eq_setD [OF assms] by (simp add: sum_list_distinct_conv_sum_set)
  also have "\<dots> = int (length xs)" by (simp only: of_nat_sum [symmetric] sum_count_set [OF order_refl finite_set])
  finally show ?thesis .
qed

text \<open>
  The snapshot's summary line counts every row of the table once and every state that occurs once.
\<close>

theorem state_snapshot_total:
  assumes "pg_documented p" and "pg_fault p = None"
  shows "\<exists>ls. state_snapshot_script frepr None p t =
     finished (ls @ [''event=job_state_snapshot states_count='' @ str_int (int (card (r_state ` set t))) @
       '' total_jobs='' @ str_int (int (length t))])"
proof -
  let ?c = "map (\<lambda>s. (s, int (count_list (map r_state t) s))) (remdups (map r_state (pg_scan p t)))"
  have m: "mset (map r_state (pg_scan p t)) = mset (map r_state t)" using assms(1) by (simp add: pg_documented_def)
  have "sum_list (map snd ?c) = int (length t)" using sum_counts [OF m] by (simp add: comp_def)
  moreover have "length ?c = card (r_state ` set t)"
    using mset_eq_setD [OF m] by (simp add: length_remdups_card_conv)
  moreover have "format_log_event frepr ''job_state_snapshot'' [(''total_jobs'', JInt a), (''states_count'', JInt b)] =
      Inr (''event=job_state_snapshot states_count='' @ str_int b @ '' total_jobs='' @ str_int a)" for a b
    by (simp add: format_log_event_def format_log_value_def py_str_json_def is_blank_iff py_isspace_def less_char_def)
  moreover have "\<exists>ls. state_snapshot_script frepr None p t = then_log ls (format_log_event frepr ''job_state_snapshot''
      [(''total_jobs'', JInt (sum_list (map snd ?c))), (''states_count'', JInt (int (length ?c)))])"
    using assms(2) by (simp only: state_snapshot_script_def count_jobs_by_state_def option.case sum.case) blast
  ultimately show ?thesis by (simp only: then_log_def sum.case)
qed

text \<open>
  The requeue script ends with exit code 0 exactly when the given id, without blanks around it, is
  that of a dead-lettered job, and then this row alone goes back to \<open>queued\<close>; in every other case
  it exits with code 1 and the table is as before.
\<close>

theorem requeue_script_correct:
  assumes "pg_fault p = None"
  shows "(case argv of
       [_, arg] \<Rightarrow>
         if \<exists>r \<in> set t. r_job_id r = py_strip arg \<and> r_state r = ''dead_lettered'' \<and> \<not> is_blank arg
         then so_outcome (fst (requeue_script None p argv t)) = Finished \<and>
           snd (requeue_script None p argv t) = map (\<lambda>r. if r_job_id r = py_strip arg \<and> r_state r = ''dead_lettered''
             then r\<lparr>r_state := ''queued'', r_retry_after := None, r_updated_at := pg_now p\<rparr> else r) t
         else so_outcome (fst (requeue_script None p argv t)) = ExitCode 1 \<and> snd (requeue_script None p argv t) = t
     | _ \<Rightarrow> so_outcome (fst (requeue_script None p argv t)) = ExitCode 1 \<and> snd (requeue_script None p argv t) = t)"
proof (cases "\<exists>prog arg. argv = [prog, arg]")
  case True
  then obtain prog arg where a: "argv = [prog, arg]" by blast
  let ?P = "\<lambda>r. r_job_id r = py_strip arg \<and> r_state r = ''dead_lettered''"
  have f: "filter ?P t = [] \<longleftrightarrow> \<not> (\<exists>r \<in> set t. ?P r)" by (auto simp: filter_empty_conv)
  moreover have "map (\<lambda>r. if ?P r then r\<lparr>r_state := ''queued'', r_retry_after := None, r_updated_at := pg_now p\<rparr> else r) t = t"
    if "\<not> (\<exists>r \<in> set t. ?P r)" using that by (intro map_idI) auto
  ultimately show ?thesis
    using assms
    by (cases "is_blank arg"; cases "\<exists>r \<in> set t. ?P r")
      (auto simp: a requeue_script_def requeue_dead_lettered_job_def finished_def update_where_def Let_def split: bool.splits)
next
  case False
  then show ?thesis by (auto simp: requeue_script_def split: list.splits)
qed

text \<open>
  C36: The tick script never skips a dispatch. Each run starts with an empty in-memory store, so a
  claimed job is always handed to the producer, whatever was published for the same job and
  attempt before: the dispatch key protects within one process only.
\<close>

theorem tick_script_never_skips:
  assumes "pg_documented p" and "pg_fault p = None" and "ids_distinct t"
    and "\<forall>r \<in> set t. schedulable p r \<longrightarrow> \<not> is_blank (r_job_id r) \<and> 0 \<le> r_retry_count r"
  shows "if filter (schedulable p) t = []
     then snd (tick_script frepr wide ext None publish flush clock p (t, k)) = (t, snd (flush k))
     else \<exists>r \<in> set t. schedulable p r \<and>
       snd (tick_script frepr wide ext None publish flush clock p (t, k)) =
         (map (\<lambda>x. if r_job_id x = r_job_id r then dispatch_update p x else x) t,
          snd (flush (snd (publish k (event_of_job (row_to_record (dispatch_update p r)))))))"
proof -
  obtain jobs t' where c: "claim_schedulable_jobs p 1 t = (Inr jobs, t')" using claim_eq [OF assms(2), of 1] by auto
  let ?s = "claimed_rows p 1 t"
  note ids = claim_ids [OF assms(1,3) c]
  have sub: "set ?s \<subseteq> {r \<in> set t. schedulable p r}" unfolding claimed_rows_def by (rule select_set [OF assms(1)])
  have len: "length jobs = min 1 (length (filter (schedulable p) t))"
    using mset_eq_length [OF claim_mset [OF assms(1,3) c]] select_length [OF assms(1), of "schedulable p" dispatch_order 1 t]
    by (simp add: claimed_rows_def)
  have close: "snd (tick_script frepr wide ext None publish flush clock p (t, k)) = (t', snd (flush (tk_producer st)))"
    if "publish_claimed frepr ext mem_try_claim DEFAULT_DISPATCH_DEDUPE_TTL_SECONDS publish clock jobs no_counts
        (tick_state_init mem_init k) = (None, counts, st)" for counts st
    using c that by (simp add: tick_script_def tick_run_once_def producer_close_def Let_def split: prod.split option.split)
  show ?thesis
  proof (cases "filter (schedulable p) t = []")
    case True
    then have "jobs = []" using len by simp
    then show ?thesis using True close ids(2) by (simp add: tick_state_init_def update_where_def)
  next
    case False
    then have "length (filter (schedulable p) t) \<ge> 1" by (simp add: Suc_le_eq)
    then have "length jobs = Suc 0" using len by linarith
    then obtain job where j: "jobs = [job]" by (auto simp: length_Suc_conv)
    then obtain r where r: "r \<in> set ?s" "job = row_to_record (dispatch_update p r)" using ids(3) by auto
    then have d: "dispatchable job" using assms(4) sub by (auto simp: dispatchable_def)
    have "validate_claim_inputs (job_key job) DEFAULT_DISPATCH_DEDUPE_TTL_SECONDS = None"
      using job_key_valid [OF d] by (simp add: DEFAULT_DISPATCH_DEDUPE_TTL_SECONDS_def)
    from mem.claim_valid [OF this, of mem_init "clock 0"] obtain st where
      "mem_try_claim mem_init (clock 0) (job_key job) DEFAULT_DISPATCH_DEDUPE_TTL_SECONDS = (Inr True, st)" by auto
    with publish_one_publishes [OF d, of mem_try_claim "tick_state_init mem_init k" clock DEFAULT_DISPATCH_DEDUPE_TTL_SECONDS st
        frepr ext publish no_counts]
    have "\<exists>c' st'. publish_claimed frepr ext mem_try_claim DEFAULT_DISPATCH_DEDUPE_TTL_SECONDS publish clock jobs no_counts
        (tick_state_init mem_init k) = (None, c', st') \<and> tk_producer st' = snd (publish k (event_of_job job))"
      by (auto simp: j tick_state_init_def)
    then show ?thesis using close False ids(2) r sub unfolding j by (auto simp: update_where_def)
  qed
qed

theorem tick_script_never_skips_witness:
  "\<exists>r \<in> set [demo_row ''a'' 1 QUEUED 0 None]. schedulable (demo_pg 7 []) r \<and>
     snd (tick_script (\<lambda>_. []) (\<lambda>_. []) (\<lambda>_. []) None (\<lambda>k ev. (None, k @ [de_job_id ev])) (\<lambda>k. (None, k)) (\<lambda>_. 0) (demo_pg 7 [])
       ([demo_row ''a'' 1 QUEUED 0 None], [''a''])) = ([dispatch_update (demo_pg 7 []) r], [''a'', ''a''])"
proof -
  have "ids_distinct [demo_row ''a'' 1 QUEUED 0 None]" "filter (schedulable (demo_pg 7 [])) [demo_row ''a'' 1 QUEUED 0 None] \<noteq> []"
    "\<forall>r \<in> set [demo_row ''a'' 1 QUEUED 0 None]. schedulable (demo_pg 7 []) r \<longrightarrow> \<not> is_blank (r_job_id r) \<and> 0 \<le> r_retry_count r"
    by (simp_all add: ids_distinct_def demo_row_def schedulable_def unlocked_def demo_pg_def is_blank_iff py_isspace_def)
  from tick_script_never_skips [OF demo_pg_documented this(1,3), of "\<lambda>_. []" "\<lambda>_. []" "\<lambda>_. []" "\<lambda>k ev. (None, k @ [de_job_id ev])"
      "\<lambda>k. (None, k)" "\<lambda>_. 0" "[''a'']"] this(2)
  show ?thesis by (auto simp: event_of_job_def demo_row_def)
qed

theorem state_snapshot_total_witness:
  "\<exists>ls. state_snapshot_script (\<lambda>_. []) None (demo_pg 1 []) [demo_row ''a'' 1 QUEUED 0 None, demo_row ''b'' 1 QUEUED 0 None] =
     finished (ls @ [''event=job_state_snapshot states_count=1 total_jobs=2''])"
  using state_snapshot_total [OF demo_pg_documented, where t = "[demo_row ''a'' 1 QUEUED 0 None, demo_row ''b'' 1 QUEUED 0 None]"]
  by (simp add: demo_row_def str_int_def str_nat.simps digit_char_def char_of_def bit_0)

theorem requeue_script_correct_witness:
  "so_outcome (fst (requeue_script None (demo_pg 1 []) [''prog'', '' a ''] [demo_row ''a'' 1 DEAD_LETTERED 3 None])) = Finished"
  using requeue_script_correct [where p = "demo_pg 1 []" and argv = "[''prog'', '' a '']" and t = "[demo_row ''a'' 1 DEAD_LETTERED 3 None]"]
  by (simp add: demo_row_def py_strip_def is_blank_iff py_isspace_def)

text \<open>
  With the memory backend, the default, the consumer script applies every message it polls: its
  store is new in each run, so a redelivery that a later run polls is applied again.
\<close>

theorem consume_script_applies_every_time:
  assumes "resolve_idempotency_backend env = Inr ''memory''" and "claim MemoryStore = mem_try_claim" and "store MemoryStore = mem_init"
    and "env_get env ''KERNELQ_PRINT_RESULT_CONSUMER_PROMETHEUS'' [] = []"
    and "accept frepr wide (now, v, handle_result True p clock) = Some d"
    and "handle_result True p clock (ac_event d) t = (None, t')"
    and "consume_script frepr wide exc_str env None None claim store p clock now
      (Some \<lparr>km_error = None, km_key = None, km_value = v\<rparr>) t = (run, t2)"
  shows "so_outcome run = Finished \<and> t2 = t' \<and> ''processed_messages=1'' \<in> set (so_stdout run)"
proof -
  have b: "build_idempotency_store_from_env env = Inr MemoryStore"
    using assms(1) by (simp add: build_idempotency_store_from_env_def)
  have "validate_claim_inputs (ac_key d) DEFAULT_DEDUPE_TTL_SECONDS = None"
    by (rule accept_key_valid [OF assms(5)]) (simp add: DEFAULT_DEDUPE_TTL_SECONDS_def)
  from mem.claim_valid [OF this, of mem_init now] obtain s where
    c: "mem_try_claim (rn_store (runner_init mem_init t)) now (ac_key d) DEFAULT_DEDUPE_TTL_SECONDS = (Inr True, s)"
    by (auto simp: runner_init_def)
  have h: "handle_result True p clock (ac_event d) (rn_handler (runner_init mem_init t)) = (None, t')"
    using assms(6) by (simp add: runner_init_def)
  have pr: "process_message frepr wide mem_try_claim DEFAULT_DEDUPE_TTL_SECONDS (Some (handle_result True p clock)) now v
      (runner_init mem_init t) = (None, (runner_init mem_init t)\<lparr>rn_store := s, rn_handler := t', rn_processed := 1\<rparr>)"
    using process_granted [OF assms(5), of mem_try_claim _ _ s, OF c h] by (simp add: runner_init_def)
  have "consume_body frepr wide env None None claim store p clock now (Some \<lparr>km_error = None, km_key = None, km_value = v\<rparr>) t =
      (Inr True, Some ((runner_init mem_init t)\<lparr>rn_store := s, rn_handler := t', rn_processed := 1\<rparr>))"
    using b assms(2,3) pr by (simp add: consume_body_def poll_once_def process_kafka_message_def)
  then show ?thesis
    using assms(1,4,7)
    by (auto simp: consume_script_def consume_log_line_def shutdown_summary_def with_shutdown_def then_log_def finished_def
        format_log_event_def is_blank_iff py_isspace_def runner_stats_def runner_init_def str_int_def str_nat.simps digit_char_def
        char_of_def bit_0 py_lower_def)
qed

definition latency_sample :: "job_row \<Rightarrow> bool" where
  "latency_sample r \<longleftrightarrow> r_state r = ''succeeded'' \<and>
     (\<exists>d. r_dispatched_at r = Some d \<and> r_created_at r + 1000000 \<le> d \<and> d + 2000000 \<le> r_updated_at r)"

lemma update_where_absent: "i \<notin> r_job_id ` set t \<Longrightarrow> update_where (\<lambda>r. r_job_id r = i) f t = t"
  unfolding update_where_def by (rule map_idI) force

lemma seed_one_ok:
  assumes "seed_one run_id now p q index t = (e, t')" "pg_fault q = None"
  shows "t' = t \<or> (\<exists>r. latency_sample r \<and> t' = t @ [r])"
proof -
  have "\<forall>x \<in> set QUEUE_WAIT_SECONDS. 1 \<le> x" "\<forall>x \<in> set COMPLETION_AFTER_DISPATCH_SECONDS. 2 \<le> x"
    "QUEUE_WAIT_SECONDS \<noteq> []" "COMPLETION_AFTER_DISPATCH_SECONDS \<noteq> []"
    by (simp_all add: QUEUE_WAIT_SECONDS_def COMPLETION_AFTER_DISPATCH_SECONDS_def)
  then have w: "QUEUE_WAIT_SECONDS ! (index mod length QUEUE_WAIT_SECONDS) \<ge> 1"
    "COMPLETION_AFTER_DISPATCH_SECONDS ! (index mod length COMPLETION_AFTER_DISPATCH_SECONDS) \<ge> 2"
    by (meson length_greater_0_conv mod_less_divisor nth_mem)+
  let ?id = "seed_job_id run_id index"
  let ?create = "create_job p ?id ''tenant-a'' 1 (state_value SUCCEEDED) (Some [(''kind'', JStr ''seed_latency_metrics'')]) 3 t"
  show ?thesis
  proof (cases "?id \<in> r_job_id ` set t \<or> pg_fault p \<noteq> None")
    case True
    then have "\<exists>e'. ?create = (Inl e', t)" by (cases "pg_fault p") (simp_all add: create_job_def in_int4_def Let_def)
    then show ?thesis using assms(1) by (auto simp: seed_one_def Let_def)
  next
    case False
    then obtain stored row where c: "?create = (Inr stored, t @ [row])" "r_job_id row = ?id"
      by (auto simp: create_job_def in_int4_def Let_def)
    have "update_where P f (t @ [row]) = update_where P f t @ [if P row then f row else row]" for P f
      by (simp add: update_where_def)
    then show ?thesis
      using assms c update_where_absent [of ?id t] False w by (auto simp: seed_one_def latency_sample_def Let_def)
  qed
qed

text \<open>
  Every row that the seeding script adds is a completed job with a queue wait of at least a second
  and a completion at least two seconds later, so that the duration metrics have samples; the rows
  that were there stay as they are.
\<close>

theorem seed_adds_samples:
  assumes "\<forall>i. pg_fault (q i) = None" and "seed_script frepr None run_id now p q t = (run, t')"
  shows "\<exists>rows. t' = t @ rows \<and> (\<forall>r \<in> set rows. latency_sample r)"
proof -
  have "seed_from run_id now p q indices created t = (res, t') \<Longrightarrow> \<exists>rows. t' = t @ rows \<and> (\<forall>r \<in> set rows. latency_sample r)"
    for indices created res
  proof (induction indices arbitrary: created t)
    case (Cons i indices)
    obtain e t1 where s: "seed_one run_id (now i) (p i) (q i) i t = (e, t1)" by fastforce
    from seed_one_ok [OF s] assms(1) obtain rows1 where r1: "t1 = t @ rows1" "\<forall>r \<in> set rows1. latency_sample r"
      by (metis append_Nil2 empty_iff list.set(1) set_ConsD)
    show ?case
    proof (cases e)
      case None
      then have "seed_from run_id now p q indices (created + 1) t1 = (res, t')" using Cons.prems s by simp
      from Cons.IH [OF this] obtain rows2 where "t' = t1 @ rows2" "\<forall>r \<in> set rows2. latency_sample r" by blast
      then show ?thesis using r1 by (intro exI [of _ "rows1 @ rows2"]) auto
    qed (use Cons.prems s r1 in auto)
  qed simp
  moreover obtain res where "seed_from run_id now p q [0..<JOB_COUNT] 0 t = (res, t')"
    using assms(2) by (auto simp: seed_script_def split: prod.splits sum.splits)
  ultimately show ?thesis by blast
qed

end
