(* ===== verification/Benchmark_Scripts.thy ===== *)
theory Benchmark_Scripts
  imports Load_Benchmark Operator_Scripts
begin

text \<open>
  The command lines and the \<open>main\<close> functions of \<open>scripts/generate_load_jobs.py\<close> and
  \<open>scripts/benchmark_scheduler_throughput.py\<close>: defaults of the options, argument checks, the trials
  one after the other on the same table, and what is printed. \<open>usage\<close> is the message \<open>argparse\<close>
  prints when it refuses the command line.
\<close>

section \<open>Options\<close>

text \<open>
  The command line as \<open>argparse\<close> splits it: options and their values. A value of an option of type
  \<open>int\<close> goes through \<open>int\<close>; \<open>None\<close> stands for the exit with code 2.
\<close>

record load_args =
  la_count :: int
  la_prefix :: string
  la_tenants :: int
  la_max_priority :: int

definition load_defaults :: load_args where
  "load_defaults = \<lparr>la_count = 100, la_prefix = ''load'', la_tenants = 5, la_max_priority = 100\<rparr>"

fun load_parse_args :: "(string \<times> string) list \<Rightarrow> load_args \<Rightarrow> load_args option" where
  "load_parse_args [] args = Some args"
| "load_parse_args ((name, v) # options) args =
     (if name = ''--prefix'' then load_parse_args options (args\<lparr>la_prefix := v\<rparr>)
      else case py_int v of
        None \<Rightarrow> None
      | Some i \<Rightarrow>
          if name = ''--count'' then load_parse_args options (args\<lparr>la_count := i\<rparr>)
          else if name = ''--tenants'' then load_parse_args options (args\<lparr>la_tenants := i\<rparr>)
          else if name = ''--max-priority'' then load_parse_args options (args\<lparr>la_max_priority := i\<rparr>)
          else None)"

record bench_args =
  ba_count :: int
  ba_prefix :: string
  ba_tenants :: int
  ba_max_priority :: int
  ba_batch_size :: int
  ba_trials :: int

definition bench_defaults :: bench_args where
  "bench_defaults = \<lparr>ba_count = 100, ba_prefix = ''sched-bench'', ba_tenants = 5, ba_max_priority = 100, ba_batch_size = 50,
     ba_trials = 1\<rparr>"

fun bench_parse_args :: "(string \<times> string) list \<Rightarrow> bench_args \<Rightarrow> bench_args option" where
  "bench_parse_args [] args = Some args"
| "bench_parse_args ((name, v) # options) args =
     (if name = ''--prefix'' then bench_parse_args options (args\<lparr>ba_prefix := v\<rparr>)
      else case py_int v of
        None \<Rightarrow> None
      | Some i \<Rightarrow>
          if name = ''--count'' then bench_parse_args options (args\<lparr>ba_count := i\<rparr>)
          else if name = ''--tenants'' then bench_parse_args options (args\<lparr>ba_tenants := i\<rparr>)
          else if name = ''--max-priority'' then bench_parse_args options (args\<lparr>ba_max_priority := i\<rparr>)
          else if name = ''--batch-size'' then bench_parse_args options (args\<lparr>ba_batch_size := i\<rparr>)
          else if name = ''--trials'' then bench_parse_args options (args\<lparr>ba_trials := i\<rparr>)
          else None)"

definition usage_error :: "string list \<Rightarrow> script_run" where
  "usage_error usage = \<lparr>so_stdout = [], so_stderr = usage, so_outcome = ExitCode 2\<rparr>"

text \<open>\<open>SystemExit\<close> with a message: it goes to the standard error stream and the code is 1.\<close>

definition system_exit :: "string \<Rightarrow> script_run" where
  "system_exit message = \<lparr>so_stdout = [], so_stderr = [message], so_outcome = ExitCode 1\<rparr>"

section \<open>Generating load\<close>

definition generate_load_main ::
    "(py_float \<Rightarrow> string) \<Rightarrow> string list \<Rightarrow> exc option \<Rightarrow> (int \<Rightarrow> pg) \<Rightarrow> py_float \<Rightarrow> py_float \<Rightarrow> int \<Rightarrow> (string \<times> string) list
     \<Rightarrow> jobs_table \<Rightarrow> script_run \<times> jobs_table" where
  "generate_load_main frepr usage conn pgs started stopped run_timestamp options t =
     (case load_parse_args options load_defaults of
        None \<Rightarrow> (usage_error usage, t)
      | Some args \<Rightarrow>
          (case validate_load_args (la_count args) (la_tenants args) (la_max_priority args) of
             Some message \<Rightarrow> (system_exit message, t)
           | None \<Rightarrow>
               (case conn of
                  Some e \<Rightarrow> (raised [] e, t)
                | None \<Rightarrow>
                    (case generate_load_jobs pgs (la_count args) (la_prefix args) (la_tenants args) (la_max_priority args)
                        run_timestamp t of
                       (Inl e, t') \<Rightarrow> (raised [] e, t')
                     | (Inr created_count, t') \<Rightarrow>
                         (let elapsed_seconds = float_sub stopped started;
                              jobs_per_second =
                                (if elapsed_seconds > 0 then float_div (float_of_int created_count) elapsed_seconds else 0)
                          in (then_log
                               [''created_jobs='' @ str_int created_count, ''elapsed_seconds='' @ frepr elapsed_seconds,
                                ''jobs_per_second='' @ frepr jobs_per_second]
                               (format_log_event frepr ''generate_load_jobs''
                                 [(''created_jobs'', JInt created_count), (''elapsed_seconds'', JFloat elapsed_seconds),
                                  (''jobs_per_second'', JFloat jobs_per_second), (''tenants'', JInt (la_tenants args))]), t'))))))"

section \<open>The trials of the benchmark\<close>

text \<open>What one trial meets: the servers of its inserts, those of its ticks, and the two readings of the clock.\<close>

record trial_env =
  te_pgs :: "int \<Rightarrow> pg"
  te_bench :: bench_env
  te_started :: py_float
  te_stopped :: py_float

text \<open>
  \<open>sum\<close> of floats. CPython up to 3.11 adds from left to right; later versions carry a correction
  (\<open>c\<close>, after Neumaier) that is added at the end.
\<close>

fun corrected_sum :: "py_float \<Rightarrow> py_float \<Rightarrow> py_float list \<Rightarrow> py_float" where
  "corrected_sum f_result c [] = (if c = 0 then f_result else float_add f_result c)"
| "corrected_sum f_result c (x # xs) =
     (let t = float_add f_result x
      in corrected_sum t
           (if \<bar>f_result\<bar> \<ge> \<bar>x\<bar> then float_add c (float_add (float_sub f_result t) x)
            else float_add c (float_add (float_sub x t) f_result)) xs)"

definition float_sum :: "bool \<Rightarrow> py_float list \<Rightarrow> py_float" where
  "float_sum corrected values =
     (case values of
        [] \<Rightarrow> 0
      | x # xs \<Rightarrow> if corrected then corrected_sum x 0 xs else foldl float_add x xs)"

definition mean :: "bool \<Rightarrow> py_float list \<Rightarrow> py_float" where
  "mean corrected values =
     (if values = [] then 0 else float_div (float_sum corrected values) (float_of_int (int (length values))))"

text \<open>\<open>min\<close> and \<open>max\<close> of a list; the argument checks see to it that there is at least one trial.\<close>

definition py_min :: "py_float list \<Rightarrow> py_float result" where
  "py_min values = (case values of [] \<Rightarrow> Inl (ValueError ''min() iterable argument is empty'') | x # xs \<Rightarrow> Inr (foldl min x xs))"

definition py_max :: "py_float list \<Rightarrow> py_float result" where
  "py_max values = (case values of [] \<Rightarrow> Inl (ValueError ''max() iterable argument is empty'') | x # xs \<Rightarrow> Inr (foldl max x xs))"

definition print_trial_result :: "(py_float \<Rightarrow> string) \<Rightarrow> trial_result \<Rightarrow> string list" where
  "print_trial_result frepr r =
     [''Trial '' @ str_int (tl_trial_number r) @ '' ('' @ tl_prefix r @ '')'',
      ''  generated_jobs:              '' @ str_int (tl_generated_jobs r),
      ''  dispatched_jobs:             '' @ str_int (tl_dispatched_jobs r),
      ''  elapsed_seconds:             '' @ frepr (tl_elapsed_seconds r),
      ''  jobs_dispatched_per_second:  '' @ frepr (tl_jobs_dispatched_per_second r),
      ''  tick_count:                  '' @ str_int (tl_tick_count r), []]"

definition print_aggregate_summary :: "(py_float \<Rightarrow> string) \<Rightarrow> bool \<Rightarrow> trial_result list \<Rightarrow> int \<Rightarrow> string list result" where
  "print_aggregate_summary frepr corrected trials generated_jobs_per_trial =
     (let rates = map tl_jobs_dispatched_per_second trials; elapsed_values = map tl_elapsed_seconds trials in
      bind_res (py_min rates) (\<lambda>min_rate. bind_res (py_max rates) (\<lambda>max_rate.
      bind_res (py_min elapsed_values) (\<lambda>min_elapsed. bind_res (py_max elapsed_values) (\<lambda>max_elapsed.
        Inr [''Scheduler throughput benchmark finished.'', [],
             ''  trials:                           '' @ str_int (int (length trials)),
             ''  generated_jobs_per_trial:         '' @ str_int generated_jobs_per_trial,
             ''  min_jobs_dispatched_per_second:   '' @ frepr min_rate,
             ''  avg_jobs_dispatched_per_second:   '' @ frepr (mean corrected rates),
             ''  max_jobs_dispatched_per_second:   '' @ frepr max_rate,
             ''  min_elapsed_seconds:              '' @ frepr min_elapsed,
             ''  avg_elapsed_seconds:              '' @ frepr (mean corrected elapsed_values),
             ''  max_elapsed_seconds:              '' @ frepr max_elapsed])))))"

text \<open>The loop over the trials: an exception ends it, after what was printed so far.\<close>

fun run_trials ::
    "(py_float \<Rightarrow> string) \<Rightarrow> (int \<Rightarrow> trial_env) \<Rightarrow> bench_args \<Rightarrow> string \<Rightarrow> int \<Rightarrow> int \<Rightarrow> int list \<Rightarrow> trial_result list \<Rightarrow> string list
     \<Rightarrow> jobs_table \<Rightarrow> exc option \<times> trial_result list \<times> string list \<times> jobs_table" where
  "run_trials frepr envs args base_prefix max_iterations run_timestamp [] trial_results printed t = (None, trial_results, printed, t)"
| "run_trials frepr envs args base_prefix max_iterations run_timestamp (trial_number # trials) trial_results printed t =
     (let env = envs trial_number in
      case run_single_trial (te_pgs env) (te_bench env) (te_started env) (te_stopped env) trial_number base_prefix (ba_count args)
          (ba_tenants args) (ba_max_priority args) (ba_batch_size args) max_iterations run_timestamp t of
        (Inl e, t') \<Rightarrow> (Some e, trial_results, printed, t')
      | (Inr (result, lines), t') \<Rightarrow>
          run_trials frepr envs args base_prefix max_iterations run_timestamp trials (trial_results @ [result])
            (printed @ lines @ print_trial_result frepr result) t')"

definition benchmark_log_line :: "(py_float \<Rightarrow> string) \<Rightarrow> bool \<Rightarrow> bench_args \<Rightarrow> trial_result list \<Rightarrow> string result" where
  "benchmark_log_line frepr corrected args trial_results =
     (let rates = map tl_jobs_dispatched_per_second trial_results;
          total_dispatched_jobs = sum_list (map tl_dispatched_jobs trial_results) in
      bind_res (py_max rates) (\<lambda>max_rate. bind_res (py_min rates) (\<lambda>min_rate.
        format_log_event frepr ''benchmark_scheduler_throughput''
          [(''avg_jobs_dispatched_per_second'', JFloat (mean corrected rates)), (''generated_jobs_per_trial'', JInt (ba_count args)),
           (''max_jobs_dispatched_per_second'', JFloat max_rate), (''min_jobs_dispatched_per_second'', JFloat min_rate),
           (''total_dispatched_jobs'', JInt total_dispatched_jobs), (''trials'', JInt (ba_trials args))])))"

definition bench_base_prefix :: "bench_args \<Rightarrow> string" where
  "bench_base_prefix args = (if py_strip (ba_prefix args) = [] then ''sched-bench'' else py_strip (ba_prefix args))"

definition benchmark_main ::
    "(py_float \<Rightarrow> string) \<Rightarrow> bool \<Rightarrow> string list \<Rightarrow> exc option \<Rightarrow> (int \<Rightarrow> trial_env) \<Rightarrow> int \<Rightarrow> (string \<times> string) list
     \<Rightarrow> jobs_table \<Rightarrow> script_run \<times> jobs_table" where
  "benchmark_main frepr corrected usage conn envs run_timestamp options t =
     (case bench_parse_args options bench_defaults of
        None \<Rightarrow> (usage_error usage, t)
      | Some args \<Rightarrow>
          (case validate_bench_args (ba_count args) (ba_tenants args) (ba_max_priority args) (ba_batch_size args) (ba_trials args) of
             Some message \<Rightarrow> (system_exit message, t)
           | None \<Rightarrow>
               (case max_tick_iterations (ba_count args) (ba_batch_size args) of
                  Inl e \<Rightarrow> (raised [] e, t)
                | Inr max_iterations \<Rightarrow>
                    (case conn of
                       Some e \<Rightarrow> (raised [] e, t)
                     | None \<Rightarrow>
                         (case run_trials frepr envs args (bench_base_prefix args) max_iterations run_timestamp
                             (map int [1..<Suc (nat (ba_trials args))]) [] [] t of
                            (Some e, trial_results, printed, t') \<Rightarrow> (raised printed e, t')
                          | (None, trial_results, printed, t') \<Rightarrow>
                              (case print_aggregate_summary frepr corrected trial_results (ba_count args) of
                                 Inl e \<Rightarrow> (raised printed e, t')
                               | Inr lines \<Rightarrow>
                                   (then_log (printed @ lines @ [[]]) (benchmark_log_line frepr corrected args trial_results), t')))))))"

section \<open>All trials together\<close>

text \<open>The ids of one trial, and of different trials, are different.\<close>

definition trial_id :: "string \<Rightarrow> int \<Rightarrow> int \<Rightarrow> int \<Rightarrow> string" where
  "trial_id base timestamp trial i = trial_prefix base trial timestamp @ ''-'' @ str_int i"

lemma no_dash: "0 \<le> i \<Longrightarrow> CHR ''-'' \<notin> set (str_int i)"
  by (auto simp: str_int_def is_digit_def dest!: str_nat_digits)

lemma trial_id_inject:
  assumes "trial_id base timestamp k i = trial_id base timestamp l j" "0 \<le> i" "0 \<le> j" "0 \<le> timestamp" "0 \<le> k" "0 \<le> l"
  shows "k = l \<and> i = j"
proof -
  have e: "(str_int k @ ''-'' @ str_int timestamp) @ CHR ''-'' # str_int i = (str_int l @ ''-'' @ str_int timestamp) @ CHR ''-'' # str_int j"
    using assms(1) by (simp add: trial_id_def trial_prefix_def)
  note outer = append_sep_inject [OF e no_dash [OF assms(2)] no_dash [OF assms(3)]]
  have "str_int k @ CHR ''-'' # str_int timestamp = str_int l @ CHR ''-'' # str_int timestamp" using outer by simp
  from append_sep_inject [OF this no_dash [OF assms(4)] no_dash [OF assms(4)]] outer show ?thesis by simp
qed

lemma trial_ids:
  "map (\<lambda>i. trial_prefix base trial timestamp @ ''-'' @ str_int i) (py_range n) = map (trial_id base timestamp trial) (py_range n)"
  by (simp add: trial_id_def)

definition trial_set :: "string \<Rightarrow> int \<Rightarrow> int \<Rightarrow> int \<Rightarrow> string set" where
  "trial_set base timestamp n trial = trial_id base timestamp trial ` {0..<n}"

lemma py_range_set: "set (py_range n) = {0..<n}"
proof -
  have "int ` {0..<nat n} = {0..<n}"
  proof (intro set_eqI iffI)
    fix i assume "i \<in> {0..<n}"
    then have "i = int (nat i)" "nat i \<in> {0..<nat n}" by auto
    then show "i \<in> int ` {0..<nat n}" by blast
  qed auto
  then show ?thesis by (simp add: py_range_def)
qed

lemma trial_set_ids: "set (map (trial_id base timestamp trial) (py_range n)) = trial_set base timestamp n trial"
  by (simp add: trial_set_def py_range_set)

lemma trial_sets_disjoint:
  assumes "0 \<le> timestamp" "0 \<le> k" "0 \<le> l" "k \<noteq> l"
  shows "trial_set base timestamp n k \<inter> trial_set base timestamp n l = {}"
  using trial_id_inject [of base timestamp k _ l _] assms by (fastforce simp: trial_set_def)

text \<open>The table before the trials that are still to come.\<close>

definition bench_ready :: "string \<Rightarrow> int \<Rightarrow> int \<Rightarrow> int list \<Rightarrow> jobs_table \<Rightarrow> bool" where
  "bench_ready base timestamp n trials t \<longleftrightarrow> ids_distinct t \<and>
     (\<forall>k \<in> set trials. r_job_id ` set t \<inter> trial_set base timestamp n k = {}) \<and>
     (\<forall>r \<in> set t. r_state r = state_value QUEUED \<longrightarrow> r_priority r < BENCHMARK_PRIORITY_BASE)"

definition all_dispatched :: "string set \<Rightarrow> jobs_table \<Rightarrow> bool" where
  "all_dispatched ids t \<longleftrightarrow> (\<forall>i \<in> ids. \<exists>r \<in> set t. r_job_id r = i \<and> r_state r = state_value DISPATCHED)"

lemma all_dispatched_keep:
  assumes "all_dispatched ids t" "{r \<in> set t. r_state r \<noteq> state_value QUEUED} \<subseteq> set t'"
  shows "all_dispatched ids t'"
  unfolding all_dispatched_def
proof
  fix i assume "i \<in> ids"
  then obtain r where "r \<in> set t" "r_job_id r = i" "r_state r = state_value DISPATCHED"
    using assms(1) unfolding all_dispatched_def by blast
  moreover from this have "r \<in> set t'" using assms(2) by auto
  ultimately show "\<exists>r \<in> set t'. r_job_id r = i \<and> r_state r = state_value DISPATCHED" by blast
qed

definition bench_args_ok :: "bench_args \<Rightarrow> bool" where
  "bench_args_ok args \<longleftrightarrow>
     validate_bench_args (ba_count args) (ba_tenants args) (ba_max_priority args) (ba_batch_size args) (ba_trials args) = None \<and>
     ba_count args < 2 ^ 53 \<and> in_int4 (BENCHMARK_PRIORITY_BASE + ba_max_priority args)"

definition trial_quiet :: "trial_env \<Rightarrow> string set \<Rightarrow> bool" where
  "trial_quiet env ids \<longleftrightarrow> (\<forall>i. pg_fault (te_pgs env i) = None) \<and> quiet_env (te_bench env) ids"

definition ideal_trials :: "bench_args \<Rightarrow> (int \<Rightarrow> trial_env) \<Rightarrow> int \<Rightarrow> int list \<Rightarrow> trial_result list" where
  "ideal_trials args envs timestamp trials =
     map (\<lambda>k. ideal_trial (ba_count args) (bench_base_prefix args) timestamp (ba_batch_size args) (te_started (envs k)) (te_stopped (envs k)) k) trials"

lemma run_trials_ok:
  assumes "bench_args_ok args" "max_tick_iterations (ba_count args) (ba_batch_size args) = Inr limit" "0 \<le> timestamp"
    and "\<forall>k \<in> set trials. 0 \<le> k \<and> trial_quiet (envs k) (trial_set base timestamp (ba_count args) k)" "distinct trials"
    and "bench_ready base timestamp (ba_count args) trials t" "base = bench_base_prefix args"
  shows "\<exists>t'. run_trials frepr envs args base limit timestamp trials acc out t =
      (None, acc @ ideal_trials args envs timestamp trials,
       out @ concat (map (print_trial_result frepr) (ideal_trials args envs timestamp trials)), t') \<and>
    (\<forall>k \<in> set trials. all_dispatched (trial_set base timestamp (ba_count args) k) t') \<and>
    {r \<in> set t. r_state r \<noteq> state_value QUEUED} \<subseteq> set t'"
  using assms(4-6)
proof (induction trials arbitrary: acc out t)
  case (Cons k trials)
  let ?n = "ba_count args" and ?ids = "map (trial_id base timestamp k) (py_range (ba_count args))"
  let ?set = "trial_set base timestamp (ba_count args)"
  have ok: "validate_bench_args ?n (ba_tenants args) (ba_max_priority args) (ba_batch_size args) (ba_trials args) = None"
    "?n < 2 ^ 53" "in_int4 (BENCHMARK_PRIORITY_BASE + ba_max_priority args)" using assms(1) by (simp_all add: bench_args_ok_def)
  have quiet: "\<forall>i. pg_fault (te_pgs (envs k) i) = None" "quiet_env (te_bench (envs k)) (set ?ids)"
    using Cons.prems(1) by (simp_all add: trial_quiet_def trial_set_ids del: set_map)
  have ready: "ids_distinct t" "\<forall>r \<in> set t. r_job_id r \<notin> set ?ids"
    "\<forall>r \<in> set t. r_state r = state_value QUEUED \<longrightarrow> r_priority r < BENCHMARK_PRIORITY_BASE"
    "\<forall>l \<in> set trials. r_job_id ` set t \<inter> ?set l = {}"
    using Cons.prems(3) unfolding bench_ready_def trial_set_ids by auto
  let ?result = "ideal_trial ?n base timestamp (ba_batch_size args) (te_started (envs k)) (te_stopped (envs k)) k"
  obtain t1 where one: "run_single_trial (te_pgs (envs k)) (te_bench (envs k)) (te_started (envs k)) (te_stopped (envs k)) k base ?n
      (ba_tenants args) (ba_max_priority args) (ba_batch_size args) limit timestamp t = (Inr (?result, []), t1)"
    and tab: "\<forall>i \<in> set ?ids. \<exists>r \<in> set t1. r_job_id r = i \<and> r_state r = ''dispatched''" "ids_distinct t1"
      "r_job_id ` set t1 = r_job_id ` set t \<union> set ?ids"
      "\<forall>r \<in> set t1. r_state r = state_value QUEUED \<longrightarrow> r_priority r < BENCHMARK_PRIORITY_BASE"
      "{r \<in> set t. r_state r \<noteq> state_value QUEUED} \<subseteq> set t1"
    using trial_dispatches_all [OF ok assms(2) quiet ready(1) trial_ids [symmetric] ready(2,3),
        of "te_started (envs k)" "te_stopped (envs k)"] by blast
  have k: "0 \<le> k" "\<forall>l \<in> set trials. 0 \<le> l \<and> k \<noteq> l" using Cons.prems(1,2) by auto
  have "bench_ready base timestamp ?n trials t1"
    unfolding bench_ready_def
  proof (intro conjI ballI)
    show "r_job_id ` set t1 \<inter> ?set l = {}" if "l \<in> set trials" for l
      using ready(4) that trial_sets_disjoint [OF assms(3) k(1), of l base ?n] k(2) unfolding tab(3) trial_set_ids by blast
  qed (use tab(2,4) in blast)+
  from Cons.IH [OF _ _ this, of "acc @ [?result]" "out @ print_trial_result frepr ?result"] Cons.prems(1,2) assms(7) obtain t' where
    ih: "run_trials frepr envs args base limit timestamp trials (acc @ [?result]) (out @ print_trial_result frepr ?result) t1 =
      (None, (acc @ [?result]) @ ideal_trials args envs timestamp trials,
       (out @ print_trial_result frepr ?result) @ concat (map (print_trial_result frepr) (ideal_trials args envs timestamp trials)), t')"
    "\<forall>k \<in> set trials. all_dispatched (?set k) t'" "{r \<in> set t1. r_state r \<noteq> state_value QUEUED} \<subseteq> set t'" by auto
  have "all_dispatched (?set k) t1" using tab(1) by (simp add: all_dispatched_def trial_set_ids del: set_map)
  then have "all_dispatched (?set k) t'" using ih(3) by (rule all_dispatched_keep)
  then show ?case
    using one ih tab(5) assms(7) by (intro exI [of _ t']) (auto simp: Let_def ideal_trials_def)
qed (simp add: ideal_trials_def)

lemma log_line_ok:
  assumes "results \<noteq> []"
  shows "\<exists>line. benchmark_log_line frepr corrected args results = Inr line"
    and "\<exists>ls. print_aggregate_summary frepr corrected results n = Inr ls"
  using assms
  by (cases results; simp add: benchmark_log_line_def print_aggregate_summary_def py_min_def py_max_def Let_def
      format_log_event_def is_blank_iff py_isspace_def)+

lemma sum_constant: "\<forall>x \<in> set xs. f x = c \<Longrightarrow> sum_list (map f xs) = c * int (length xs)"
  by (induction xs) (simp_all add: algebra_simps)

section \<open>Properties\<close>

text \<open>
  C34: The benchmark measures what it says. With arguments that its checks accept, priorities that
  fit their column, servers that do not fail and no other process at work, on a table without
  rows of these trials and without other queued rows above the benchmark's base priority: the
  script ends normally after all its trials, although they share the table. What it prints is, trial
  by trial, the result of a trial with its number, its id prefix, all its jobs generated and
  dispatched, the difference of the two clock readings, the rate, and as tick count the least number
  of ticks for the batch size, which the safety cap computed by \<open>_max_tick_iterations\<close> always
  allows; then the summary and the log line of exactly these results. At the end every job of every
  trial is in state \<open>dispatched\<close>.
\<close>

theorem benchmark_dispatches_all:
  assumes "bench_parse_args options bench_defaults = Some args" and "bench_args_ok args" and "0 \<le> timestamp"
    and "base = bench_base_prefix args" and "trials = map int [1..<Suc (nat (ba_trials args))]"
    and "\<forall>k \<in> set trials. trial_quiet (envs k) (trial_set base timestamp (ba_count args) k)"
    and "bench_ready base timestamp (ba_count args) trials t"
    and "results = map (\<lambda>k. let elapsed = float_sub (te_stopped (envs k)) (te_started (envs k)) in
      \<lparr>tl_trial_number = k, tl_prefix = trial_prefix base k timestamp,
       tl_generated_jobs = ba_count args, tl_dispatched_jobs = ba_count args, tl_elapsed_seconds = elapsed,
       tl_jobs_dispatched_per_second = (if elapsed > 0 then float_div (float_of_int (ba_count args)) elapsed else 0),
       tl_tick_count = int (ceil_div (nat (ba_count args)) (nat (ba_batch_size args)))\<rparr>) trials"
  shows "\<exists>summary line t'. benchmark_main frepr corrected usage None envs timestamp options t =
       (finished (concat (map (print_trial_result frepr) results) @ summary @ [[], line]), t') \<and>
     print_aggregate_summary frepr corrected results (ba_count args) = Inr summary \<and>
     benchmark_log_line frepr corrected args results = Inr line \<and>
     int (length results) = ba_trials args \<and> sum_list (map tl_dispatched_jobs results) = ba_count args * ba_trials args \<and>
     (\<forall>k \<in> set trials. all_dispatched (trial_set base timestamp (ba_count args) k) t')"
proof -
  have v: "validate_bench_args (ba_count args) (ba_tenants args) (ba_max_priority args) (ba_batch_size args) (ba_trials args) = None"
    using assms(2) by (simp add: bench_args_ok_def)
  then have pos: "0 < ba_batch_size args" "0 < ba_trials args" by (auto simp: validate_bench_args_def split: if_splits)
  then obtain limit where l: "max_tick_iterations (ba_count args) (ba_batch_size args) = Inr limit"
    by (auto simp: max_tick_iterations_def Let_def)
  have t: "\<forall>k \<in> set trials. 0 \<le> k \<and> trial_quiet (envs k) (trial_set base timestamp (ba_count args) k)" "distinct trials"
    "int (length trials) = ba_trials args"
    using assms(5,6) pos(2) by (auto simp: distinct_map)
  have results: "ideal_trials args envs timestamp trials = results"
    unfolding assms(8) ideal_trials_def ideal_trial_def Let_def assms(4) ..
  obtain t' where r: "run_trials frepr envs args base limit timestamp trials [] [] t =
      (None, results, concat (map (print_trial_result frepr) results), t')"
    "\<forall>k \<in> set trials. all_dispatched (trial_set base timestamp (ba_count args) k) t'"
    using run_trials_ok [OF assms(2) l assms(3) t(1,2) assms(7,4), of frepr "[]" "[]"] unfolding results by auto
  have len: "length results = length trials" "\<forall>x \<in> set results. tl_dispatched_jobs x = ba_count args"
    by (auto simp: assms(8) Let_def)
  then have "results \<noteq> []" using t(3) pos(2) by auto
  then obtain line summary where s: "benchmark_log_line frepr corrected args results = Inr line"
    "print_aggregate_summary frepr corrected results (ba_count args) = Inr summary" using log_line_ok by blast
  have "benchmark_main frepr corrected usage None envs timestamp options t =
      (finished (concat (map (print_trial_result frepr) results) @ summary @ [[], line]), t')"
    unfolding benchmark_main_def assms(1) option.case v l sum.case assms(4,5) [symmetric] r(1) prod.case s(2)
    by (simp add: then_log_def s(1))
  moreover have "sum_list (map tl_dispatched_jobs results) = ba_count args * ba_trials args"
    using sum_constant [OF len(2)] len(1) t(3) by simp
  ultimately show ?thesis using s r(2) len(1) t(3) by (intro exI conjI) simp_all
qed

text \<open>Two trials of seven jobs each, three at a time, beside a queued job of another origin.\<close>

definition demo_trial :: trial_env where
  "demo_trial = \<lparr>te_pgs = (\<lambda>_. demo_pg 1 []), te_bench = \<lparr>be_frepr = (\<lambda>_. []), be_ext = (\<lambda>_. []), be_clock = (\<lambda>_. 0),
     be_ticks = (\<lambda>_. demo_pg 2 []), be_others = (\<lambda>n t. t)\<rparr>, te_started = 0, te_stopped = 1\<rparr>"

theorem benchmark_dispatches_all_witness:
  "\<exists>ls t'. benchmark_main (\<lambda>_. []) True [] None (\<lambda>_. demo_trial) 99
       [(''--count'', ''7''), (''--prefix'', '' bench''), (''--batch-size'', ''3''), (''--trials'', ''2'')] [demo_row ''x'' 5 QUEUED 0 None] =
     (finished ls, t') \<and> ''  tick_count:                  3'' \<in> set ls \<and> all_dispatched (trial_set ''bench'' 99 7 2) t'"
proof -
  let ?options = "[(''--count'', ''7''), (''--prefix'', '' bench''), (''--batch-size'', ''3''), (''--trials'', ''2'')]"
  let ?args = "\<lparr>ba_count = 7, ba_prefix = '' bench'', ba_tenants = 5, ba_max_priority = 100, ba_batch_size = 3, ba_trials = 2\<rparr>"
  have i: "py_int ''7'' = Some 7" "py_int ''3'' = Some 3" "py_int ''2'' = Some 2"
    by (simp_all add: py_int_def py_strip_def py_isspace_def is_digit_def read_nat_def digit_val_def)
  have p: "bench_parse_args ?options bench_defaults = Some ?args" by (simp add: i bench_defaults_def)
  have ok: "bench_args_ok ?args" by (simp add: bench_args_ok_def validate_bench_args_def in_int4_def BENCHMARK_PRIORITY_BASE_def)
  have b: "bench_base_prefix ?args = ''bench''" by (simp add: bench_base_prefix_def py_strip_def py_isspace_def)
  have q: "trial_quiet demo_trial ids" for ids
    by (simp add: trial_quiet_def demo_trial_def quiet_env_def demo_pg_def pg_documented_def)
  have r: "bench_ready ''bench'' 99 7 [1, 2] [demo_row ''x'' 5 QUEUED 0 None]"
    by (auto simp: bench_ready_def ids_distinct_def demo_row_def trial_set_def trial_id_def trial_prefix_def BENCHMARK_PRIORITY_BASE_def)
  have t: "map int [1..<Suc (nat (ba_trials ?args))] = [1, 2]" by (simp add: upt_rec numeral_2_eq_2)
  have quiet: "\<forall>k \<in> set [1, 2]. trial_quiet demo_trial (trial_set ''bench'' 99 (ba_count ?args) k)" using q by simp
  have ready: "bench_ready ''bench'' 99 (ba_count ?args) [1, 2] [demo_row ''x'' 5 QUEUED 0 None]" using r by simp
  define results where "results = map (\<lambda>k :: int. let elapsed = float_sub (te_stopped demo_trial) (te_started demo_trial) in
      \<lparr>tl_trial_number = k, tl_prefix = trial_prefix ''bench'' k 99,
       tl_generated_jobs = ba_count ?args, tl_dispatched_jobs = ba_count ?args, tl_elapsed_seconds = elapsed,
       tl_jobs_dispatched_per_second = (if elapsed > 0 then float_div (float_of_int (ba_count ?args)) elapsed else 0),
       tl_tick_count = int (ceil_div (nat (ba_count ?args)) (nat (ba_batch_size ?args)))\<rparr>) [1, 2]"
  have res: "tl_tick_count (hd results) = 3" "results \<noteq> []" by (simp_all add: results_def Let_def ceil_div_def)
  have "(0 :: int) \<le> 99" by simp
  from benchmark_dispatches_all [OF p ok this b [symmetric] t [symmetric] quiet ready results_def, of "\<lambda>_. []" True "[]"]
  obtain summary line t' where run: "benchmark_main (\<lambda>_. []) True [] None (\<lambda>_. demo_trial) 99 ?options [demo_row ''x'' 5 QUEUED 0 None] =
      (finished (concat (map (print_trial_result (\<lambda>_. [])) results) @ summary @ [[], line]), t')"
    "\<forall>k \<in> set [1, 2]. all_dispatched (trial_set ''bench'' 99 (ba_count ?args) k) t'" by blast
  have "''  tick_count:                  '' @ str_int 3 \<in> set (print_trial_result (\<lambda>_. []) (hd results))"
    using res(1) by (simp add: print_trial_result_def)
  moreover have "str_int 3 = ''3''"
    by (simp add: str_int_def str_nat.simps digit_char_def char_of_def bit_0)
  ultimately have "''  tick_count:                  3'' \<in> set (concat (map (print_trial_result (\<lambda>_. [])) results))"
    using hd_in_set [OF res(2)] unfolding set_concat by auto
  then show ?thesis using run by (intro exI conjI) auto
qed

end
