(* ===== verification/Smoke_Checks.thy ===== *)
theory Smoke_Checks
  imports Operator_Scripts
begin

text \<open>
  The three smoke checks of \<open>control_plane/scripts\<close> that run the duplicate suppression against a
  Redis server in a container: \<open>smoke_redis_idempotency.py\<close> (two claims of one key),
  \<open>smoke_result_idempotency_redis.py\<close> (two claims of a worker result's key) and
  \<open>smoke_result_consumer_redis_idempotency.py\<close> (one result message through the consumer, twice).
  Running \<open>docker exec\<close> is the parameter \<open>run\<close>, as in the command line client; the command number
  \<open>i\<close> of a check runs at time \<open>clock i\<close>, \<open>epoch\<close> is the \<open>int(time.time())\<close> in the generated names.
\<close>

definition REDIS_CONTAINER :: string where "REDIS_CONTAINER = ''kernelq-redis''"
definition SMOKE_NAMESPACE :: string where "SMOKE_NAMESPACE = ''kernelq:smoke:idempotency''"
definition TTL_SECONDS :: int where "TTL_SECONDS = 60"
definition ATTEMPT :: int where "ATTEMPT = 0"

definition docker_args :: "string list \<Rightarrow> string list" where
  "docker_args args = [''docker'', ''exec'', REDIS_CONTAINER, ''redis-cli''] @ args"

section \<open>The client in the container\<close>

definition docker_set :: "('r, 't) run_command \<Rightarrow> ('r, 't) redis_set" where
  "docker_set run s now redis_key v nx ex =
     (let args = [''SET'', redis_key, v];
          args = (if nx then args @ [''NX''] else args);
          args = (case ex of None \<Rightarrow> args | Some n \<Rightarrow> args @ [''EX'', str_int n])
      in case run s now (docker_args args) of
           (Inl e, s') \<Rightarrow> (Inl e, s')
         | (Inr result, s') \<Rightarrow>
             if cp_returncode result \<noteq> 0 then
               (Inl (RuntimeError (''redis-cli failed: '' @
                  (if py_strip (cp_stderr result) = [] then py_strip (cp_stdout result) else py_strip (cp_stderr result)))), s')
             else (Inr (py_strip (cp_stdout result) = ''OK''), s'))"

text \<open>\<open>subprocess.run\<close> with \<open>check=True\<close>: a return code other than 0 raises.\<close>

definition docker_delete :: "('r, 't) run_command \<Rightarrow> 'r \<Rightarrow> 't \<Rightarrow> string \<Rightarrow> exc option \<times> 'r" where
  "docker_delete run s now redis_key =
     (case run s now (docker_args [''DEL'', redis_key]) of
        (Inl e, s') \<Rightarrow> (Some e, s')
      | (Inr result, s') \<Rightarrow>
          (if cp_returncode result \<noteq> 0 then Some (CalledProcessError (cp_returncode result)) else None, s'))"

text \<open>The second script repeats the client class, the third has the deletion as a function.\<close>

definition docker_set_result :: "('r, 't) run_command \<Rightarrow> ('r, 't) redis_set" where
  "docker_set_result = docker_set"

definition docker_delete_result :: "('r, 't) run_command \<Rightarrow> 'r \<Rightarrow> 't \<Rightarrow> string \<Rightarrow> exc option \<times> 'r" where
  "docker_delete_result = docker_delete"

definition clear_redis_key :: "('r, 't) run_command \<Rightarrow> 'r \<Rightarrow> 't \<Rightarrow> string \<Rightarrow> exc option \<times> 'r" where
  "clear_redis_key = docker_delete"

definition ping_redis :: "string \<Rightarrow> ('r, 't) run_command \<Rightarrow> 'r \<Rightarrow> 't \<Rightarrow> exc option \<times> 'r" where
  "ping_redis unreachable run s now =
     (case run s now (docker_args [''ping'']) of
        (Inl e, s') \<Rightarrow> (Some e, s')
      | (Inr result, s') \<Rightarrow>
          (if cp_returncode result \<noteq> 0 \<or> py_strip (cp_stdout result) \<noteq> ''PONG''
           then Some (RuntimeError unreachable) else None, s'))"

definition ensure_redis_reachable :: "('r, 't) run_command \<Rightarrow> 'r \<Rightarrow> 't \<Rightarrow> exc option \<times> 'r" where
  "ensure_redis_reachable =
     ping_redis ''Redis is not reachable. Start it with: docker compose up -d redis''"

definition ensure_redis_reachable_container :: "('r, 't) run_command \<Rightarrow> 'r \<Rightarrow> 't \<Rightarrow> exc option \<times> 'r" where
  "ensure_redis_reachable_container =
     ping_redis (''Redis is not reachable via '' @ REDIS_CONTAINER @ ''. Start it with: docker compose up -d redis'')"

text \<open>\<open>str(b).lower()\<close> of a bool, and the end of a check: its lines, and the exit code with the verdict.\<close>

definition bool_word :: "bool \<Rightarrow> string" where
  "bool_word b = py_lower (if b then ''True'' else ''False'')"

definition verdict :: "string list \<Rightarrow> bool \<Rightarrow> string list \<Rightarrow> string list \<Rightarrow> script_run" where
  "verdict ls ok pass failure =
     (if ok then \<lparr>so_stdout = ls @ pass, so_stderr = [], so_outcome = ExitCode 0\<rparr>
      else \<lparr>so_stdout = ls, so_stderr = failure, so_outcome = ExitCode 1\<rparr>)"

section \<open>Two claims of one key\<close>

definition smoke_redis_main ::
    "('r, 't) run_command \<Rightarrow> int \<Rightarrow> string \<Rightarrow> (nat \<Rightarrow> 't) \<Rightarrow> 'r \<Rightarrow> script_run \<times> 'r" where
  "smoke_redis_main run epoch uuid_hex clock s =
     (let claim_key = ''run-'' @ str_int epoch @ ''-'' @ take 8 uuid_hex
      in case redis_init SMOKE_NAMESPACE of
           Inl e \<Rightarrow> (raised [] e, s)
         | Inr namespace \<Rightarrow>
             (let store = redis_try_claim namespace (docker_set run);
                  redis_key = SMOKE_NAMESPACE @ '':'' @ claim_key
              in case docker_delete run s (clock 0) redis_key of
                   (Some e, s) \<Rightarrow> (raised [] e, s)
                 | (None, s) \<Rightarrow>
                     (case store s (clock 1) claim_key TTL_SECONDS of
                        (Inl e, s) \<Rightarrow> (raised [] e, s)
                      | (Inr first_claim, s) \<Rightarrow>
                          (case store s (clock 2) claim_key TTL_SECONDS of
                             (Inl e, s) \<Rightarrow> (raised [] e, s)
                           | (Inr second_claim, s) \<Rightarrow>
                               (verdict [''first_claim='' @ bool_word first_claim, ''second_claim='' @ bool_word second_claim]
                                  (first_claim \<and> \<not> second_claim)
                                  [''PASS: redis idempotency smoke test succeeded'', ''event=smoke_redis_idempotency success=true'']
                                  [''FAIL: expected first_claim=true and second_claim=false'',
                                   ''event=smoke_redis_idempotency success=false''], s)))))"

definition DEFAULT_NAMESPACE :: string where "DEFAULT_NAMESPACE = ''kernelq:idempotency''"

definition smoke_result_main ::
    "('r, 't) run_command \<Rightarrow> int \<Rightarrow> (nat \<Rightarrow> 't) \<Rightarrow> 'r \<Rightarrow> script_run \<times> 'r" where
  "smoke_result_main run epoch clock s =
     (case ensure_redis_reachable run s (clock 0) of
        (Some e, s) \<Rightarrow> (raised [] e, s)
      | (None, s) \<Rightarrow>
          (let job_id = ''day101-result-idem-'' @ str_int epoch
           in case worker_result_key (ArgStr job_id) (ArgInt (PyInt ATTEMPT)) of
                Inl e \<Rightarrow> (raised [] e, s)
              | Inr logical_key \<Rightarrow>
                  (case docker_delete_result run s (clock 1) (DEFAULT_NAMESPACE @ '':'' @ logical_key) of
                     (Some e, s) \<Rightarrow> (raised [] e, s)
                   | (None, s) \<Rightarrow>
                       (case redis_init ''kernelq:idempotency'' of
                          Inl e \<Rightarrow> (raised [] e, s)
                        | Inr namespace \<Rightarrow>
                            (let store = redis_try_claim namespace (docker_set_result run)
                             in case store s (clock 2) logical_key DEFAULT_DEDUPE_TTL_SECONDS of
                                  (Inl e, s) \<Rightarrow> (raised [] e, s)
                                | (Inr first_claim, s) \<Rightarrow>
                                    (case store s (clock 3) logical_key DEFAULT_DEDUPE_TTL_SECONDS of
                                       (Inl e, s) \<Rightarrow> (raised [] e, s)
                                     | (Inr second_claim, s) \<Rightarrow>
                                         (let duplicate_skipped = (\<not> second_claim)
                                          in (verdict
                                               [''job_id='' @ job_id, ''attempt='' @ str_int ATTEMPT, ''key='' @ logical_key,
                                                ''first_claim='' @ bool_word first_claim, ''second_claim='' @ bool_word second_claim,
                                                ''duplicate_skipped='' @ bool_word duplicate_skipped]
                                               (first_claim \<and> \<not> second_claim \<and> duplicate_skipped)
                                               [''PASS: redis result idempotency smoke test succeeded'',
                                                ''event=smoke_result_idempotency_redis success=true'']
                                               [''FAIL: expected first_claim=true, second_claim=false, duplicate_skipped=true'',
                                                ''event=smoke_result_idempotency_redis success=false''], s))))))))"

section \<open>One result through the consumer, twice\<close>

definition SMOKE_ENV :: env where
  "SMOKE_ENV =
     [(ENV_BACKEND, ''redis''), (ENV_REDIS_HOST, DEFAULT_REDIS_HOST), (ENV_REDIS_PORT, str_int DEFAULT_REDIS_PORT),
      (ENV_REDIS_NAMESPACE, DEFAULT_REDIS_NAMESPACE)]"

text \<open>The recording handler appends the event to its list.\<close>

definition recording_handle :: "worker_result list handler" where
  "recording_handle event events = (None, events @ [event])"

definition docker_exec_redis_cli_run :: "('r, 't) run_command \<Rightarrow> ('r, 't) run_command" where
  "docker_exec_redis_cli_run run s now args = (let redis_command = drop 5 args in run s now (docker_args redis_command))"

text \<open>
  The store from the environment, with the client's \<open>_run\<close> replaced: the \<open>try_claim\<close> of the
  object. An in-memory store has no client to patch.
\<close>

definition build_redis_store_for_smoke :: "('r, 't) run_command \<Rightarrow> ('r, 't) try_claim result" where
  "build_redis_store_for_smoke run =
     bind_res (build_idempotency_store_from_env SMOKE_ENV) (\<lambda>store.
       case store of
         MemoryStore \<Rightarrow> Inl (AttributeError ''_client'')
       | RedisStore host port namespace \<Rightarrow>
           Inr (redis_try_claim namespace (cli_set (docker_exec_redis_cli_run run) host port)))"

text \<open>The message's bytes; the text of \<open>json.dumps\<close> is ASCII, so encoding does not change it.\<close>

definition smoke_result_message :: "(py_float \<Rightarrow> string) \<Rightarrow> string \<Rightarrow> int \<Rightarrow> raw_data" where
  "smoke_result_message frepr job_id attempt =
     (let payload = [(''event_type'', JStr WORKER_RESULT_EVENT_TYPE), (''job_id'', JStr job_id), (''status'', JStr ''succeeded''),
            (''message'', JStr ''smoke''), (''worker'', JStr ''smoke-result-consumer''), (''attempt'', JInt attempt)]
      in RawBytes (json_dumps frepr False (JObj payload)))"

definition smoke_consumer_main ::
    "(py_float \<Rightarrow> string) \<Rightarrow> (nat \<Rightarrow> string) \<Rightarrow> ('r, 't) run_command \<Rightarrow> int \<Rightarrow> (nat \<Rightarrow> 't) \<Rightarrow> 'r \<Rightarrow> script_run \<times> 'r" where
  "smoke_consumer_main frepr wide run epoch clock s =
     (case ensure_redis_reachable_container run s (clock 0) of
        (Some e, s) \<Rightarrow> (raised [] e, s)
      | (None, s) \<Rightarrow>
          (let job_id = ''day103-result-consumer-redis-'' @ str_int epoch
           in case worker_result_key (ArgStr job_id) (ArgInt (PyInt ATTEMPT)) of
                Inl e \<Rightarrow> (raised [] e, s)
              | Inr logical_key \<Rightarrow>
                  (case clear_redis_key run s (clock 1) (DEFAULT_REDIS_NAMESPACE @ '':'' @ logical_key) of
                     (Some e, s) \<Rightarrow> (raised [] e, s)
                   | (None, s) \<Rightarrow>
                       (case build_redis_store_for_smoke run of
                          Inl e \<Rightarrow> (raised [] e, s)
                        | Inr store \<Rightarrow>
                            (let message = smoke_result_message frepr job_id ATTEMPT;
                                 process = process_message frepr wide store DEFAULT_DEDUPE_TTL_SECONDS (Some recording_handle)
                             in case process (clock 2) message (runner_init s []) of
                                  (Some e, consumer) \<Rightarrow> (raised (rn_printed consumer) e, rn_store consumer)
                                | (None, consumer) \<Rightarrow>
                                    (case process (clock 3) message consumer of
                                       (Some e, consumer) \<Rightarrow> (raised (rn_printed consumer) e, rn_store consumer)
                                     | (None, consumer) \<Rightarrow>
                                         (let handled_count = int (length (rn_handler consumer));
                                              duplicate_messages = rn_duplicate consumer;
                                              first_processed = (handled_count = 1);
                                              second_skipped = (duplicate_messages = 1 \<and> handled_count = 1)
                                          in (verdict
                                               (rn_printed consumer @
                                                [''job_id='' @ job_id, ''attempt='' @ str_int ATTEMPT, ''key='' @ logical_key,
                                                 ''handled_count='' @ str_int handled_count,
                                                 ''duplicate_messages='' @ str_int duplicate_messages,
                                                 ''first_processed='' @ bool_word first_processed,
                                                 ''second_skipped='' @ bool_word second_skipped])
                                               (first_processed \<and> second_skipped)
                                               [''PASS: redis result consumer idempotency smoke test succeeded'',
                                                ''event=smoke_result_consumer_redis_idempotency success=true'']
                                               [''FAIL: expected handled_count=1, duplicate_messages=1, '' @
                                                ''first_processed=true, second_skipped=true'',
                                                ''event=smoke_result_consumer_redis_idempotency success=false''],
                                             rn_store consumer))))))))"

section \<open>A documented Redis\<close>

text \<open>
  What \<open>redis-cli\<close> in the container documents for the commands the checks send: \<open>SET\<close> with \<open>NX\<close>
  and \<open>EX\<close> as before, \<open>DEL\<close> removes the key and no other, \<open>ping\<close> prints \<open>PONG\<close> and changes nothing.
\<close>

definition docker_redis_documented ::
    "('r, 't :: linorder) run_command \<Rightarrow> ('r \<Rightarrow> 't \<Rightarrow> string \<Rightarrow> bool) \<Rightarrow> ('t \<Rightarrow> int \<Rightarrow> 't) \<Rightarrow> bool" where
  "docker_redis_documented run present deadline \<longleftrightarrow>
     (\<forall>s t t' k. present s t k \<longrightarrow> t' \<le> t \<longrightarrow> present s t' k) \<and>
     (\<forall>s now k v ttl. 0 < ttl \<longrightarrow>
        (case run s now (docker_args [''SET'', k, v, ''NX'', ''EX'', str_int ttl]) of (r, s') \<Rightarrow>
           (\<exists>err. r = Inr \<lparr>cp_returncode = 0, cp_stdout = (if present s now k then [CHR 0x0A] else ''OK'' @ [CHR 0x0A]),
              cp_stderr = err\<rparr>) \<and>
           (\<forall>t k'. now \<le> t \<longrightarrow>
              present s' t k' = (if k' = k \<and> \<not> present s now k then t < deadline now ttl else present s t k')))) \<and>
     (\<forall>s now k.
        (case run s now (docker_args [''DEL'', k]) of (r, s') \<Rightarrow>
           (\<exists>out err. r = Inr \<lparr>cp_returncode = 0, cp_stdout = out, cp_stderr = err\<rparr>) \<and>
           (\<forall>t k'. now \<le> t \<longrightarrow> present s' t k' = (k' \<noteq> k \<and> present s t k')))) \<and>
     (\<forall>s now.
        (case run s now (docker_args [''ping'']) of (r, s') \<Rightarrow>
           (\<exists>err. r = Inr \<lparr>cp_returncode = 0, cp_stdout = ''PONG'' @ [CHR 0x0A], cp_stderr = err\<rparr>) \<and>
           (\<forall>t k. now \<le> t \<longrightarrow> present s' t k = present s t k)))"

text \<open>The client of the package with its \<open>_run\<close> replaced sends what the hand-written client sends.\<close>

lemma cli_set_in_docker: "cli_set (docker_exec_redis_cli_run run) host port = docker_set run"
  by (simp add: fun_eq_iff cli_set_def docker_set_def docker_exec_redis_cli_run_def Let_def split: option.split)

lemma docker_cli_documented:
  "docker_redis_documented run present deadline \<Longrightarrow>
   redis_cli_documented (docker_exec_redis_cli_run run) host port present deadline"
  by (simp add: docker_redis_documented_def redis_cli_documented_def docker_exec_redis_cli_run_def)

lemma docker_store:
  assumes "docker_redis_documented run present deadline"
  shows "idempotency_store (redis_try_claim namespace (docker_set run)) (\<lambda>s t k. present s t (namespace @ '':'' @ k)) deadline"
  using redis_store [OF cli_set_documented [OF docker_cli_documented [OF assms]]] unfolding cli_set_in_docker .

lemma docker_delete_ok:
  assumes "docker_redis_documented run present deadline"
  obtains s' where "docker_delete run s now k = (None, s')" "\<And>t. now \<le> t \<Longrightarrow> \<not> present s' t k"
proof -
  obtain r s' where run: "run s now (docker_args [''DEL'', k]) = (r, s')" by fastforce
  have "case run s now (docker_args [''DEL'', k]) of (r, s') \<Rightarrow>
      (\<exists>out err. r = Inr \<lparr>cp_returncode = 0, cp_stdout = out, cp_stderr = err\<rparr>) \<and>
      (\<forall>t k'. now \<le> t \<longrightarrow> present s' t k' = (k' \<noteq> k \<and> present s t k'))"
    by (rule assms [unfolded docker_redis_documented_def, THEN conjunct2, THEN conjunct2, THEN conjunct1, rule_format])
  then show thesis using that [of s'] run by (auto simp: docker_delete_def)
qed

lemma ping_redis_ok:
  assumes "docker_redis_documented run present deadline"
  obtains s' where "ping_redis msg run s now = (None, s')"
proof -
  obtain r s' where run: "run s now (docker_args [''ping'']) = (r, s')" by fastforce
  have "case run s now (docker_args [''ping'']) of (r, s') \<Rightarrow>
      (\<exists>err. r = Inr \<lparr>cp_returncode = 0, cp_stdout = ''PONG'' @ [CHR 0x0A], cp_stderr = err\<rparr>) \<and>
      (\<forall>t k. now \<le> t \<longrightarrow> present s' t k = present s t k)"
    by (rule assms [unfolded docker_redis_documented_def, THEN conjunct2, THEN conjunct2, THEN conjunct2, rule_format])
  then show thesis using that [of s'] run by (auto simp: ping_redis_def py_strip_def py_isspace_def)
qed

text \<open>Two claims of a key that is not there: the first is granted, the second as soon as the first has run out.\<close>

context idempotency_store
begin

lemma two_claims:
  assumes "validate_claim_inputs k ttl = None" "\<not> live s t1 k" "t1 \<le> t2"
  obtains s1 s2 where "claim s t1 k ttl = (Inr True, s1)" "claim s1 t2 k ttl = (Inr (\<not> t2 < deadline t1 ttl), s2)"
proof -
  obtain s1 where c1: "claim s t1 k ttl = (Inr True, s1)" using claim_valid [OF assms(1), of s t1] assms(2) by auto
  then have "live s1 t2 k \<longleftrightarrow> t2 < deadline t1 ttl" using claim_step [OF c1 assms(3), of k] live_earlier [OF _ assms(3), of s k] assms(2) by auto
  then obtain s2 where "claim s1 t2 k ttl = (Inr (\<not> t2 < deadline t1 ttl), s2)"
    using claim_valid [OF assms(1), of s1 t2] by auto
  with c1 show thesis by (rule that)
qed

end

text \<open>The names the checks generate are accepted.\<close>

lemma smoke_names:
  "redis_init SMOKE_NAMESPACE = Inr SMOKE_NAMESPACE"
  "redis_init ''kernelq:idempotency'' = Inr ''kernelq:idempotency''"
  "validate_claim_inputs (''run-'' @ x) TTL_SECONDS = None"
  by (simp_all add: redis_init_def validate_namespace_def is_blank_iff py_isspace_def SMOKE_NAMESPACE_def
      validate_claim_inputs_None TTL_SECONDS_def)

lemma smoke_job_key:
  assumes "\<not> is_blank job_id"
  obtains k where "worker_result_key (ArgStr job_id) (ArgInt (PyInt ATTEMPT)) = Inr k"
    "validate_claim_inputs k DEFAULT_DEDUPE_TTL_SECONDS = None"
proof -
  obtain k where k: "worker_result_key (ArgStr job_id) (ArgInt (PyInt ATTEMPT)) = Inr k"
    using assms by (simp add: key_simps ATTEMPT_def)
  show thesis
    by (rule that [OF k]) (use stage_key_not_blank(1) [OF k] in \<open>simp add: validate_claim_inputs_None DEFAULT_DEDUPE_TTL_SECONDS_def\<close>)
qed

section \<open>The checks against it\<close>

lemma smoke_redis_exit:
  assumes "docker_redis_documented run present deadline" "clock 0 \<le> clock 1" "clock 1 \<le> clock 2"
  shows "so_outcome (fst (smoke_redis_main run epoch uuid_hex clock s)) = ExitCode (if clock 2 < deadline (clock 1) 60 then 0 else 1)"
proof -
  let ?k = "''run-'' @ str_int epoch @ ''-'' @ take 8 uuid_hex"
  obtain s0 where d: "docker_delete run s (clock 0) (SMOKE_NAMESPACE @ '':'' @ ?k) = (None, s0)"
    "\<And>t. clock 0 \<le> t \<Longrightarrow> \<not> present s0 t (SMOKE_NAMESPACE @ '':'' @ ?k)"
    by (rule docker_delete_ok [OF assms(1)]) blast
  obtain s1 s2 where "redis_try_claim SMOKE_NAMESPACE (docker_set run) s0 (clock 1) ?k TTL_SECONDS = (Inr True, s1)"
    "redis_try_claim SMOKE_NAMESPACE (docker_set run) s1 (clock 2) ?k TTL_SECONDS = (Inr (\<not> clock 2 < deadline (clock 1) TTL_SECONDS), s2)"
    using d(2) [OF assms(2)]
    by (rule idempotency_store.two_claims [OF docker_store [OF assms(1), of SMOKE_NAMESPACE],
          where k = ?k and ttl = TTL_SECONDS and s = s0, OF smoke_names(3) _ assms(3)])
  then show ?thesis
    using d(1) smoke_names(1) by (simp add: smoke_redis_main_def verdict_def TTL_SECONDS_def Let_def)
qed

lemma smoke_result_exit:
  assumes "docker_redis_documented run present deadline" "clock 1 \<le> clock 2" "clock 2 \<le> clock 3"
  shows "so_outcome (fst (smoke_result_main run epoch clock s)) = ExitCode (if clock 3 < deadline (clock 2) 86400 then 0 else 1)"
proof -
  let ?ns = "''kernelq:idempotency''" and ?j = "''day101-result-idem-'' @ str_int epoch"
  have "\<not> is_blank ?j" by (simp add: is_blank_iff py_isspace_def)
  then obtain k where k: "worker_result_key (ArgStr ?j) (ArgInt (PyInt ATTEMPT)) = Inr k"
    "validate_claim_inputs k DEFAULT_DEDUPE_TTL_SECONDS = None" by (rule smoke_job_key)
  obtain s0 where p: "ensure_redis_reachable run s (clock 0) = (None, s0)"
    unfolding ensure_redis_reachable_def by (rule ping_redis_ok [OF assms(1)])
  obtain s1 where d: "docker_delete run s0 (clock 1) (?ns @ '':'' @ k) = (None, s1)"
    "\<And>t. clock 1 \<le> t \<Longrightarrow> \<not> present s1 t (?ns @ '':'' @ k)"
    by (rule docker_delete_ok [OF assms(1)]) blast
  obtain s2 s3 where "redis_try_claim ?ns (docker_set run) s1 (clock 2) k DEFAULT_DEDUPE_TTL_SECONDS = (Inr True, s2)"
    "redis_try_claim ?ns (docker_set run) s2 (clock 3) k DEFAULT_DEDUPE_TTL_SECONDS =
       (Inr (\<not> clock 3 < deadline (clock 2) DEFAULT_DEDUPE_TTL_SECONDS), s3)"
    using d(2) [OF assms(2)]
    by (rule idempotency_store.two_claims [OF docker_store [OF assms(1), of ?ns],
          where k = k and ttl = DEFAULT_DEDUPE_TTL_SECONDS and s = s1, OF k(2) _ assms(3)])
  then show ?thesis
    using p k(1) d(1) smoke_names(2)
    by (simp add: smoke_result_main_def verdict_def docker_set_result_def docker_delete_result_def DEFAULT_NAMESPACE_def
        DEFAULT_DEDUPE_TTL_SECONDS_def Let_def)
qed

text \<open>The message of the third check is a valid event of its job.\<close>

definition smoke_event :: "string \<Rightarrow> worker_result" where
  "smoke_event job_id = \<lparr>we_event_type = ''job.result'', we_job_id = job_id, we_status = ''succeeded'', we_message = ''smoke'',
     we_worker = ''smoke-result-consumer'', we_attempt = ArgInt (PyInt ATTEMPT)\<rparr>"

lemma smoke_message_parses:
  assumes "\<not> is_blank job_id"
  shows "parse_worker_result_event frepr wide (smoke_result_message frepr job_id ATTEMPT) = Inr (smoke_event job_id)"
proof -
  have w: "\<not> is_blank ''smoke-result-consumer''" by (simp add: is_blank_iff py_isspace_def)
  have v: "validate_result (smoke_event job_id) = None"
    using assms w by (simp add: validate_result_def smoke_event_def WORKER_RESULT_EVENT_TYPE_def ALLOWED_STATUSES_def ATTEMPT_def)
  then have "result_to_json frepr (smoke_event job_id) =
      Inr (json_dumps frepr False (JObj (map (\<lambda>(k, v). (k, flat_json v)) (result_to_dict (smoke_event job_id) (PyInt ATTEMPT)))))"
    by (simp add: result_to_json_def) (simp add: smoke_event_def)
  moreover have "smoke_result_message frepr job_id ATTEMPT =
      RawBytes (json_dumps frepr False (JObj (map (\<lambda>(k, v). (k, flat_json v)) (result_to_dict (smoke_event job_id) (PyInt ATTEMPT)))))"
    by (simp add: smoke_result_message_def result_to_dict_def smoke_event_def WORKER_RESULT_EVENT_TYPE_def)
  ultimately show ?thesis using wire_roundtrip [OF v, of frepr wide] by auto
qed

lemma smoke_accept:
  assumes "\<not> is_blank job_id" "worker_result_key (ArgStr job_id) (ArgInt (PyInt ATTEMPT)) = Inr k"
  shows "accept frepr wide (now, smoke_result_message frepr job_id ATTEMPT, handle) =
    Some \<lparr>ac_now = now, ac_key = k, ac_event = smoke_event job_id, ac_handle = handle\<rparr>"
  using smoke_message_parses [OF assms(1), of frepr wide] assms(2) by (simp add: accept_def) (simp add: smoke_event_def)

lemma smoke_store_built:
  "build_redis_store_for_smoke run = Inr (redis_try_claim ''kernelq:idempotency'' (docker_set run))"
proof -
  have d: "py_int (str_int DEFAULT_REDIS_PORT) = Some DEFAULT_REDIS_PORT" "py_strip (str_int DEFAULT_REDIS_PORT) = str_int DEFAULT_REDIS_PORT"
    by (rule py_int_str_int, rule order_trans [OF length_str_nat [of _ 4]])
      (simp_all add: DEFAULT_REDIS_PORT_def py_strip_none str_int_not_space)
  have "build_idempotency_store_from_env SMOKE_ENV = Inr (RedisStore DEFAULT_REDIS_HOST DEFAULT_REDIS_PORT ''kernelq:idempotency'')"
    using d smoke_names(2)
    by (simp add: build_idempotency_store_from_env_def resolve_idempotency_backend_def env_get_def dict_get_def SMOKE_ENV_def
        ENV_BACKEND_def ENV_REDIS_HOST_def ENV_REDIS_PORT_def ENV_REDIS_NAMESPACE_def DEFAULT_REDIS_NAMESPACE_def
        DEFAULT_REDIS_HOST_def py_strip_def py_isspace_def py_lower_def lower_char_def Let_def)
  then show ?thesis by (simp add: build_redis_store_for_smoke_def cli_set_in_docker)
qed

text \<open>One message processed twice, seen from the answers to its two claims.\<close>

lemma processed_twice:
  assumes "\<not> is_blank job_id" "worker_result_key (ArgStr job_id) (ArgInt (PyInt ATTEMPT)) = Inr k"
    and "claim s t1 k ttl = (Inr True, s1)" "claim s1 t2 k ttl = (Inr b, s2)"
  obtains rn1 rn2 where
    "process_message frepr wide claim ttl (Some recording_handle) t1 (smoke_result_message frepr job_id ATTEMPT) (runner_init s []) = (None, rn1)"
    "process_message frepr wide claim ttl (Some recording_handle) t2 (smoke_result_message frepr job_id ATTEMPT) rn1 = (None, rn2)"
    "rn_handler rn2 = (if b then [smoke_event job_id, smoke_event job_id] else [smoke_event job_id])"
    "rn_duplicate rn2 = (if b then 0 else 1)"
proof -
  note acc = smoke_accept [OF assms(1,2), of frepr wide _ recording_handle]
  have h: "recording_handle ev hs = (None, hs @ [ev])" for ev hs by (simp add: recording_handle_def)
  define rn1 where "rn1 = (runner_init s [])\<lparr>rn_store := s1, rn_handler := [smoke_event job_id], rn_processed := 1\<rparr>"
  have p1: "process_message frepr wide claim ttl (Some recording_handle) t1 (smoke_result_message frepr job_id ATTEMPT) (runner_init s []) = (None, rn1)"
    using process_granted [OF acc, of claim "runner_init s []" t1 ttl s1 None "[smoke_event job_id]"] assms(3)
    by (simp add: runner_init_def recording_handle_def rn1_def)
  show thesis
  proof (cases b)
    case True
    then show thesis
      using that [OF p1, of "rn1\<lparr>rn_store := s2, rn_handler := [smoke_event job_id, smoke_event job_id], rn_processed := 2\<rparr>"]
        process_granted [OF acc, of claim rn1 t2 ttl s2 None "[smoke_event job_id, smoke_event job_id]"] assms(4)
      by (simp add: recording_handle_def rn1_def runner_init_def)
  next
    case False
    then obtain line where "process_message frepr wide claim ttl (Some recording_handle) t2 (smoke_result_message frepr job_id ATTEMPT) rn1 =
        (None, rn1\<lparr>rn_store := s2, rn_duplicate := rn_duplicate rn1 + 1, rn_printed := rn_printed rn1 @ [line]\<rparr>)"
      using process_refused [OF acc, of claim rn1 t2 ttl s2] assms(4) by (auto simp: rn1_def runner_init_def)
    then show thesis using that [OF p1] False by (simp add: rn1_def runner_init_def)
  qed
qed

lemma smoke_consumer_exit:
  assumes "docker_redis_documented run present deadline" "clock 1 \<le> clock 2" "clock 2 \<le> clock 3"
  shows "so_outcome (fst (smoke_consumer_main frepr wide run epoch clock s)) =
    ExitCode (if clock 3 < deadline (clock 2) 86400 then 0 else 1)"
proof -
  let ?ns = "''kernelq:idempotency''" and ?j = "''day103-result-consumer-redis-'' @ str_int epoch"
  have j: "\<not> is_blank ?j" by (simp add: is_blank_iff py_isspace_def)
  then obtain k where k: "worker_result_key (ArgStr ?j) (ArgInt (PyInt ATTEMPT)) = Inr k"
    "validate_claim_inputs k DEFAULT_DEDUPE_TTL_SECONDS = None" by (rule smoke_job_key)
  obtain s0 where p: "ensure_redis_reachable_container run s (clock 0) = (None, s0)"
    unfolding ensure_redis_reachable_container_def by (rule ping_redis_ok [OF assms(1)])
  obtain s1 where d: "docker_delete run s0 (clock 1) (?ns @ '':'' @ k) = (None, s1)"
    "\<And>t. clock 1 \<le> t \<Longrightarrow> \<not> present s1 t (?ns @ '':'' @ k)"
    by (rule docker_delete_ok [OF assms(1)]) blast
  obtain s2 s3 where c: "redis_try_claim ?ns (docker_set run) s1 (clock 2) k DEFAULT_DEDUPE_TTL_SECONDS = (Inr True, s2)"
    "redis_try_claim ?ns (docker_set run) s2 (clock 3) k DEFAULT_DEDUPE_TTL_SECONDS =
       (Inr (\<not> clock 3 < deadline (clock 2) DEFAULT_DEDUPE_TTL_SECONDS), s3)"
    using d(2) [OF assms(2)]
    by (rule idempotency_store.two_claims [OF docker_store [OF assms(1), of ?ns],
          where k = k and ttl = DEFAULT_DEDUPE_TTL_SECONDS and s = s1, OF k(2) _ assms(3)])
  note twice = processed_twice [where claim = "redis_try_claim ?ns (docker_set run)" and ttl = DEFAULT_DEDUPE_TTL_SECONDS,
      OF j k(1) c, of frepr wide]
  show ?thesis
    by (rule twice)
      (use p k(1) d(1) in \<open>simp add: smoke_consumer_main_def smoke_store_built verdict_def clear_redis_key_def
        DEFAULT_REDIS_NAMESPACE_def DEFAULT_DEDUPE_TTL_SECONDS_def Let_def\<close>)
qed

section \<open>Properties\<close>

text \<open>
  C23: The smoke checks decide whether duplicates are suppressed. Against a Redis that behaves as
  documented, whatever it holds beforehand, none of the three checks raises, and each exits with
  0 exactly when its second claim comes before the first one's time-to-live has run out (60
  seconds, a day for the two checks of worker results): the deletion makes the first claim
  succeed, the namespaces and keys of the deletion and of the claims agree, and in the third the
  dumped message parses, is handled once and is then counted as a duplicate.
\<close>

theorem smoke_checks_decide:
  assumes "docker_redis_documented run present deadline"
    and "clock 0 \<le> clock 1" and "clock 1 \<le> clock 2" and "clock 2 \<le> clock 3"
  shows "so_outcome (fst (smoke_redis_main run epoch uuid_hex clock s)) =
       ExitCode (if clock 2 < deadline (clock 1) 60 then 0 else 1) \<and>
     so_outcome (fst (smoke_result_main run epoch clock s)) =
       ExitCode (if clock 3 < deadline (clock 2) 86400 then 0 else 1) \<and>
     so_outcome (fst (smoke_consumer_main frepr wide run epoch clock s)) =
       ExitCode (if clock 3 < deadline (clock 2) 86400 then 0 else 1)"
  using smoke_redis_exit [OF assms(1-3)] smoke_result_exit [OF assms(1,3,4)] smoke_consumer_exit [OF assms(1,3,4)] by blast

text \<open>A concrete container for the witness: it takes the command apart.\<close>

definition demo_docker :: "(string \<rightharpoonup> int, int) run_command" where
  "demo_docker s now args =
     (let reply = (\<lambda>out. Inr \<lparr>cp_returncode = 0, cp_stdout = out @ [CHR 0x0A], cp_stderr = []\<rparr>) in
      case drop 4 args of
        [command] \<Rightarrow> (reply ''PONG'', s)
      | [command, k] \<Rightarrow> (reply ''1'', s(k := None))
      | command # k # rest \<Rightarrow>
          if \<exists>e. s k = Some e \<and> now < e then (reply [], s) else (reply ''OK'', s(k := Some (now + int (read_nat (last args))))))"

lemma demo_docker_documented:
  "docker_redis_documented demo_docker (\<lambda>s t k. \<exists>e. s k = Some e \<and> t < e) (\<lambda>now ttl. now + ttl)"
  unfolding docker_redis_documented_def
  by (intro conjI allI impI; auto simp: demo_docker_def docker_args_def Let_def str_int_def)

theorem smoke_checks_decide_witness:
  "so_outcome (fst (smoke_redis_main demo_docker 5 ''c0ffee'' int Map.empty)) = ExitCode 0 \<and>
   so_outcome (fst (smoke_consumer_main (\<lambda>_. []) (\<lambda>_. []) demo_docker 5 int Map.empty)) = ExitCode 0"
  using smoke_checks_decide [OF demo_docker_documented, of int] by simp

end
