(* ===== verification/Redis_Errors.thy ===== *)
theory Redis_Errors
  imports Scheduler_Tick Result_Consumer Idempotency_Config
begin

text \<open>
  The scheduler tick and the result consumer over the store of \<open>redis-cli\<close>, when the server
  answers every command with an error (a read-only replica, no memory, a missing password). The
  tool then prints the error on its standard output and still ends with code 0, unless it is
  called with \<open>-e\<close>; the client takes whatever is not \<open>OK\<close> for a key that exists.
\<close>

definition answers_with_errors :: "('r, 't) run_command \<Rightarrow> bool" where
  "answers_with_errors run \<longleftrightarrow>
     (\<forall>s now args. \<exists>result s'. run s now args = (Inr result, s') \<and> cp_returncode result = 0 \<and> py_strip (cp_stdout result) \<noteq> ''OK'')"

abbreviation cli_store :: "('r, 't) run_command \<Rightarrow> string \<Rightarrow> int \<Rightarrow> string \<Rightarrow> ('r, 't) try_claim" where
  "cli_store run host port namespace \<equiv> redis_try_claim namespace (cli_set run host port)"

text \<open>A store that refuses every valid claim, in whatever state it is.\<close>

definition refuses_all :: "('s, 't) try_claim \<Rightarrow> int \<Rightarrow> bool" where
  "refuses_all claim ttl \<longleftrightarrow> (\<forall>s now k. validate_claim_inputs k ttl = None \<longrightarrow> (\<exists>s'. claim s now k ttl = (Inr False, s')))"

lemma refuses_allE:
  assumes "refuses_all claim ttl" "validate_claim_inputs k ttl = None"
  obtains s' where "claim s now k ttl = (Inr False, s')"
  using assms unfolding refuses_all_def by blast

lemma errors_refuse:
  assumes "answers_with_errors run"
  shows "refuses_all (cli_store run host port namespace) ttl"
  unfolding refuses_all_def
proof (intro allI impI)
  fix s now k
  assume v: "validate_claim_inputs k ttl = None"
  let ?args = "[''redis-cli'', ''-h'', host, ''-p'', str_int port, ''SET'', namespace @ '':'' @ k, ''1'', ''NX'', ''EX'', str_int ttl]"
  obtain result s' where "run s now ?args = (Inr result, s')" "cp_returncode result = 0" "py_strip (cp_stdout result) \<noteq> ''OK''"
    using assms unfolding answers_with_errors_def by blast
  then show "\<exists>s'. cli_store run host port namespace s now k ttl = (Inr False, s')"
    using v by (simp add: redis_try_claim_def cli_set_def Let_def)
qed

text \<open>Every message that is accepted is skipped, every claimed job counts as a duplicate.\<close>

lemma consumer_skips:
  assumes "refuses_all claim ttl" "0 < ttl" "run_messages frepr wide claim ttl ms rn = (es, rn')"
  shows "rn_handler rn' = rn_handler rn \<and> rn_processed rn' = rn_processed rn \<and>
    rn_duplicate rn' = rn_duplicate rn + int (length (List.map_filter (accept frepr wide) ms)) \<and>
    list_all2 (\<lambda>m e. e = None \<longleftrightarrow> accept frepr wide m \<noteq> None) ms es"
  using assms(3)
proof (induction ms arbitrary: rn es)
  case (Cons m ms)
  obtain now v handle where m: "m = (now, v, handle)" by (metis prod_cases3)
  obtain e rn1 where r: "process_message frepr wide claim ttl (Some handle) now v rn = (e, rn1)" by fastforce
  obtain es1 where r1: "run_messages frepr wide claim ttl ms rn1 = (es1, rn')" and es: "es = e # es1"
    using Cons.prems r m by (auto split: prod.splits)
  note IH = Cons.IH [OF r1]
  show ?case
  proof (cases "accept frepr wide m")
    case None
    then have "rn1 = rn" "e \<noteq> None" using process_rejected [of frepr wide now v handle claim ttl rn] r m by auto
    then show ?thesis using IH None es by (simp add: map_filter_accept_Cons)
  next
    case (Some d)
    obtain s where "claim (rn_store rn) now (ac_key d) ttl = (Inr False, s)"
      by (rule refuses_allE [OF assms(1) accept_key_valid [OF Some assms(2)]])
    from process_refused [where claim = claim and ttl = ttl, OF Some [unfolded m] this] r obtain ls where
      "e = None" "rn1 = rn\<lparr>rn_store := s, rn_duplicate := rn_duplicate rn + 1, rn_printed := ls\<rparr>" by auto
    then show ?thesis using IH Some es by (simp add: map_filter_accept_Cons)
  qed
qed (simp add: List.map_filter_def)

lemma tick_skips:
  assumes "refuses_all claim ttl" "0 < ttl" "\<forall>job \<in> set jobs. dispatchable job"
  shows "\<exists>s n ls. publish_claimed frepr ext claim ttl publish clock jobs c st =
    (None, c\<lparr>tc_duplicates := tc_duplicates c + int (length jobs)\<rparr>, st\<lparr>tk_store := s, tk_reads := n, tk_printed := ls\<rparr>)"
  using assms(3)
proof (induction jobs arbitrary: c st)
  case Nil
  have "st = st\<lparr>tk_store := tk_store st, tk_reads := tk_reads st, tk_printed := tk_printed st\<rparr>" by simp
  moreover have "c = c\<lparr>tc_duplicates := tc_duplicates c + int (length ([] :: job_record list))\<rparr>" by simp
  ultimately show ?case unfolding publish_claimed.simps by blast
next
  case (Cons job jobs)
  obtain s where s: "claim (tk_store st) (clock (tk_reads st)) (job_key job) ttl = (Inr False, s)"
    using Cons.prems by (auto intro: refuses_allE [OF assms(1) job_key_valid [OF _ assms(2)]])
  obtain ls where
    p: "publish_one frepr ext claim ttl publish clock job c st =
      (None, c\<lparr>tc_duplicates := tc_duplicates c + 1\<rparr>, st\<lparr>tk_store := s, tk_reads := Suc (tk_reads st), tk_printed := ls\<rparr>)"
    using publish_one_duplicate [where claim = claim and clock = clock, OF _ s] Cons.prems by (metis list.set_intros(1))
  show ?case
    using Cons.IH [of "c\<lparr>tc_duplicates := tc_duplicates c + 1\<rparr>" "st\<lparr>tk_store := s, tk_reads := Suc (tk_reads st), tk_printed := ls\<rparr>"]
      Cons.prems p by (auto simp: algebra_simps)
qed

text \<open>
  C30: An error reply of Redis loses work silently. While the server answers every command with
  an error, the consumer skips every well-formed result as a duplicate without raising: no
  handler runs and the message counts as processed; and a scheduler tick marks its jobs
  dispatched, reports no error and no publish error, counts all of them as duplicates and hands
  none to the producer.
\<close>

theorem redis_error_reply_loses_work:
  assumes "answers_with_errors run" and "0 < ttl"
    and "run_messages frepr wide (cli_store run host port namespace) ttl ms rn = (es, rn')"
    and "claim_schedulable_jobs p limit t = (Inr jobs, t')" and "\<forall>job \<in> set jobs. dispatchable job"
    and "tick_run_once frepr ext (cli_store run host port namespace) ttl (Some publish) clock p limit (t, st) = (r, t'', st')"
  shows "list_all2 (\<lambda>m e. e = None \<longleftrightarrow> accept frepr wide m \<noteq> None) ms es \<and>
     rn_handler rn' = rn_handler rn \<and> rn_processed rn' = rn_processed rn \<and>
     rn_duplicate rn' = rn_duplicate rn + int (length (List.map_filter (accept frepr wide) ms)) \<and>
     r = Inr (tick_result_of jobs (no_counts\<lparr>tc_duplicates := int (length jobs)\<rparr>)) \<and>
     t'' = t' \<and> tk_producer st' = tk_producer st"
proof -
  note refuses = errors_refuse [OF assms(1), of namespace host port ttl]
  obtain s n ls where "publish_claimed frepr ext (cli_store run host port namespace) ttl publish clock jobs no_counts st =
      (None, no_counts\<lparr>tc_duplicates := int (length jobs)\<rparr>, st\<lparr>tk_store := s, tk_reads := n, tk_printed := ls\<rparr>)"
    using tick_skips [OF refuses assms(2,5), of frepr ext publish clock no_counts st] by (auto simp: no_counts_def)
  then have "r = Inr (tick_result_of jobs (no_counts\<lparr>tc_duplicates := int (length jobs)\<rparr>)) \<and> t'' = t' \<and> tk_producer st' = tk_producer st"
    using assms(4,6) by (auto simp: tick_run_once_def)
  with consumer_skips [OF refuses assms(2,3)] show ?thesis by blast
qed

text \<open>A server without memory, for the witness.\<close>

definition full_redis :: "(unit, nat) run_command" where
  "full_redis s now args = (Inr \<lparr>cp_returncode = 0, cp_stdout = ''OOM command not allowed'', cp_stderr = []\<rparr>, s)"

theorem redis_error_reply_loses_work_witness:
  "\<exists>v es rn' r t'' st'.
     run_messages (\<lambda>_. []) (\<lambda>_. []) (cli_store full_redis ''localhost'' 6379 ''kq'') 10
       [(0, v, \<lambda>ev n. (None, n + 1))] (runner_init () (0 :: int)) = (es, rn') \<and> es = [None] \<and> rn_handler rn' = 0 \<and>
     tick_run_once (\<lambda>_. []) (\<lambda>_. []) (cli_store full_redis ''localhost'' 6379 ''kq'') 10 (Some demo_publish) id (demo_pg 7 []) 5
       ([demo_row ''a'' 1 QUEUED 0 None], tick_state_init () []) = (Inr r, t'', st') \<and>
     tr_dispatched_job_ids r = [''a''] \<and> tr_published_count r = 0 \<and> tr_publish_errors r = [] \<and> tk_producer st' = []"
proof -
  let ?store = "cli_store full_redis ''localhost'' 6379 ''kq''"
  let ?h = "\<lambda>ev n. (None, n + 1) :: exc option \<times> int"
  let ?job = "row_to_record (dispatch_update (demo_pg 7 []) (demo_row ''a'' 1 QUEUED 0 None))"
  obtain v where v: "\<And>now handle. accept (\<lambda>_. []) (\<lambda>_. []) (now :: nat, v, handle :: int handler) =
    Some \<lparr>ac_now = now, ac_key = ''worker-result:a:0'', ac_event = demo_result ''succeeded'', ac_handle = handle\<rparr>"
    using demo_accept [of "''succeeded''"] by (auto simp: ALLOWED_STATUSES_def)
  have e: "answers_with_errors full_redis"
    by (simp add: answers_with_errors_def full_redis_def py_strip_def py_isspace_def)
  have d: "\<forall>job \<in> set [?job]. dispatchable job" by (simp add: dispatchable_def demo_row_def is_blank_iff py_isspace_def)
  obtain es rn' where m: "run_messages (\<lambda>_. []) (\<lambda>_. []) ?store 10 [(0, v, ?h)] (runner_init () 0) = (es, rn')" by fastforce
  obtain r t'' st' where t: "tick_run_once (\<lambda>_. []) (\<lambda>_. []) ?store 10 (Some demo_publish) id (demo_pg 7 []) 5
       ([demo_row ''a'' 1 QUEUED 0 None], tick_state_init () []) = (r, t'', st')" by (metis prod_cases3)
  have "list_all2 (\<lambda>m e. e = None \<longleftrightarrow> accept (\<lambda>_. []) (\<lambda>_. []) m \<noteq> None) [(0 :: nat, v, ?h)] es" "rn_handler rn' = 0"
    "r = Inr (tick_result_of [?job] (no_counts\<lparr>tc_duplicates := 1\<rparr>))" "tk_producer st' = []"
    using redis_error_reply_loses_work [OF e _ m demo_claim d t] by (simp_all add: runner_init_def tick_state_init_def)
  with m t show ?thesis
    by (auto simp: list_all2_Cons1 v tick_result_of_def no_counts_def demo_row_def)
qed

end
