(* ===== verification/Job_Lifecycle.thy ===== *)
theory Job_Lifecycle
  imports Control_Plane_Api Dispatch_Pipeline Result_Consumer
begin

text \<open>
  A job from the request that creates it to its success: the API, the scheduler tick, the worker's
  message through the result consumer and the handler, and the API again, one after the other on
  the same table.
\<close>

section \<open>The pieces\<close>

text \<open>A request whose key no other request has is granted.\<close>

lemma first_claims_unique:
  assumes "x \<in> set ds" "distinct ds" "\<forall>y \<in> set ds. key y = key x \<longrightarrow> y = x" "\<forall>(k, g) \<in> set granted. k \<noteq> key x"
  shows "x \<in> set (first_claims deadline ttl tm key granted ds)"
  using assms
proof (induction ds arbitrary: granted)
  case (Cons d ds)
  show ?case
  proof (cases "d = x")
    case True
    then have "\<not> held deadline granted (tm x) (key x)" using Cons.prems(4) by (auto simp: held_def)
    then show ?thesis using True by simp
  next
    case False
    then have "key d \<noteq> key x" using Cons.prems(3) by auto
    then show ?thesis
      using Cons.IH [of granted] Cons.IH [of "(key d, ttl, tm d) # granted"] Cons.prems False by auto
  qed
qed simp

lemma job_key_strip: "job_key j = job_key j' \<Longrightarrow> py_strip (jr_job_id j) = py_strip (jr_job_id j')"
  using job_segment_inject [of "py_strip (jr_job_id j)" "PyInt (jr_retry_count j)" "py_strip (jr_job_id j')" "PyInt (jr_retry_count j')"]
  by (simp add: job_key_def)

text \<open>A tick with an empty store hands every job to the producer whose stripped id is its own.\<close>

lemma tick_publishes:
  assumes "mono clock" "0 < ttl" "\<forall>j \<in> set jobs. dispatchable j" "job \<in> set jobs"
    and "\<forall>j \<in> set jobs. py_strip (jr_job_id j) = py_strip (jr_job_id job) \<longrightarrow> j = job" "distinct jobs"
  obtains c st published n where
    "publish_claimed frepr ext mem_try_claim ttl publish clock jobs no_counts (tick_state_init mem_init k) = (None, c, st)"
    "tk_producer st = publish_all publish published k" "(n, job) \<in> set published"
proof -
  let ?xs = "enumerate 0 jobs" and ?key = "\<lambda>(n :: nat, job). job_key job"
  obtain n where n: "n < length jobs" "jobs ! n = job" using assms(4) by (auto simp: in_set_conv_nth)
  then have x: "(n, job) \<in> set ?xs" by (auto simp: in_set_enumerate_eq)
  have u: "\<forall>y \<in> set ?xs. ?key y = ?key (n, job) \<longrightarrow> y = (n, job)"
  proof (intro ballI impI)
    fix y assume y: "y \<in> set ?xs" "?key y = ?key (n, job)"
    obtain m j where e: "y = (m, j)" by fastforce
    then have m: "m < length jobs" "jobs ! m = j" using y(1) by (simp_all add: in_set_enumerate_eq)
    then have "j = job" using y(2) e job_key_strip [of j job] assms(5) nth_mem [of m jobs] by auto
    then show "y = (n, job)" using e m n assms(6) by (auto simp: nth_eq_iff_index_eq)
  qed
  have "(n, job) \<in> set (first_dispatches float_add_int ttl clock [] ?xs)"
    by (rule first_claims_unique [OF x distinct_enumerate u]) simp
  then show thesis
    using mem.publish_claimed_ideal [OF assms(1,2,3), of "tick_state_init mem_init k" "[]" frepr ext publish no_counts] that
    by (auto simp: tick_state_init_def held_def Let_def)
qed

lemma api_finds:
  assumes "pg_documented p" "ids_distinct t" "pg_fault p = None" "r \<in> set t"
  shows "api_get_job None exc_str p (r_job_id r) t = Body (record_to_response (row_to_record r))"
proof -
  have "find (\<lambda>s. r_job_id s = r_job_id r) t = Some r"
  proof (cases "find (\<lambda>s. r_job_id s = r_job_id r) t")
    case None
    then show ?thesis using assms(4) by (auto simp: find_None_iff)
  next
    case (Some s)
    then show ?thesis using find_Some_mem [OF Some] ids_distinct_eq [OF assms(2) _ assms(4)] by metis
  qed
  then show ?thesis using get_job_find [OF assms(1-3)] by (simp add: api_get_job_def)
qed


text \<open>What the claim returns are the claimed rows after their update, each once.\<close>

lemma claimed_jobs:
  assumes "pg_documented p" "ids_distinct t" "claim_schedulable_jobs p limit t = (Inr jobs, t')"
  shows "distinct jobs" and "\<forall>j \<in> set jobs. \<exists>r \<in> set t. r_state r = state_value QUEUED \<and> j = row_to_record (dispatch_update p r)"
    and "ids_distinct t'"
proof -
  have "distinct (map r_job_id (claimed_rows p limit t))"
    unfolding claimed_rows_def by (rule select_distinct [OF assms(1,2)])
  then have "distinct (map jr_job_id (map (row_to_record \<circ> dispatch_update p) (claimed_rows p limit t)))"
    by (simp add: comp_def)
  then have "distinct (map (row_to_record \<circ> dispatch_update p) (claimed_rows p limit t))" unfolding distinct_map [of jr_job_id] by blast
  then show "distinct jobs" using mset_eq_imp_distinct_iff [OF claim_mset [OF assms]] by simp
  show "\<forall>j \<in> set jobs. \<exists>r \<in> set t. r_state r = state_value QUEUED \<and> j = row_to_record (dispatch_update p r)"
    unfolding claim_ids(3) [OF assms] claimed_rows_def
    using select_set [OF assms(1), of "schedulable p" dispatch_order limit t]
    by (auto simp: schedulable_def simp del: state_value.simps)
  show "ids_distinct t'"
    using assms(2) claim_ids(2) [OF assms] by (auto simp: ids_distinct_def update_where_def comp_def if_distrib cong: if_cong)
qed


text \<open>A tick over a table with a free queued row: it is dispatched and handed to the producer.\<close>

lemma tick_hands_over:
  assumes "pg_documented p" "pg_fault p = None" "ids_distinct t" "r \<in> set t" "schedulable p r" "length t \<le> nat limit"
    and "0 < ttl" "mono clock" "\<forall>s \<in> set t. r_state s = state_value QUEUED \<longrightarrow> dispatchable (row_to_record s)"
    and "\<forall>s \<in> set t. py_strip (r_job_id s) = py_strip (r_job_id r) \<longrightarrow> s = r"
    and "tick_run_once frepr ext mem_try_claim ttl (Some publish) clock p limit (t, tick_state_init mem_init k) = (tick, t', st)"
  obtains jobs cnt published n where "tick = Inr (tick_result_of jobs cnt)" "r_job_id r \<in> jr_job_id ` set jobs"
    "dispatch_update p r \<in> set t'" "ids_distinct t'" "tk_producer st = publish_all publish published k"
    "(n, row_to_record (dispatch_update p r)) \<in> set published"
proof -
  let ?job = "row_to_record (dispatch_update p r)"
  have "0 < limit" using assms(4,6) by (cases t) auto
  then obtain jobs t2 where
    c: "claim_schedulable_jobs p limit t = (Inr jobs, t2)" "r_job_id r \<in> jr_job_id ` set jobs" "dispatch_update p r \<in> set t2"
    using claim_takes [OF assms(1,3,2) _ assms(6,4,5)] by blast
  note cj = claimed_jobs [OF assms(1,3) c(1)]
  obtain s where "s \<in> set t" "row_to_record (dispatch_update p s) \<in> set jobs" "r_job_id s = r_job_id r"
    using c(2) cj(2) by fastforce
  then have job: "?job \<in> set jobs" using ids_distinct_eq [OF assms(3) _ assms(4)] by metis
  have disp: "\<forall>j \<in> set jobs. dispatchable j" using cj(2) assms(9) by (fastforce simp: dispatchable_def simp del: state_value.simps)
  have alone: "\<forall>j \<in> set jobs. py_strip (jr_job_id j) = py_strip (jr_job_id ?job) \<longrightarrow> j = ?job"
    using cj(2) assms(10) by fastforce
  obtain cnt st' published n where pub:
    "publish_claimed frepr ext mem_try_claim ttl publish clock jobs no_counts (tick_state_init mem_init k) = (None, cnt, st')"
    "tk_producer st' = publish_all publish published k" "(n, ?job) \<in> set published"
    by (rule tick_publishes [OF assms(8,7) disp job alone cj(1)])
  have "tick = Inr (tick_result_of jobs cnt)" "t' = t2" "st = st'"
    using assms(11) c(1) pub(1) by (simp_all add: tick_run_once_def)
  with c(2,3) cj(3) pub(2,3) show thesis using that by blast
qed

text \<open>The bytes of a success message, through a consumer with an empty store and the handler.\<close>

lemma success_applied:
  assumes "pg_documented p" "pg_fault p = None" "ids_distinct t" "r \<in> set t" "0 < ttl"
    and "validate_result ev = None" "we_job_id ev = r_job_id r" "we_status ev = ''succeeded''" "result_to_json frepr ev = Inr message"
    and "process_message frepr wide mem_try_claim ttl (Some (handle_result True p wall)) now (RawBytes message) (runner_init mem_init t) =
      (err, rn)"
  shows "err = None" "rn_processed rn = 1" "ids_distinct (rn_handler rn)"
    and "r\<lparr>r_state := state_value SUCCEEDED, r_updated_at := pg_now p\<rparr> \<in> set (rn_handler rn)"
proof -
  let ?t = "update_where (\<lambda>s. r_job_id s = r_job_id r) (\<lambda>s. s\<lparr>r_state := state_value SUCCEEDED, r_updated_at := pg_now p\<rparr>) t"
  have h: "handle_result True p wall ev t = (None, ?t)"
    using worker_update_eq [OF assms(1,3,2,4)] assms(7,8) by (simp add: handle_result_def map_result_status_to_job_state_def)
  obtain key where key: "worker_result_key (ArgStr (we_job_id ev)) (we_attempt ev) = Inr key"
    using valid_result_key assms(6) unfolding result_valid_def by blast
  have a: "accept frepr wide (now, RawBytes message, handle_result True p wall) =
      Some \<lparr>ac_now = now, ac_key = key, ac_event = ev, ac_handle = handle_result True p wall\<rparr>"
    using wire_roundtrip [OF assms(6), of frepr wide] assms(9) key by (auto simp: accept_def)
  obtain s where "mem_try_claim mem_init now key ttl = (Inr True, s)"
    using mem.claim_valid [OF accept_key_valid [OF a assms(5)], of mem_init now] by auto
  then have rn: "err = None \<and> rn_handler rn = ?t \<and> rn_processed rn = 1"
    using process_granted [OF a, of mem_try_claim "runner_init mem_init t" ttl s None ?t] h assms(10) by (auto simp: runner_init_def)
  then show "err = None" "rn_processed rn = 1" by simp_all
  show "ids_distinct (rn_handler rn)" "r\<lparr>r_state := state_value SUCCEEDED, r_updated_at := pg_now p\<rparr> \<in> set (rn_handler rn)"
    using rn assms(3,4) by (auto simp: ids_distinct_def update_where_def comp_def if_distrib cong: if_cong)
qed

section \<open>Properties\<close>

text \<open>
  C8: A job runs to completion. A valid request for a new id is answered with the new job; the
  next tick that has room for all rows and does not find the row locked dispatches it and hands
  the producer the request's tenant, priority and payload, whatever other well-formed jobs are
  queued (their ids differ from the new one also after stripping) and whether or not the producer
  fails for them; the bytes of the worker's success message are handled without an error and
  counted; and a final \<open>GET /jobs/{job_id}\<close> answers the body of the request's answer with the state
  \<open>succeeded\<close> and the times of the dispatch and of the update.
\<close>

theorem job_runs_to_completion:
  assumes "\<forall>p \<in> {p0, p1, p2, p3, p4}. pg_documented p \<and> pg_fault p = None"
    and "ids_distinct t" and "\<forall>r \<in> set t. py_strip (r_job_id r) \<noteq> py_strip job_id"
    and "\<forall>r \<in> set t. r_state r = state_value QUEUED \<longrightarrow> dispatchable (row_to_record r)"
    and "request_valid job_id body" and "\<not> is_blank (rq_tenant_id body)" and "in_int4 (rq_priority body)"
    and "in_int4 (case rq_max_retries body of Some n \<Rightarrow> n | None \<Rightarrow> 3)"
    and "job_id \<notin> set (pg_locked p2)" and "length t < nat limit" and "0 < ttl" and "mono clock"
    and "validate_result ev = None" and "we_job_id ev = job_id" and "we_status ev = ''succeeded''"
    and "enqueue_job None exc_str p0 (\<lambda>t. t) p1 job_id body (t, m) = (response, t1, m1)"
    and "tick_run_once frepr ext mem_try_claim ttl (Some publish) clock p2 limit (t1, tick_state_init mem_init k) = (tick, t2, st)"
    and "result_to_json frepr ev = Inr message"
    and "process_message frepr wide mem_try_claim ttl (Some (handle_result True p3 wall)) now (RawBytes message) (runner_init mem_init t2) =
      (err, rn)"
  shows "\<exists>b. response = Body b \<and>
     (\<exists>res published n job. tick = Inr res \<and> job_id \<in> set (tr_dispatched_job_ids res) \<and>
        tk_producer st = publish_all publish published k \<and> (n, job) \<in> set published \<and>
        event_of_job job = \<lparr>de_event_type = ''job.dispatch'', de_job_id = job_id, de_tenant_id = rq_tenant_id body,
          de_priority = rq_priority body, de_state = ''dispatched'', de_payload = re_payload b\<rparr>) \<and>
     err = None \<and> rn_processed rn = 1 \<and>
     api_get_job None exc_str p4 job_id (rn_handler rn) =
       Body (b\<lparr>re_state := ''succeeded'', re_updated_at := epoch_int (pg_now p3), re_dispatched_at := Some (epoch_int (pg_now p2))\<rparr>)"
proof -
  have p: "pg_documented p" "pg_fault p = None" if "p \<in> {p0, p1, p2, p3, p4}" for p using bspec [OF assms(1) that] by auto
  let ?r = "enqueued_row p1 job_id body"
  let ?r2 = "dispatch_update p2 ?r"
  let ?job = "row_to_record ?r2"
  have new: "job_id \<notin> r_job_id ` set t" using assms(3) by auto
  have t1: "response = Body (record_to_response (row_to_record ?r))" "t1 = t @ [?r]"
    using enqueue_eq [OF _ _ _ assms(2,5-8), of p0 p1 exc_str "\<lambda>t. t" m] p assms(16) new by auto
  have i: "r_job_id ?r = job_id" "r_state ?r = state_value QUEUED" "r_retry_count ?r = 0"
    "\<not> is_blank job_id" using assms(13,14) by (auto simp: enqueued_row_def result_valid_iff [symmetric] result_valid_def [symmetric] result_valid_iff)
  have d1: "ids_distinct t1" using assms(2) new i(1) by (simp add: ids_distinct_def t1(2))
  have sched: "schedulable p2 ?r" using assms(9) i by (simp add: schedulable_def unlocked_def del: state_value.simps)
  have rows: "\<forall>s \<in> set t1. r_state s = state_value QUEUED \<longrightarrow> dispatchable (row_to_record s)"
    "\<forall>s \<in> set t1. py_strip (r_job_id s) = py_strip (r_job_id ?r) \<longrightarrow> s = ?r"
    using assms(3,4) i by (auto simp: t1(2) dispatchable_def simp del: state_value.simps)
  have room: "?r \<in> set t1" "length t1 \<le> nat limit" using assms(10) by (simp_all add: t1(2))
  obtain jobs cnt published n where tick: "tick = Inr (tick_result_of jobs cnt)" "job_id \<in> jr_job_id ` set jobs"
    "?r2 \<in> set t2" "ids_distinct t2" "tk_producer st = publish_all publish published k" "(n, ?job) \<in> set published"
    using tick_hands_over [OF p(1) p(2) d1 room(1) sched room(2) assms(11,12) rows assms(17)] unfolding i(1) by blast
  have ev: "we_job_id ev = r_job_id ?r2" using assms(14) i(1) by simp
  note fin = success_applied [OF p(1) p(2) tick(4,3) assms(11,13) ev assms(15,18,19), simplified]
  let ?r3 = "?r2\<lparr>r_state := state_value SUCCEEDED, r_updated_at := pg_now p3\<rparr>"
  have get: "api_get_job None exc_str p4 job_id (rn_handler rn) = Body (record_to_response (row_to_record ?r3))"
    using api_finds [OF p(1) fin(3) p(2), of p4 ?r3 exc_str] fin(4) i(1) by simp
  let ?b = "record_to_response (row_to_record ?r)"
  have event: "event_of_job ?job = \<lparr>de_event_type = ''job.dispatch'', de_job_id = job_id, de_tenant_id = rq_tenant_id body,
      de_priority = rq_priority body, de_state = ''dispatched'', de_payload = re_payload ?b\<rparr>"
    by (simp add: event_of_job_def record_to_response_def enqueued_row_def dispatch_update_def row_to_record_def)
  have body: "record_to_response (row_to_record ?r3) =
      ?b\<lparr>re_state := ''succeeded'', re_updated_at := epoch_int (pg_now p3), re_dispatched_at := Some (epoch_int (pg_now p2))\<rparr>"
    by (simp add: record_to_response_def enqueued_row_def dispatch_update_def row_to_record_def)
  have "job_id \<in> set (tr_dispatched_job_ids (tick_result_of jobs cnt))" using tick(2) by (simp add: tick_result_of_def)
  with tick(1,5,6) event t1(1) fin(1,2) get [unfolded body] show ?thesis by blast
qed


theorem job_runs_to_completion_witness:
  "\<exists>message. let (response, t1, m1) = enqueue_job None (\<lambda>_. []) (demo_pg 1 []) (\<lambda>t. t) (demo_pg 2 []) ''a'' demo_request
         ([demo_row ''b'' 9 QUEUED 0 None], metrics_init);
       (tick, t2, st) = tick_run_once (\<lambda>_. []) (\<lambda>_. []) mem_try_claim 10 (Some demo_publish) demo_clock (demo_pg 7 []) 5
         (t1, tick_state_init mem_init []);
       (err, rn) = process_message (\<lambda>_. []) (\<lambda>_. []) mem_try_claim 10 (Some (handle_result True (demo_pg 8 []) 0)) 0
         (RawBytes message) (runner_init mem_init t2)
     in err = None \<and> (\<exists>b. api_get_job None (\<lambda>_. []) (demo_pg 9 []) ''a'' (rn_handler rn) = Body b \<and> re_state b = ''succeeded'')"
proof -
  let ?ev = "demo_result ''succeeded''" and ?t = "[demo_row ''b'' 9 QUEUED 0 None]"
  have v: "validate_result ?ev = None"
    by (simp add: validate_result_def demo_result_def WORKER_RESULT_EVENT_TYPE_def ALLOWED_STATUSES_def is_blank_iff py_isspace_def)
  obtain message where w: "result_to_json (\<lambda>_. []) ?ev = Inr message" using wire_roundtrip [OF v] by blast
  obtain response t1 m1 where e: "enqueue_job None (\<lambda>_. []) (demo_pg 1 []) (\<lambda>t. t) (demo_pg 2 []) ''a'' demo_request
      (?t, metrics_init) = (response, t1, m1)" by (metis prod_cases3)
  obtain tick t2 st where k: "tick_run_once (\<lambda>_. []) (\<lambda>_. []) mem_try_claim 10 (Some demo_publish) demo_clock (demo_pg 7 []) 5
      (t1, tick_state_init mem_init []) = (tick, t2, st)" by (metis prod_cases3)
  obtain err rn where q: "process_message (\<lambda>_. []) (\<lambda>_. []) mem_try_claim 10 (Some (handle_result True (demo_pg 8 []) 0)) 0
      (RawBytes message) (runner_init mem_init t2) = (err, rn)" by fastforce
  have h: "\<forall>p \<in> {demo_pg 1 [], demo_pg 2 [], demo_pg 7 [], demo_pg 8 [], demo_pg 9 []}. pg_documented p \<and> pg_fault p = None"
    by (simp add: demo_pg_documented)
  have t: "ids_distinct ?t" "\<forall>r \<in> set ?t. py_strip (r_job_id r) \<noteq> py_strip ''a''"
    "\<forall>r \<in> set ?t. r_state r = state_value QUEUED \<longrightarrow> dispatchable (row_to_record r)"
    by (simp_all add: ids_distinct_def demo_row_def dispatchable_def is_blank_iff py_isspace_def py_strip_def)
  have b: "request_valid ''a'' demo_request" "\<not> is_blank (rq_tenant_id demo_request)" "in_int4 (rq_priority demo_request)"
    "in_int4 (case rq_max_retries demo_request of Some n \<Rightarrow> n | None \<Rightarrow> 3)"
    by (simp_all add: request_valid_def demo_request_def is_blank_iff py_isspace_def in_int4_def)
  have c: "''a'' \<notin> set (pg_locked (demo_pg 7 []))" "mono demo_clock" "we_job_id ?ev = ''a''" "we_status ?ev = ''succeeded''"
    by (simp_all add: demo_pg_def mono_def demo_clock_def demo_result_def)
  show ?thesis
    using job_runs_to_completion [OF h t b c(1) _ _ c(2) v c(3,4) e k w q] e k q by (intro exI [of _ message]) auto
qed

end
