(* ===== verification/Retry_Budget.thy ===== *)
theory Retry_Budget
  imports Dispatch_Pipeline
begin

text \<open>
  A job that always fails: rounds of a worker's \<open>retryable_failure\<close> through the result handler, a
  retry scan and a scheduler tick, over the same table as any other jobs.
\<close>

section \<open>One row through a scan and a tick with room for every row\<close>

lemma update_where_row: "r \<in> set t \<Longrightarrow> (if P r then f r else r) \<in> set (update_where P f t)"
  by (auto simp: update_where_def)

lemma update_where_ids: "(\<And>r. r_job_id (f r) = r_job_id r) \<Longrightarrow> map r_job_id (update_where P f t) = map r_job_id t"
  by (auto simp: update_where_def)

lemma requeue_row:
  assumes "pg_documented p" "pg_fault p = None" "0 < limit" "length t \<le> nat limit" "ids_distinct t" "r \<in> set t"
  obtains ids t' where "requeue_due_retries p now limit t = (Inr ids, t')"
    "(if requeueable p now r then requeue_update p r else r) \<in> set t'" "map r_job_id t' = map r_job_id t"
proof -
  have due: "set (due_rows p now limit t) = {s \<in> set t. requeueable p now s}"
    unfolding due_rows_def by (rule select_all [OF assms(1,4)])
  then have i: "r_job_id r \<in> r_job_id ` set (due_rows p now limit t) \<longleftrightarrow> requeueable p now r"
    using ids_distinct_eq [OF assms(5) _ assms(6)] assms(6) by auto
  show thesis
    by (rule that [OF requeue_eq [OF assms(2,3)]], rule update_where_row [OF assms(6), of "\<lambda>r. r_job_id r \<in> r_job_id ` set (due_rows p now limit t)"
          "requeue_update p", unfolded i], rule update_where_ids, simp)
qed

lemma claim_row:
  assumes "pg_documented p" "pg_fault p = None" "0 < limit" "length t \<le> nat limit" "ids_distinct t" "r \<in> set t"
  obtains jobs t' where "claim_schedulable_jobs p limit t = (Inr jobs, t')"
    "(if schedulable p r then dispatch_update p r else r) \<in> set t'" "map r_job_id t' = map r_job_id t"
    "r_job_id r \<in> jr_job_id ` set jobs \<longleftrightarrow> schedulable p r"
proof -
  obtain jobs t' where c: "claim_schedulable_jobs p limit t = (Inr jobs, t')" using claim_eq [OF assms(2,3), of t] by blast
  have "set (claimed_rows p limit t) = {s \<in> set t. schedulable p s}"
    unfolding claimed_rows_def by (rule select_all [OF assms(1,4)])
  then have i: "r_job_id r \<in> jr_job_id ` set jobs \<longleftrightarrow> schedulable p r"
    unfolding claim_ids(1) [OF assms(1,5) c] using ids_distinct_eq [OF assms(5) _ assms(6)] assms(6) by auto
  show thesis
    by (rule that [OF c], unfold claim_ids(2) [OF assms(1,5) c], rule update_where_row [OF assms(6), of "\<lambda>r. r_job_id r \<in> jr_job_id ` set jobs"
          "dispatch_update p", unfolded i], rule update_where_ids, simp, rule i)
qed

section \<open>Rounds\<close>

record round =
  rd_handler :: pg
  rd_scanner :: pg
  rd_tick :: pg
  rd_event :: worker_result
  rd_wall :: py_float
  rd_scan_at :: int

text \<open>What makes a round a failure of job \<open>i\<close> that nothing disturbs.\<close>

definition round_ok :: "string \<Rightarrow> round \<Rightarrow> bool" where
  "round_ok i rd \<longleftrightarrow>
     (\<forall>p \<in> {rd_handler rd, rd_scanner rd, rd_tick rd}. pg_documented p \<and> pg_fault p = None) \<and>
     i \<notin> set (pg_locked (rd_scanner rd)) \<and> i \<notin> set (pg_locked (rd_tick rd)) \<and>
     we_status (rd_event rd) = ''retryable_failure'' \<and> we_job_id (rd_event rd) = i \<and>
     0 \<le> rd_wall rd \<and> in_int8 (\<lfloor>rd_wall rd\<rfloor> + 60) \<and> \<lfloor>rd_wall rd\<rfloor> + 60 \<le> rd_scan_at rd"

text \<open>The other arguments of a tick: its jobs go to \<open>job_producer\<close>, its keys to the store behind \<open>claim\<close>.\<close>

record ('s, 't, 'k) tick_env =
  te_frepr :: "py_float \<Rightarrow> string"
  te_ext :: "exc \<Rightarrow> string"
  te_claim :: "('s, 't) store_claim"
  te_ttl :: int
  te_producer :: "'k publisher option"
  te_clock :: "nat \<Rightarrow> 't"

definition fail_round ::
    "('s, 't, 'k) tick_env \<Rightarrow> int \<Rightarrow> round \<Rightarrow> jobs_table \<times> ('s, 'k) tick_state \<Rightarrow> tick_result result \<times> jobs_table \<times> ('s, 'k) tick_state" where
  "fail_round env m rd = (\<lambda>(t, st).
     (case handle_result True (rd_handler rd) (rd_wall rd) (rd_event rd) t of (e, t1) \<Rightarrow>
     (case scanner_run_once (te_ext env) True m (rd_scanner rd) (rd_wall rd) (Some (rd_scan_at rd)) t1 of (scan, t2) \<Rightarrow>
       tick_run_once (te_frepr env) (te_ext env) (te_claim env) (te_ttl env) (te_producer env) (te_clock env) (rd_tick rd) m (t2, st))))"

fun fail_rounds ::
    "('s, 't, 'k) tick_env \<Rightarrow> int \<Rightarrow> round list \<Rightarrow> jobs_table \<times> ('s, 'k) tick_state
     \<Rightarrow> tick_result result list \<times> jobs_table \<times> ('s, 'k) tick_state" where
  "fail_rounds env m [] s = ([], s)"
| "fail_rounds env m (rd # rds) s =
     (case fail_round env m rd s of (res, s1) \<Rightarrow> (case fail_rounds env m rds s1 of (ress, s2) \<Rightarrow> (res # ress, s2)))"

text \<open>The row after \<open>n\<close> failures, as a specification.\<close>

definition after_failures :: "nat \<Rightarrow> job_row \<Rightarrow> job_row \<Rightarrow> bool" where
  "after_failures n r r' \<longleftrightarrow>
     r_job_id r' = r_job_id r \<and> r_max_retries r' = r_max_retries r \<and>
     r_retry_count r' = min (r_retry_count r + int n) (r_max_retries r) \<and>
     r_state r' = (if n = 0 then r_state r
       else if int n \<le> r_max_retries r - r_retry_count r then state_value DISPATCHED else state_value DEAD_LETTERED)"

lemma fail_round_row:
  assumes "round_ok (r_job_id r) rd" "0 < m" "length t \<le> nat m" "ids_distinct t" "r \<in> set t"
    and "r_retry_count r \<le> r_max_retries r" "fail_round env m rd (t, st) = (res, t', st')"
  shows "\<exists>r' \<in> set t'. after_failures 1 r r' \<and> map r_job_id t' = map r_job_id t \<and>
    (\<forall>tr. res = Inr tr \<longrightarrow> (r_job_id r \<in> set (tr_dispatched_job_ids tr) \<longleftrightarrow> r_retry_count r < r_max_retries r))"
proof -
  let ?p1 = "rd_handler rd" and ?p2 = "rd_scanner rd" and ?p3 = "rd_tick rd" and ?w = "rd_wall rd"
  have doc: "pg_documented ?p1" "pg_documented ?p2" "pg_documented ?p3" "pg_fault ?p1 = None" "pg_fault ?p2 = None" "pg_fault ?p3 = None"
    and free: "r_job_id r \<notin> set (pg_locked ?p2)" "r_job_id r \<notin> set (pg_locked ?p3)"
    and ev: "we_status (rd_event rd) = ''retryable_failure''" "we_job_id (rd_event rd) = r_job_id r"
    and w: "0 \<le> ?w" "in_int8 (\<lfloor>?w\<rfloor> + 60)" "\<lfloor>?w\<rfloor> + 60 \<le> rd_scan_at rd"
    using assms(1) by (simp_all add: round_ok_def)
  obtain e t1 where h: "handle_result True ?p1 ?w (rd_event rd) t = (e, t1)" by fastforce
  obtain scan t2 where s: "scanner_run_once (te_ext env) True m ?p2 ?w (Some (rd_scan_at rd)) t1 = (scan, t2)" by fastforce
  have tick: "tick_run_once (te_frepr env) (te_ext env) (te_claim env) (te_ttl env) (te_producer env) (te_clock env) ?p3 m (t2, st) = (res, t', st')"
    using assms(7) h s by (simp add: fail_round_def)
  let ?r1 = "retry_update ?p1 (\<lfloor>?w\<rfloor> + 60) r"
  have t1: "?r1 \<in> set t1" "map r_job_id t1 = map r_job_id t"
    using handle_retryable [OF doc(1) assms(4) doc(4) w(1,2) ev(1) _ h] ev(2) assms(5) by auto
  have d1: "ids_distinct t1" "length t1 \<le> nat m"
    using t1(2) assms(3,4) map_eq_imp_length_eq [OF t1(2)] by (simp_all add: ids_distinct_def)
  let ?r2 = "if requeueable ?p2 (rd_scan_at rd) ?r1 then requeue_update ?p2 ?r1 else ?r1"
  obtain ids where t2: "requeue_due_retries ?p2 (rd_scan_at rd) m t1 = (Inr ids, t2)" "?r2 \<in> set t2" "map r_job_id t2 = map r_job_id t1"
    by (rule requeue_row [OF doc(2,5) assms(2) d1(2,1) t1(1), of "rd_scan_at rd"]) (use s in \<open>auto simp: scanner_run_once_def\<close>)
  have d2: "ids_distinct t2" "length t2 \<le> nat m"
    using t2(3) d1 map_eq_imp_length_eq [OF t2(3)] by (simp_all add: ids_distinct_def)
  let ?r3 = "if schedulable ?p3 ?r2 then dispatch_update ?p3 ?r2 else ?r2"
  obtain jobs where t3: "claim_schedulable_jobs ?p3 m t2 = (Inr jobs, t')" "?r3 \<in> set t'" "map r_job_id t' = map r_job_id t2"
      "r_job_id ?r2 \<in> jr_job_id ` set jobs \<longleftrightarrow> schedulable ?p3 ?r2"
    by (rule claim_row [OF doc(3,6) assms(2) d2(2,1) t2(2)]) (use tick in \<open>auto simp: tick_run_once_def split: option.splits prod.splits\<close>)
  have q: "requeueable ?p2 (rd_scan_at rd) ?r1 \<longleftrightarrow> r_retry_count r < r_max_retries r"
    using free w(3) by (simp add: requeueable_def retry_update_def)
  have c: "schedulable ?p3 ?r2 \<longleftrightarrow> r_retry_count r < r_max_retries r"
    unfolding q using free by (simp add: schedulable_def unlocked_def retry_update_def requeue_update_def)
  have i: "r_job_id ?r2 = r_job_id r" by (simp add: retry_update_def)
  have "after_failures 1 r ?r3"
    unfolding c unfolding q using assms(6) by (simp add: after_failures_def retry_update_def requeue_update_def dispatch_update_def)
  moreover have "r_job_id r \<in> set (tr_dispatched_job_ids tr) \<longleftrightarrow> r_retry_count r < r_max_retries r" if "res = Inr tr" for tr
  proof -
    have "\<exists>k. tr = tick_result_of jobs k"
      using tick t3(1) that by (auto simp: tick_run_once_def split: option.splits prod.splits)
    then show ?thesis using t3(4) unfolding i c by (auto simp: tick_result_of_def)
  qed
  ultimately show ?thesis using t3(2) t3(3) t2(3) t1(2) by auto
qed

lemma after_failures_step:
  assumes "after_failures 1 r s" "after_failures n s s'" "r_retry_count r \<le> r_max_retries r"
  shows "after_failures (Suc n) r s'"
  using assms by (auto simp: after_failures_def min_def split: if_splits)

lemma fail_rounds_row:
  assumes "\<forall>rd \<in> set rds. round_ok (r_job_id r) rd" "0 < m" "length t \<le> nat m" "ids_distinct t" "r \<in> set t"
    and "r_retry_count r \<le> r_max_retries r" "fail_rounds env m rds (t, st) = (ress, t', st')"
  shows "length ress = length rds \<and> (\<exists>r' \<in> set t'. after_failures (length rds) r r') \<and>
    (\<forall>k < length rds. \<forall>tr. ress ! k = Inr tr \<longrightarrow>
       (r_job_id r \<in> set (tr_dispatched_job_ids tr) \<longleftrightarrow> int k < r_max_retries r - r_retry_count r))"
  using assms
proof (induction rds arbitrary: r t st ress)
  case Nil
  then show ?case by (auto simp: after_failures_def min_def)
next
  case (Cons rd rds)
  obtain res t1 st1 where o: "fail_round env m rd (t, st) = (res, t1, st1)" by (metis prod_cases3)
  obtain ress1 where rest: "fail_rounds env m rds (t1, st1) = (ress1, t', st')" "ress = res # ress1"
    using Cons.prems(7) o by (auto split: prod.splits)
  obtain s where s: "s \<in> set t1" "after_failures 1 r s" "map r_job_id t1 = map r_job_id t"
    and res: "\<forall>tr. res = Inr tr \<longrightarrow> (r_job_id r \<in> set (tr_dispatched_job_ids tr) \<longleftrightarrow> r_retry_count r < r_max_retries r)"
    using fail_round_row [OF _ Cons.prems(2-6) o] Cons.prems(1) by auto
  have i: "r_job_id s = r_job_id r" "r_max_retries s = r_max_retries r" "r_retry_count s = min (r_retry_count r + 1) (r_max_retries r)"
    using s(2) by (simp_all add: after_failures_def)
  have t1: "length t1 \<le> nat m" "ids_distinct t1"
    using Cons.prems(3,4) map_eq_imp_length_eq [OF s(3)] s(3) by (simp_all add: ids_distinct_def)
  have IH: "length ress1 = length rds \<and> (\<exists>r' \<in> set t'. after_failures (length rds) s r') \<and>
    (\<forall>k < length rds. \<forall>tr. ress1 ! k = Inr tr \<longrightarrow>
       (r_job_id s \<in> set (tr_dispatched_job_ids tr) \<longleftrightarrow> int k < r_max_retries s - r_retry_count s))"
    by (rule Cons.IH [OF _ Cons.prems(2) t1 s(1) _ rest(1)]) (use Cons.prems(1) i in simp_all)
  have k: "int k < r_max_retries s - r_retry_count s \<longleftrightarrow> int (Suc k) < r_max_retries r - r_retry_count r" for k
    unfolding i(2,3) using Cons.prems(6) by linarith
  have "r_job_id r \<in> set (tr_dispatched_job_ids tr) \<longleftrightarrow> int k < r_max_retries r - r_retry_count r"
    if "k < length (rd # rds)" "ress ! k = Inr tr" for k tr
    using that res IH rest(2) unfolding i(1) k by (cases k) auto
  moreover have "\<exists>r' \<in> set t'. after_failures (length (rd # rds)) r r'"
    using IH after_failures_step [OF s(2) _ Cons.prems(6)] by auto
  ultimately show ?case using IH rest(2) by simp
qed

section \<open>Property\<close>

text \<open>
  C7: A job that fails every time is dispatched again exactly as often as its budget allows and is
  then dead-lettered for good. Over any number of rounds of a retryable failure, a retry scan at
  least sixty seconds later and a tick, with room for every row, the row's retry count is
  the number of failures, at most \<open>max_retries\<close>; while there is budget every round ends with the
  row \<open>dispatched\<close>, and the tick names the job; after that it stays \<open>dead_lettered\<close> and no tick names it,
  whatever the store, the producer and the other rows are.
\<close>

theorem failing_job_is_dead_lettered:
  assumes "\<forall>rd \<in> set rds. round_ok (r_job_id r) rd" and "0 < m" and "length t \<le> nat m" and "ids_distinct t" and "r \<in> set t"
    and "r_retry_count r \<le> r_max_retries r" and "rds \<noteq> []" and "fail_rounds env m rds (t, st) = (ress, t', st')"
  shows "(\<exists>r' \<in> set t'. r_job_id r' = r_job_id r \<and>
      r_retry_count r' = min (r_retry_count r + int (length rds)) (r_max_retries r) \<and>
      r_state r' = (if int (length rds) \<le> r_max_retries r - r_retry_count r then state_value DISPATCHED else state_value DEAD_LETTERED)) \<and>
    length ress = length rds \<and>
    (\<forall>k < length rds. \<forall>tr. ress ! k = Inr tr \<longrightarrow>
       (r_job_id r \<in> set (tr_dispatched_job_ids tr) \<longleftrightarrow> int k < r_max_retries r - r_retry_count r))"
  using fail_rounds_row [OF assms(1-6,8)] assms(7) by (auto simp: after_failures_def)

definition demo_round :: round where
  "demo_round = \<lparr>rd_handler = demo_pg 7 [], rd_scanner = demo_pg 7 [], rd_tick = demo_pg 7 [],
     rd_event = \<lparr>we_event_type = ''job.result'', we_job_id = ''a'', we_status = ''retryable_failure'', we_message = [],
       we_worker = ''w'', we_attempt = ArgInt (PyInt 0)\<rparr>, rd_wall = 100, rd_scan_at = 160\<rparr>"

definition demo_tick_env :: "(mem_store, py_float, string list) tick_env" where
  "demo_tick_env = \<lparr>te_frepr = (\<lambda>_. []), te_ext = (\<lambda>_. []), te_claim = mem_try_claim, te_ttl = 10,
     te_producer = Some demo_publish, te_clock = demo_clock\<rparr>"

theorem failing_job_is_dead_lettered_witness:
  "\<exists>ress t' st'. fail_rounds demo_tick_env 10 [demo_round, demo_round] ([demo_row ''a'' 1 RUNNING 2 None], tick_state_init mem_init []) = (ress, t', st') \<and>
     (\<exists>r' \<in> set t'. r_job_id r' = ''a'' \<and> r_retry_count r' = 3 \<and> r_state r' = ''dead_lettered'')"
proof -
  let ?r = "demo_row ''a'' 1 RUNNING 2 None"
  obtain ress t' st' where run: "fail_rounds demo_tick_env 10 [demo_round, demo_round] ([?r], tick_state_init mem_init []) = (ress, t', st')"
    by (metis prod_cases3)
  have r: "r_job_id ?r = ''a''" "r_retry_count ?r = 2" "r_max_retries ?r = 3" by (simp_all add: demo_row_def)
  have "pg_locked (demo_pg 7 []) = []" by (simp add: demo_pg_def)
  then have "round_ok ''a'' demo_round" by (simp add: round_ok_def demo_round_def demo_pg_documented in_int8_def)
  then show ?thesis
    using failing_job_is_dead_lettered [OF _ _ _ _ _ _ _ run, of ?r] run by (simp add: r ids_distinct_def)
qed

end
