(* ===== verification/Concurrent_Processes.thy ===== *)
theory Concurrent_Processes
  imports Dispatch_Pipeline Repository_Steps Result_Consumer Idempotency_Config
begin

text \<open>
  Any number of scheduler and consumer processes on one table and one idempotency store, with
  their calls cut where other processes can come in between. A scheduler's tick is one claim of
  rows and then, for every claimed job, taking the dispatch key and handing the event to the
  producer; a consumer's \<open>process_message\<close> is taking the result key and then the handler. Between
  any two of these, other processes may run, time may pass, any repository operation may change
  the table, and a process may end without a trace in the database or the store.
\<close>

section \<open>The calls in two phases\<close>

definition take_dispatch_key :: "('s, 't) store_claim \<Rightarrow> int \<Rightarrow> 't \<Rightarrow> job_record \<Rightarrow> 's \<Rightarrow> bool result \<times> 's" where
  "take_dispatch_key claim ttl now job s =
     (case dispatch_key (ArgStr (jr_job_id job)) (ArgInt (PyInt (jr_retry_count job))) of
        Inl e \<Rightarrow> (Inl e, s)
      | Inr dedupe_key \<Rightarrow> claim s now dedupe_key ttl)"

definition take_result_key ::
    "(py_float \<Rightarrow> string) \<Rightarrow> (nat \<Rightarrow> string) \<Rightarrow> ('s, 't) try_claim \<Rightarrow> int \<Rightarrow> 't \<Rightarrow> raw_data \<Rightarrow> 's
     \<Rightarrow> (worker_result \<times> bool) result \<times> 's" where
  "take_result_key frepr wide claim ttl now value s =
     (case parse_worker_result_event frepr wide value of
        Inl e \<Rightarrow> (Inl e, s)
      | Inr event \<Rightarrow>
          (case worker_result_key (ArgStr (we_job_id event)) (we_attempt event) of
             Inl e \<Rightarrow> (Inl e, s)
           | Inr dedupe_key \<Rightarrow> (case claim s now dedupe_key ttl of (r, s') \<Rightarrow> (map_sum id (\<lambda>b. (event, b)) r, s'))))"

section \<open>The processes\<close>

record ('s, 't, 'k) world_config =
  wc_frepr :: "py_float \<Rightarrow> string"
  wc_wide :: "nat \<Rightarrow> string"
  wc_claim :: "('s, 't) store_claim"
  wc_publish :: "'k publisher"
  wc_dispatch_ttl :: int
  wc_result_ttl :: int

text \<open>
  What a process has in hand: a scheduler the claimed jobs it has not come to and the job whose
  key it took, a consumer the event whose key it took. The number is that of the grant in the log
  \<open>wd_grants\<close> of all granted keys, which no part of the program reads.
\<close>

record scheduler_process =
  sp_pending :: "job_record list"
  sp_holding :: "(nat \<times> job_record) option"

record ('s, 't, 'k) world =
  wd_table :: jobs_table
  wd_store :: 's
  wd_now :: 't
  wd_producer :: 'k
  wd_schedulers :: "nat \<Rightarrow> scheduler_process"
  wd_consumers :: "nat \<Rightarrow> (nat \<times> worker_result) option"
  wd_grants :: "'t claim list"

definition idle :: scheduler_process where
  "idle = \<lparr>sp_pending = [], sp_holding = None\<rparr>"

definition world_init :: "jobs_table \<Rightarrow> 's \<Rightarrow> 't \<Rightarrow> 'k \<Rightarrow> ('s, 't, 'k) world" where
  "world_init t s now k =
     \<lparr>wd_table = t, wd_store = s, wd_now = now, wd_producer = k, wd_schedulers = (\<lambda>_. idle), wd_consumers = (\<lambda>_. None), wd_grants = []\<rparr>"

text \<open>
  An action names the phase, its process and what the process was given: the statement of the
  claim of rows, the job whose key is taken, the bytes of the message. \<open>Others\<close> is a repository
  operation of any other part of the program.
\<close>

datatype action =
    ClaimedRows nat pg int
  | TookDispatchKey nat job_record
  | Dispatched nat job_record
  | TookResultKey nat raw_data
  | Handled nat worker_result
  | Crashed
  | Others repo_op
  | Passed

definition log_grant :: "string \<Rightarrow> int \<Rightarrow> ('s, 't, 'k) world \<Rightarrow> ('s, 't, 'k) world" where
  "log_grant key ttl w = w\<lparr>wd_grants := wd_grants w @ [(key, ttl, wd_now w)]\<rparr>"

inductive world_step :: "('s, 't :: linorder, 'k) world_config \<Rightarrow> ('s, 't, 'k) world \<Rightarrow> action \<Rightarrow> ('s, 't, 'k) world \<Rightarrow> bool" for cfg where
  claim_rows: "wd_schedulers w i = idle \<Longrightarrow> claim_schedulable_jobs p limit (wd_table w) = (Inr jobs, t') \<Longrightarrow>
    world_step cfg w (ClaimedRows i p limit)
      (w\<lparr>wd_table := t', wd_schedulers := (wd_schedulers w)(i := \<lparr>sp_pending = jobs, sp_holding = None\<rparr>)\<rparr>)"
| dispatch_granted: "wd_schedulers w i = \<lparr>sp_pending = job # jobs, sp_holding = None\<rparr> \<Longrightarrow>
    take_dispatch_key (wc_claim cfg) (wc_dispatch_ttl cfg) (wd_now w) job (wd_store w) = (Inr True, s') \<Longrightarrow>
    world_step cfg w (TookDispatchKey i job)
      (log_grant (job_key job) (wc_dispatch_ttl cfg) (w\<lparr>wd_store := s', wd_schedulers := (wd_schedulers w)(i :=
         \<lparr>sp_pending = jobs, sp_holding = Some (length (wd_grants w), job)\<rparr>)\<rparr>))"
| dispatch_refused: "wd_schedulers w i = \<lparr>sp_pending = job # jobs, sp_holding = None\<rparr> \<Longrightarrow>
    take_dispatch_key (wc_claim cfg) (wc_dispatch_ttl cfg) (wd_now w) job (wd_store w) = (Inr False, s') \<Longrightarrow>
    world_step cfg w (TookDispatchKey i job)
      (w\<lparr>wd_store := s', wd_schedulers := (wd_schedulers w)(i := \<lparr>sp_pending = jobs, sp_holding = None\<rparr>)\<rparr>)"
| dispatch_raises: "wd_schedulers w i = \<lparr>sp_pending = job # jobs, sp_holding = None\<rparr> \<Longrightarrow>
    take_dispatch_key (wc_claim cfg) (wc_dispatch_ttl cfg) (wd_now w) job (wd_store w) = (Inl e, s') \<Longrightarrow>
    world_step cfg w (TookDispatchKey i job) (w\<lparr>wd_store := s', wd_schedulers := (wd_schedulers w)(i := idle)\<rparr>)"
| produce: "wd_schedulers w i = \<lparr>sp_pending = jobs, sp_holding = Some (n, job)\<rparr> \<Longrightarrow>
    world_step cfg w (Dispatched n job)
      (w\<lparr>wd_producer := snd (wc_publish cfg (wd_producer w) (event_of_job job)),
         wd_schedulers := (wd_schedulers w)(i := \<lparr>sp_pending = jobs, sp_holding = None\<rparr>)\<rparr>)"
| scheduler_crash: "world_step cfg w Crashed (w\<lparr>wd_schedulers := (wd_schedulers w)(i := idle)\<rparr>)"
| result_granted: "wd_consumers w j = None \<Longrightarrow>
    take_result_key (wc_frepr cfg) (wc_wide cfg) (wc_claim cfg) (wc_result_ttl cfg) (wd_now w) v (wd_store w) = (Inr (ev, True), s') \<Longrightarrow>
    world_step cfg w (TookResultKey j v)
      (log_grant (result_key ev) (wc_result_ttl cfg)
        (w\<lparr>wd_store := s', wd_consumers := (wd_consumers w)(j := Some (length (wd_grants w), ev))\<rparr>))"
| result_refused: "wd_consumers w j = None \<Longrightarrow>
    take_result_key (wc_frepr cfg) (wc_wide cfg) (wc_claim cfg) (wc_result_ttl cfg) (wd_now w) v (wd_store w) = (r, s') \<Longrightarrow>
    \<forall>ev. r \<noteq> Inr (ev, True) \<Longrightarrow> world_step cfg w (TookResultKey j v) (w\<lparr>wd_store := s'\<rparr>)"
| handle: "wd_consumers w j = Some (n, ev) \<Longrightarrow> handle_result True p wall ev (wd_table w) = (e, t') \<Longrightarrow>
    world_step cfg w (Handled n ev) (w\<lparr>wd_table := t', wd_consumers := (wd_consumers w)(j := None)\<rparr>)"
| consumer_crash: "world_step cfg w Crashed (w\<lparr>wd_consumers := (wd_consumers w)(j := None)\<rparr>)"
| others: "world_step cfg w (Others op) (w\<lparr>wd_table := repo_apply op (wd_table w)\<rparr>)"
| time: "wd_now w \<le> now \<Longrightarrow> world_step cfg w Passed (w\<lparr>wd_now := now\<rparr>)"

inductive world_run :: "('s, 't :: linorder, 'k) world_config \<Rightarrow> ('s, 't, 'k) world \<Rightarrow> action list \<Rightarrow> ('s, 't, 'k) world \<Rightarrow> bool" for cfg where
  stop: "world_run cfg w [] w"
| go: "world_run cfg w as w1 \<Longrightarrow> world_step cfg w1 a w2 \<Longrightarrow> world_run cfg w (as @ [a]) w2"


section \<open>Grants, hands and work\<close>

text \<open>A piece of work is the number of its grant, its key and the time-to-live it was taken with.\<close>

type_synonym ticket = "nat \<times> string \<times> int"

definition dispatch_ticket :: "('s, 't, 'k) world_config \<Rightarrow> nat \<times> job_record \<Rightarrow> ticket" where
  "dispatch_ticket cfg = (\<lambda>(n, job). (n, job_key job, wc_dispatch_ttl cfg))"

definition result_ticket :: "('s, 't, 'k) world_config \<Rightarrow> nat \<times> worker_result \<Rightarrow> ticket" where
  "result_ticket cfg = (\<lambda>(n, ev). (n, result_key ev, wc_result_ttl cfg))"

definition in_hand ::
    "('s, 't, 'k) world_config \<Rightarrow> (nat \<Rightarrow> scheduler_process) \<Rightarrow> (nat \<Rightarrow> (nat \<times> worker_result) option) \<Rightarrow> nat + nat \<Rightarrow> ticket option" where
  "in_hand cfg schedulers consumers h =
     (case h of
        Inl i \<Rightarrow> map_option (dispatch_ticket cfg) (sp_holding (schedulers i))
      | Inr j \<Rightarrow> map_option (result_ticket cfg) (consumers j))"

fun ticket_of :: "('s, 't, 'k) world_config \<Rightarrow> action \<Rightarrow> ticket option" where
  "ticket_of cfg (Dispatched n job) = Some (dispatch_ticket cfg (n, job))"
| "ticket_of cfg (Handled n ev) = Some (result_ticket cfg (n, ev))"
| "ticket_of cfg _ = None"

definition work_done :: "('s, 't, 'k) world_config \<Rightarrow> action list \<Rightarrow> ticket list" where
  "work_done cfg as = List.map_filter (ticket_of cfg) as"

lemma work_done_snoc [simp]:
  "work_done cfg [] = []"
  "work_done cfg (as @ [a]) = work_done cfg as @ (case ticket_of cfg a of None \<Rightarrow> [] | Some x \<Rightarrow> [x])"
  by (auto simp: work_done_def List.map_filter_def split: option.split)

text \<open>Every grant belongs to at most one hand or piece of work and, when nothing crashed, to exactly one.\<close>

definition granted_as :: "'t claim list \<Rightarrow> ticket \<Rightarrow> bool" where
  "granted_as grants x \<longleftrightarrow> fst x < length grants \<and> (\<exists>now. grants ! fst x = (fst (snd x), snd (snd x), now))"

definition one_hand :: "('h \<Rightarrow> ticket option) \<Rightarrow> bool" where
  "one_hand hand \<longleftrightarrow> (\<forall>h h' x y. hand h = Some x \<longrightarrow> hand h' = Some y \<longrightarrow> fst x = fst y \<longrightarrow> h = h')"

definition ledger_ok :: "'t claim list \<Rightarrow> ('h \<Rightarrow> ticket option) \<Rightarrow> ticket list \<Rightarrow> bool \<Rightarrow> bool" where
  "ledger_ok grants hand work lossless \<longleftrightarrow>
     (\<forall>x \<in> set work \<union> ran hand. granted_as grants x) \<and> distinct (map fst work) \<and>
     one_hand hand \<and>
     (\<forall>x \<in> set work. \<forall>y \<in> ran hand. fst x \<noteq> fst y) \<and>
     (lossless \<longrightarrow> {..<length grants} \<subseteq> fst ` (set work \<union> ran hand))"

lemma granted_as_snoc: "granted_as grants x \<Longrightarrow> granted_as (grants @ gs) x"
  by (auto simp: granted_as_def nth_append)

lemma granted_as_new: "granted_as (grants @ [(key, ttl, now)]) (length grants, key, ttl)"
  by (simp add: granted_as_def)

lemma in_ran_unset: "y \<in> ran (hand(h := None)) \<longleftrightarrow> (\<exists>h'. h' \<noteq> h \<and> hand h' = Some y)"
  by (auto simp: ran_def)

lemma one_hand_unset: "one_hand hand \<Longrightarrow> one_hand (hand(h := None))"
  unfolding one_hand_def by (metis fun_upd_apply option.distinct(1))

lemma one_hand_set:
  assumes "one_hand hand" "\<forall>y \<in> ran hand. fst y \<noteq> fst x"
  shows "one_hand (hand(h \<mapsto> x))"
  using assms unfolding one_hand_def by (metis fun_upd_apply option.inject ranI)

lemma ledgerD:
  assumes "ledger_ok grants hand work lossless"
  shows "x \<in> set work \<union> ran hand \<Longrightarrow> granted_as grants x" and "distinct (map fst work)" and "one_hand hand"
    and "x \<in> set work \<Longrightarrow> y \<in> ran hand \<Longrightarrow> fst x \<noteq> fst y"
    and "lossless \<Longrightarrow> {..<length grants} \<subseteq> fst ` (set work \<union> ran hand)"
  using assms unfolding ledger_ok_def by blast+

lemma ledgerI:
  assumes "\<And>x. x \<in> set work \<union> ran hand \<Longrightarrow> granted_as grants x" "distinct (map fst work)" "one_hand hand"
    and "\<And>x y. x \<in> set work \<Longrightarrow> y \<in> ran hand \<Longrightarrow> fst x \<noteq> fst y"
    and "lossless \<Longrightarrow> {..<length grants} \<subseteq> fst ` (set work \<union> ran hand)"
  shows "ledger_ok grants hand work lossless"
  using assms unfolding ledger_ok_def by simp

lemma ledger_grant:
  assumes "ledger_ok grants hand work lossless" "hand h = None"
  shows "ledger_ok (grants @ [(key, ttl, now)]) (hand(h \<mapsto> (length grants, key, ttl))) work lossless"
proof (rule ledgerI)
  let ?x = "(length grants, key, ttl)"
  note ok = ledgerD [OF assms(1)]
  have r: "ran (hand(h \<mapsto> ?x)) = insert ?x (ran hand)" using assms(2) by (rule ran_map_upd)
  have new: "fst x \<noteq> length grants" if "x \<in> set work \<union> ran hand" for x
    using ok(1) [OF that] by (simp add: granted_as_def)
  show "granted_as (grants @ [(key, ttl, now)]) x" if "x \<in> set work \<union> ran (hand(h \<mapsto> ?x))" for x
    using that ok(1) [of x] granted_as_snoc [of grants x] granted_as_new [of grants key ttl now] unfolding r by blast
  show "one_hand (hand(h \<mapsto> ?x))" using ok(3) new by (intro one_hand_set) auto
  show "fst x \<noteq> fst y" if "x \<in> set work" "y \<in> ran (hand(h \<mapsto> ?x))" for x y
    using that ok(4) [of x y] new [of x] unfolding r by auto
  show "{..<length (grants @ [(key, ttl, now)])} \<subseteq> fst ` (set work \<union> ran (hand(h \<mapsto> ?x)))" if lossless
    unfolding r using ok(5) [OF that] by (auto simp: lessThan_Suc)
qed (rule ledgerD(2) [OF assms(1)])

lemma ledger_work:
  assumes "ledger_ok grants hand work lossless" "hand h = Some x"
  shows "ledger_ok grants (hand(h := None)) (work @ [x]) lossless"
proof (rule ledgerI)
  note ok = ledgerD [OF assms(1)]
  have x: "x \<in> ran hand" using assms(2) by (rule ranI)
  have r: "y \<in> ran hand" if "y \<in> ran (hand(h := None))" for y using that by (auto simp: in_ran_unset intro: ranI)
  show "granted_as grants y" if "y \<in> set (work @ [x]) \<union> ran (hand(h := None))" for y
    using that ok(1) [of y] x r [of y] by auto
  show "distinct (map fst (work @ [x]))" using ok(2) ok(4) [OF _ x] by fastforce
  show "one_hand (hand(h := None))" by (rule one_hand_unset [OF ok(3)])
  show "fst y \<noteq> fst z" if y: "y \<in> set (work @ [x])" and z: "z \<in> ran (hand(h := None))" for y z
  proof (cases "y = x")
    case True
    obtain h' where "h' \<noteq> h" "hand h' = Some z" using z unfolding in_ran_unset by blast
    then show ?thesis using True ok(3) assms(2) unfolding one_hand_def by metis
  qed (use y ok(4) [OF _ r [OF z]] in auto)
  show "{..<length grants} \<subseteq> fst ` (set (work @ [x]) \<union> ran (hand(h := None)))" if lossless
  proof -
    have "y \<in> set (work @ [x]) \<union> ran (hand(h := None))" if "y \<in> set work \<union> ran hand" for y
    proof (cases "y \<in> ran hand")
      case True
      then obtain h' where "hand h' = Some y" by (auto simp: ran_def)
      then show ?thesis using assms(2) by (cases "h' = h") (auto simp: in_ran_unset)
    qed (use that in simp)
    then show ?thesis using ok(5) [OF that] by blast
  qed
qed

lemma ledger_drop:
  assumes "ledger_ok grants hand work lossless"
  shows "ledger_ok grants (hand(h := None)) work False"
proof (rule ledgerI)
  note ok = ledgerD [OF assms]
  have r: "y \<in> ran hand" if "y \<in> ran (hand(h := None))" for y using that by (auto simp: in_ran_unset intro: ranI)
  show "granted_as grants x" if "x \<in> set work \<union> ran (hand(h := None))" for x using that ok(1) [of x] r [of x] by auto
  show "fst x \<noteq> fst y" if "x \<in> set work" "y \<in> ran (hand(h := None))" for x y by (rule ok(4) [OF that(1) r [OF that(2)]])
qed (use ledgerD(2,3) [OF assms] one_hand_unset in auto)

lemma ledger_kept:
  assumes "ledger_ok grants hand work lossless" lossless "n < length grants"
  shows "(\<exists>x \<in> set work. fst x = n) \<or> (\<exists>!h. \<exists>x. hand h = Some x \<and> fst x = n)"
proof -
  have "n \<in> fst ` (set work \<union> ran hand)" using ledgerD(5) [OF assms(1,2)] assms(3) by blast
  then consider x where "x \<in> set work" "fst x = n" | h x where "hand h = Some x" "fst x = n" by (auto simp: ran_def)
  then show ?thesis
  proof cases
    case (2 h x)
    then have "h' = h" if "hand h' = Some y" "fst y = n" for h' y
      using ledgerD(3) [OF assms(1)] that unfolding one_hand_def by metis
    then show ?thesis using 2 by blast
  qed blast
qed

text \<open>The hands after a step.\<close>

lemma in_hand_simps [simp]:
  "in_hand cfg (f(i := q)) c = (in_hand cfg f c)(Inl i := map_option (dispatch_ticket cfg) (sp_holding q))"
  "in_hand cfg f (c(j := x)) = (in_hand cfg f c)(Inr j := map_option (result_ticket cfg) x)"
  "in_hand cfg f c (Inl i) = map_option (dispatch_ticket cfg) (sp_holding (f i))"
  "in_hand cfg f c (Inr j) = map_option (result_ticket cfg) (c j)"
  by (auto simp: in_hand_def fun_eq_iff split: sum.split)

section \<open>What every run keeps\<close>

definition store_agrees :: "('s \<Rightarrow> 't :: linorder \<Rightarrow> string \<Rightarrow> bool) \<Rightarrow> ('t \<Rightarrow> int \<Rightarrow> 't) \<Rightarrow> 's \<Rightarrow> 't \<Rightarrow> 't claim list \<Rightarrow> bool" where
  "store_agrees live deadline s now grants \<longleftrightarrow>
     (\<forall>t k. now \<le> t \<longrightarrow> live s t k = held deadline grants t k) \<and>
     sorted_wrt (\<lambda>(k, ttl, t) (k', ttl', t'). k = k' \<longrightarrow> deadline t ttl \<le> t') grants"

fun dispatch_of :: "action \<Rightarrow> (nat \<times> job_record) option" where
  "dispatch_of (Dispatched n job) = Some (n, job)"
| "dispatch_of _ = None"

definition dispatches :: "action list \<Rightarrow> (nat \<times> job_record) list" where
  "dispatches as = List.map_filter dispatch_of as"

lemma dispatches_snoc [simp]:
  "dispatches [] = []"
  "dispatches (as @ [a]) = dispatches as @ (case dispatch_of a of None \<Rightarrow> [] | Some d \<Rightarrow> [d])"
  by (auto simp: dispatches_def List.map_filter_def split: option.split)

definition world_inv ::
    "('s, 't :: linorder, 'k) world_config \<Rightarrow> ('s \<Rightarrow> 't \<Rightarrow> string \<Rightarrow> bool) \<Rightarrow> ('t \<Rightarrow> int \<Rightarrow> 't) \<Rightarrow> 'k \<Rightarrow> action list \<Rightarrow> ('s, 't, 'k) world \<Rightarrow> bool" where
  "world_inv cfg live deadline k as w \<longleftrightarrow>
     store_agrees live deadline (wd_store w) (wd_now w) (wd_grants w) \<and>
     ledger_ok (wd_grants w) (in_hand cfg (wd_schedulers w) (wd_consumers w)) (work_done cfg as) (Crashed \<notin> set as) \<and>
     wd_producer w = publish_all (wc_publish cfg) (dispatches as) k"

lemma take_dispatch_key_Inr:
  assumes "take_dispatch_key claim ttl now job s = (Inr b, s')"
  shows "claim s now (job_key job) ttl = (Inr b, s')"
proof (cases "dispatch_key (ArgStr (jr_job_id job)) (ArgInt (PyInt (jr_retry_count job)))")
  case (Inr key)
  then have "key = job_key job" using dispatch_key_job by blast
  then show ?thesis using Inr assms by (simp add: take_dispatch_key_def)
qed (use assms in \<open>simp add: take_dispatch_key_def\<close>)

lemma take_result_key_Inr:
  assumes "take_result_key frepr wide claim ttl now v s = (Inr (ev, b), s')"
  shows "claim s now (result_key ev) ttl = (Inr b, s')"
proof (cases "parse_worker_result_event frepr wide v")
  case (Inr event)
  show ?thesis
  proof (cases "worker_result_key (ArgStr (we_job_id event)) (we_attempt event)")
    case key: (Inr key)
    obtain r s1 where c: "claim s now key ttl = (r, s1)" by fastforce
    then show ?thesis using assms Inr key by (cases r) (auto simp: take_result_key_def result_key_def)
  qed (use assms Inr in \<open>simp add: take_result_key_def\<close>)
qed (use assms in \<open>simp add: take_result_key_def\<close>)

context idempotency_store
begin

text \<open>What a claim's answer means for the log; an answer that is no grant changes nothing that is held.\<close>

lemma claim_agrees:
  assumes "store_agrees live deadline s now grants" "claim s now key ttl = (r, s')"
  shows "store_agrees live deadline s' now (if r = Inr True then grants @ [(key, ttl, now)] else grants)"
proof -
  have l: "live s t k = held deadline grants t k" if "now \<le> t" for t k
    using assms(1) that by (simp add: store_agrees_def)
  have apart: "sorted_wrt (\<lambda>(k, ttl, t) (k', ttl', t'). k = k' \<longrightarrow> deadline t ttl \<le> t') grants"
    using assms(1) by (simp add: store_agrees_def)
  have step: "live s' t k \<longleftrightarrow> live s t k \<or> key = k \<and> r = Inr True \<and> t < deadline now ttl" if "now \<le> t" for t k
    by (rule claim_step [OF assms(2) that])
  show ?thesis
  proof (cases "r = Inr True")
    case True
    have "r = (case validate_claim_inputs key ttl of Some e \<Rightarrow> Inl e | None \<Rightarrow> Inr (\<not> live s now key))"
      using claim_result [of s now key ttl] assms(2) by simp
    then have "\<not> held deadline grants now key" using True l [OF order_refl] by (auto split: option.splits)
    then show ?thesis
      using True apart step l by (fastforce simp: store_agrees_def held_def sorted_wrt_append not_less)
  qed (use apart step l in \<open>simp add: store_agrees_def\<close>)
qed

lemma dispatch_agrees:
  assumes "store_agrees live deadline s now grants" "take_dispatch_key claim ttl now job s = (r, s')"
  shows "store_agrees live deadline s' now (if r = Inr True then grants @ [(job_key job, ttl, now)] else grants)"
proof (cases "dispatch_key (ArgStr (jr_job_id job)) (ArgInt (PyInt (jr_retry_count job)))")
  case (Inl e)
  then show ?thesis using assms by (auto simp: take_dispatch_key_def)
next
  case (Inr key)
  then have "key = job_key job" using dispatch_key_job by blast
  then show ?thesis using claim_agrees [OF assms(1)] assms(2) Inr by (simp add: take_dispatch_key_def)
qed

lemma result_agrees:
  assumes "store_agrees live deadline s now grants" "take_result_key frepr wide claim ttl now v s = (r, s')"
    and "\<forall>ev. r \<noteq> Inr (ev, True)"
  shows "store_agrees live deadline s' now grants"
proof -
  have "s' = s \<or> (\<exists>key r1. claim s now key ttl = (r1, s') \<and> r1 \<noteq> Inr True)"
    using assms(2,3) unfolding take_result_key_def by (fastforce split: sum.splits prod.splits)
  then show ?thesis using claim_agrees [OF assms(1)] assms(1) by fastforce
qed

lemma world_step_inv:
  assumes "wc_claim cfg = claim" "world_step cfg w a w'" "world_inv cfg live deadline k as w"
  shows "world_inv cfg live deadline k (as @ [a]) w'"
proof -
  have agrees: "store_agrees live deadline (wd_store w) (wd_now w) (wd_grants w)"
    and ledger: "ledger_ok (wd_grants w) (in_hand cfg (wd_schedulers w) (wd_consumers w)) (work_done cfg as) (Crashed \<notin> set as)"
    and out: "wd_producer w = publish_all (wc_publish cfg) (dispatches as) k"
    using assms(3) by (simp_all add: world_inv_def)
  from assms(2) show ?thesis
  proof (cases rule: world_step.cases)
    case (dispatch_granted i job jobs s')
    then show ?thesis
      using dispatch_agrees [OF agrees, of "wc_dispatch_ttl cfg" job "Inr True" s'] ledger_grant [OF ledger, of "Inl i"] assms(1) out
      by (simp add: world_inv_def log_grant_def dispatch_ticket_def)
  next
    case (result_granted j v ev s')
    then show ?thesis
      using claim_agrees [OF agrees] take_result_key_Inr ledger_grant [OF ledger, of "Inr j"] assms(1) out
      by (fastforce simp: world_inv_def log_grant_def result_ticket_def)
  next
    case (dispatch_refused i job jobs s')
    then show ?thesis
      using dispatch_agrees [OF agrees] ledger assms(1) out by (fastforce simp: world_inv_def fun_upd_idem)
  next
    case (dispatch_raises i job jobs e s')
    then show ?thesis
      using dispatch_agrees [OF agrees] ledger assms(1) out by (fastforce simp: world_inv_def fun_upd_idem idle_def)
  next
    case (produce i jobs n job)
    then show ?thesis
      using agrees ledger_work [OF ledger, of "Inl i"] out by (simp add: world_inv_def)
  next
    case (handle j n ev p wall e t')
    then show ?thesis
      using agrees ledger_work [OF ledger, of "Inr j"] out by (simp add: world_inv_def)
  next
    case (scheduler_crash i)
    then show ?thesis
      using agrees ledger_drop [OF ledger, of "Inl i"] out by (simp add: world_inv_def idle_def)
  next
    case (consumer_crash j)
    then show ?thesis
      using agrees ledger_drop [OF ledger, of "Inr j"] out by (simp add: world_inv_def)
  next
    case (result_refused j v r s')
    then show ?thesis
      using result_agrees [OF agrees] ledger assms(1) out by (fastforce simp: world_inv_def)
  next
    case (claim_rows i p limit jobs t')
    then show ?thesis using agrees ledger out by (simp add: world_inv_def fun_upd_idem idle_def)
  next
    case (time now)
    then show ?thesis using agrees ledger out by (auto simp: world_inv_def store_agrees_def)
  qed (use agrees ledger out in \<open>simp add: world_inv_def\<close>)
qed

end


text \<open>In every reachable world.\<close>

lemma world_run_inv:
  assumes "idempotency_store (wc_claim cfg) live deadline" "world_run cfg w0 as w" "w0 = world_init t s now k" "\<forall>t k. \<not> live s t k"
  shows "world_inv cfg live deadline k as w"
  using assms(2,3)
proof (induction rule: world_run.induct)
  case (stop w)
  have "in_hand cfg (\<lambda>_. idle) (\<lambda>_. None) = (\<lambda>_. None)" by (auto simp: in_hand_def idle_def fun_eq_iff split: sum.split)
  then show ?case
    using stop assms(4) by (simp add: world_inv_def world_init_def store_agrees_def held_def ledger_ok_def one_hand_def publish_all_def)
next
  case (go w as w1 a w2)
  then show ?case using idempotency_store.world_step_inv [OF assms(1) refl] by blast
qed

section \<open>The calls are runs of their phases\<close>

lemma world_run_append:
  assumes "world_run cfg w1 bs w2" "world_run cfg w as w1"
  shows "world_run cfg w (as @ bs) w2"
  using assms
proof (induction rule: world_run.induct)
  case (go w1 bs w2 b w3)
  then show ?case using world_run.go [of cfg w "as @ bs"] by simp
qed simp

lemma world_run_Cons: "world_step cfg w a w1 \<Longrightarrow> world_run cfg w1 bs w2 \<Longrightarrow> world_run cfg w (a # bs) w2"
  using world_run_append [of cfg w1 bs w2 w "[a]"] world_run.go [OF world_run.stop, of cfg w a w1] by simp

text \<open>
  The calls in a run: all its actions but the passing of time and the work that a granted key
  leads to, for which \<open>handled_in\<close> and \<open>dispatches\<close> are read off separately. In particular crashes and
  operations of others count as calls.
\<close>

fun is_call :: "action \<Rightarrow> bool" where
  "is_call Passed = False"
| "is_call (Dispatched n job) = False"
| "is_call (Handled n ev) = False"
| "is_call _ = True"

definition calls_in :: "action list \<Rightarrow> action list" where
  "calls_in as = filter is_call as"

fun handled_of :: "action \<Rightarrow> worker_result option" where
  "handled_of (Handled n ev) = Some ev"
| "handled_of _ = None"

definition handled_in :: "action list \<Rightarrow> worker_result list" where
  "handled_in as = List.map_filter handled_of as"

lemma calls_in_simps [simp]:
  "calls_in [] = []" "calls_in (a # as) = (if is_call a then a # calls_in as else calls_in as)"
  "calls_in (as @ bs) = calls_in as @ calls_in bs"
  by (simp_all add: calls_in_def)

lemma handled_in_simps [simp]:
  "handled_in [] = []" "handled_in (a # as) = (case handled_of a of None \<Rightarrow> handled_in as | Some ev \<Rightarrow> ev # handled_in as)"
  "handled_in (as @ bs) = handled_in as @ handled_in bs"
  by (auto simp: handled_in_def List.map_filter_def split: option.split)

lemma dispatches_Cons [simp]:
  "dispatches (a # as) = (case dispatch_of a of None \<Rightarrow> dispatches as | Some d \<Rightarrow> d # dispatches as)"
  by (simp add: dispatches_def List.map_filter_def split: option.split)

lemma publish_one_reads:
  "publish_one frepr ext claim ttl publish clock job c st = (e, c', st') \<Longrightarrow> tk_reads st \<le> tk_reads st'"
  by (auto simp: publish_one_def Let_def split: sum.splits prod.splits option.splits bool.splits)

text \<open>One job of the loop, at a later time: some steps that lead to the rest of the loop or, when the call raises, to its end.\<close>

definition served ::
    "('s, 't :: linorder, 'k) world_config \<Rightarrow> nat \<Rightarrow> job_record \<Rightarrow> job_record list \<Rightarrow> ('s, 't, 'k) world \<Rightarrow> ('s, 'k) tick_state \<Rightarrow> bool" where
  "served cfg i job jobs w st \<longleftrightarrow> (\<exists>as w'. world_run cfg w as w' \<and> calls_in as = [TookDispatchKey i job] \<and> handled_in as = [] \<and>
     wd_table w' = wd_table w \<and> wd_consumers w' = wd_consumers w \<and> wd_now w' = wd_now w \<and>
     wd_store w' = tk_store st \<and> wd_producer w' = tk_producer st \<and>
     wd_schedulers w' = (wd_schedulers w)(i := \<lparr>sp_pending = jobs, sp_holding = None\<rparr>))"

lemma publish_one_steps:
  assumes "wd_schedulers w i = \<lparr>sp_pending = job # jobs, sp_holding = None\<rparr>" "wd_now w = clock (tk_reads st)"
    and "wd_store w = tk_store st" "wd_producer w = tk_producer st"
    and "publish_one frepr ext (wc_claim cfg) (wc_dispatch_ttl cfg) (wc_publish cfg) clock job c st = (e, c', st')"
  shows "served cfg i job (if e = None then jobs else []) w st'"
proof -
  obtain r s' where t: "take_dispatch_key (wc_claim cfg) (wc_dispatch_ttl cfg) (wd_now w) job (wd_store w) = (r, s')" by fastforce
  consider (raises) x where "r = Inl x" | (refused) "r = Inr False" | (granted) "r = Inr True" by (cases r) auto
  then show ?thesis
  proof cases
    case raises
    then have "e \<noteq> None" "tk_store st' = s'" "tk_producer st' = tk_producer st"
      using assms t by (auto simp: publish_one_def take_dispatch_key_def split: sum.splits)
    then show ?thesis
      unfolding served_def using world_run_Cons [OF world_step.dispatch_raises [OF assms(1) t [unfolded raises]] world_run.stop] assms
      by (fastforce simp: idle_def)
  next
    case refused
    obtain line where "format_log_event frepr ''duplicate_dispatch''
        [(''attempt'', JInt (jr_retry_count job)), (''job_id'', JStr (jr_job_id job))] = Inr line" using dispatch_line by blast
    then have "e = None" "tk_store st' = s'" "tk_producer st' = tk_producer st"
      using assms t refused by (auto simp: publish_one_def take_dispatch_key_def Let_def split: sum.splits)
    then show ?thesis
      unfolding served_def using world_run_Cons [OF world_step.dispatch_refused [OF assms(1) t [unfolded refused]] world_run.stop] assms
      by fastforce
  next
    case granted
    then have e: "e = None" "tk_store st' = s'" "tk_producer st' = snd (wc_publish cfg (tk_producer st) (event_of_job job))"
      using assms t by (auto simp: publish_one_def take_dispatch_key_def split: sum.splits prod.splits option.splits)
    let ?n = "length (wd_grants w)"
    let ?w1 = "log_grant (job_key job) (wc_dispatch_ttl cfg) (w\<lparr>wd_store := s', wd_schedulers := (wd_schedulers w)(i :=
         \<lparr>sp_pending = jobs, sp_holding = Some (?n, job)\<rparr>)\<rparr>)"
    have "wd_schedulers ?w1 i = \<lparr>sp_pending = jobs, sp_holding = Some (?n, job)\<rparr>" by (simp add: log_grant_def)
    from world_run_Cons [OF world_step.dispatch_granted [OF assms(1) t [unfolded granted]]
        world_run_Cons [OF world_step.produce [OF this] world_run.stop]] e assms(4) show ?thesis
      unfolding served_def by (fastforce simp: log_grant_def)
  qed
qed

lemma publish_claimed_steps:
  assumes "mono clock" "wd_schedulers w i = \<lparr>sp_pending = jobs, sp_holding = None\<rparr>" "wd_now w \<le> clock (tk_reads st)"
    and "wd_store w = tk_store st" "wd_producer w = tk_producer st"
    and "publish_claimed frepr ext (wc_claim cfg) (wc_dispatch_ttl cfg) (wc_publish cfg) clock jobs c st = (e, c', st')"
  shows "\<exists>as w' n. world_run cfg w as w' \<and> calls_in as = map (TookDispatchKey i) (take n jobs) \<and> n \<le> length jobs \<and>
    (e = None \<longrightarrow> n = length jobs) \<and> handled_in as = [] \<and> wd_now w' \<le> clock (tk_reads st') \<and> wd_table w' = wd_table w \<and> wd_consumers w' = wd_consumers w \<and>
    wd_store w' = tk_store st' \<and> wd_producer w' = tk_producer st' \<and> wd_schedulers w' = (wd_schedulers w)(i := idle)"
  using assms(2-6)
proof (induction jobs arbitrary: w c st)
  case Nil
  then show ?case by (intro exI [of _ "[]"] exI [of _ w] exI [of _ 0]) (auto simp: idle_def fun_upd_idem intro: world_run.stop)
next
  case (Cons job jobs)
  let ?w = "w\<lparr>wd_now := clock (tk_reads st)\<rparr>"
  obtain e1 c1 st1 where o: "publish_one frepr ext (wc_claim cfg) (wc_dispatch_ttl cfg) (wc_publish cfg) clock job c st = (e1, c1, st1)"
    by (metis prod_cases3)
  have "served cfg i job (if e1 = None then jobs else []) ?w st1"
    by (rule publish_one_steps [OF _ _ _ _ o]) (use Cons.prems in simp_all)
  then obtain as w1 where r1: "world_run cfg ?w as w1" "calls_in as = [TookDispatchKey i job] \<and> handled_in as = []" "wd_table w1 = wd_table w" "wd_consumers w1 = wd_consumers w"
    "wd_now w1 = clock (tk_reads st)" "wd_store w1 = tk_store st1" "wd_producer w1 = tk_producer st1"
    "wd_schedulers w1 = (wd_schedulers w)(i := \<lparr>sp_pending = if e1 = None then jobs else [], sp_holding = None\<rparr>)"
    unfolding served_def by auto
  note run = world_run_Cons [OF world_step.time [OF Cons.prems(2)] r1(1)]
  have now: "wd_now w1 \<le> clock (tk_reads st1)"
    using publish_one_reads [OF o] assms(1) unfolding r1(5) by (auto simp: mono_def)
  show ?case
  proof (cases e1)
    case None
    then have rest: "publish_claimed frepr ext (wc_claim cfg) (wc_dispatch_ttl cfg) (wc_publish cfg) clock jobs c1 st1 = (e, c', st')"
      using Cons.prems(5) o by simp
    have i: "wd_schedulers w1 i = \<lparr>sp_pending = jobs, sp_holding = None\<rparr>"
      "(wd_schedulers w1)(i := idle) = (wd_schedulers w)(i := idle)" using r1(8) None by simp_all
    obtain bs w2 n where rec: "world_run cfg w1 bs w2"
      "calls_in bs = map (TookDispatchKey i) (take n jobs)" "n \<le> length jobs" "e = None \<longrightarrow> n = length jobs" "handled_in bs = []" "wd_now w2 \<le> clock (tk_reads st')" "wd_table w2 = wd_table w1" "wd_consumers w2 = wd_consumers w1"
      "wd_store w2 = tk_store st'" "wd_producer w2 = tk_producer st'" "wd_schedulers w2 = (wd_schedulers w)(i := idle)"
      using Cons.IH [OF i(1) now r1(6,7) rest] unfolding i(2) by blast
    show ?thesis
      by (intro exI [of _ "(Passed # as) @ bs"] exI [of _ w2] exI [of _ "Suc n"])
        (use world_run_append [OF rec(1) run] rec(2-) r1 in simp)
  next
    case (Some x)
    then show ?thesis
      by (intro exI [of _ "Passed # as"] exI [of _ w1] exI [of _ 1]) (use run r1 now o Cons.prems(5) in \<open>auto simp: idle_def\<close>)
  qed
qed

lemma tick_steps:
  assumes "mono clock" "wd_schedulers w i = idle" "wd_now w \<le> clock (tk_reads st)"
    and "wd_store w = tk_store st" "wd_producer w = tk_producer st"
    and "tick_run_once frepr ext (wc_claim cfg) (wc_dispatch_ttl cfg) (Some (wc_publish cfg)) clock p limit (wd_table w, st) = (r, t', st')"
  shows "\<exists>as w'. world_run cfg w as w' \<and>
    (case fst (claim_schedulable_jobs p limit (wd_table w)) of
       Inl x \<Rightarrow> as = []
     | Inr jobs \<Rightarrow> \<exists>n \<le> length jobs. calls_in as = ClaimedRows i p limit # map (TookDispatchKey i) (take n jobs) \<and>
         (\<forall>res. r = Inr res \<longrightarrow> n = length jobs)) \<and>
    handled_in as = [] \<and> wd_now w' \<le> clock (tk_reads st') \<and> wd_table w' = t' \<and> wd_consumers w' = wd_consumers w \<and>
    wd_store w' = tk_store st' \<and> wd_producer w' = tk_producer st' \<and> wd_schedulers w' = wd_schedulers w"
proof (cases "claim_schedulable_jobs p limit (wd_table w)")
  case (Pair r1 t1)
  have id: "(wd_schedulers w)(i := idle) = wd_schedulers w" using assms(2) by (simp add: fun_upd_idem)
  show ?thesis
  proof (cases r1)
    case (Inl e)
    then have "t' = wd_table w" "st' = st"
      using assms(6) Pair by (auto simp: tick_run_once_def claim_schedulable_jobs_def split: if_splits option.splits prod.splits)
    then show ?thesis using assms(3-5) Pair Inl by (intro exI [of _ "[]"] exI [of _ w]) (simp add: world_run.stop)
  next
    case (Inr jobs)
    let ?w = "w\<lparr>wd_table := t1, wd_schedulers := (wd_schedulers w)(i := \<lparr>sp_pending = jobs, sp_holding = None\<rparr>)\<rparr>"
    obtain e c st1 where pc: "publish_claimed frepr ext (wc_claim cfg) (wc_dispatch_ttl cfg) (wc_publish cfg) clock jobs no_counts st = (e, c, st1)"
      by (metis prod_cases3)
    then have st: "t' = t1" "st' = st1" using assms(6) Pair Inr by (cases e; simp add: tick_run_once_def)+
    have raised: "e = None" if "r = Inr res" for res using assms(6) Pair Inr pc that by (cases e) (simp_all add: tick_run_once_def)
    have "\<exists>as w' n. world_run cfg ?w as w' \<and> calls_in as = map (TookDispatchKey i) (take n jobs) \<and> n \<le> length jobs \<and>
        (e = None \<longrightarrow> n = length jobs) \<and> handled_in as = [] \<and> wd_now w' \<le> clock (tk_reads st1) \<and> wd_table w' = wd_table ?w \<and> wd_consumers w' = wd_consumers ?w \<and>
        wd_store w' = tk_store st1 \<and> wd_producer w' = tk_producer st1 \<and> wd_schedulers w' = (wd_schedulers ?w)(i := idle)"
      by (rule publish_claimed_steps [OF assms(1) _ _ _ _ pc]) (use assms(3-5) in simp_all)
    then obtain as w' n where run: "world_run cfg ?w as w'" "calls_in as = map (TookDispatchKey i) (take n jobs)" "n \<le> length jobs"
      "e = None \<longrightarrow> n = length jobs" "handled_in as = []" "wd_now w' \<le> clock (tk_reads st1)" "wd_table w' = t1" "wd_consumers w' = wd_consumers w"
      "wd_store w' = tk_store st1" "wd_producer w' = tk_producer st1" "wd_schedulers w' = wd_schedulers w" by (auto simp: id)
    show ?thesis
      by (intro exI [of _ "ClaimedRows i p limit # as"] exI [of _ w'])
        (use world_run_Cons [OF world_step.claim_rows [OF assms(2) Pair [unfolded Inr]] run(1)] run(2-) st Pair Inr raised in auto)
  qed
qed

lemma message_steps:
  assumes "wd_consumers w j = None" "wd_now w \<le> now" "wd_store w = rn_store rn" "rn_handler rn = (wd_table w, [])"
    and "process_message (wc_frepr cfg) (wc_wide cfg) (wc_claim cfg) (wc_result_ttl cfg)
      (Some (recording (handle_result True p wall))) now v rn = (e, rn')"
  shows "\<exists>as w'. world_run cfg w as w' \<and> calls_in as = [TookResultKey j v] \<and> dispatches as = [] \<and>
    rn_handler rn' = (wd_table w', handled_in as) \<and> wd_store w' = rn_store rn' \<and> wd_now w' = now \<and>
    wd_producer w' = wd_producer w \<and> wd_schedulers w' = wd_schedulers w \<and> wd_consumers w' = wd_consumers w"
proof -
  let ?w = "w\<lparr>wd_now := now\<rparr>"
  have free: "wd_consumers ?w j = None" using assms(1) by simp
  obtain r s' where t: "take_result_key (wc_frepr cfg) (wc_wide cfg) (wc_claim cfg) (wc_result_ttl cfg) (wd_now ?w) v (wd_store ?w) = (r, s')"
    by fastforce
  note start = world_run_Cons [OF world_step.time [OF assms(2)]]
  show ?thesis
  proof (cases "\<exists>ev. r = Inr (ev, True)")
    case False
    then have "rn_store rn' = s'" "rn_handler rn' = rn_handler rn"
      using assms(3,5) t by (auto simp: process_message_def take_result_key_def Let_def duplicate_line
          split: sum.splits prod.splits bool.splits)
    with False start [OF world_run_Cons [OF world_step.result_refused [OF free t] world_run.stop]] assms(4) show ?thesis
      by (intro exI [of _ "[Passed, TookResultKey j v]"] exI) auto
  next
    case True
    then obtain ev where ev: "r = Inr (ev, True)" by blast
    then have rn: "rn_store rn' = s'" "rn_handler rn' = snd (recording (handle_result True p wall) ev (rn_handler rn))"
      using assms(3,5) t by (auto simp: process_message_def take_result_key_def split: sum.splits prod.splits bool.splits option.splits)
    let ?n = "length (wd_grants ?w)"
    let ?w1 = "log_grant (result_key ev) (wc_result_ttl cfg) (?w\<lparr>wd_store := s', wd_consumers := (wd_consumers ?w)(j := Some (?n, ev))\<rparr>)"
    obtain e2 t2 where h: "handle_result True p wall ev (wd_table w) = (e2, t2)" by fastforce
    have "wd_consumers ?w1 j = Some (?n, ev)" "handle_result True p wall ev (wd_table ?w1) = (e2, t2)"
      using h by (simp_all add: log_grant_def)
    note run = start [OF world_run_Cons [OF world_step.result_granted [OF free t [unfolded ev]]
        world_run_Cons [OF world_step.handle [OF this] world_run.stop]]]
    have "(wd_consumers w)(j := None) = wd_consumers w" using assms(1) by (simp add: fun_upd_idem)
    with rn h assms(4) show ?thesis by - (intro exI conjI, rule run, simp_all add: log_grant_def recording_def)
  qed
qed

section \<open>Properties\<close>

text \<open>
  C3: Any number of schedulers and result consumers share one table and one Redis store without
  doing a piece of work twice. Their calls are cut into phases and interleaved in any order with
  each other, with any repository operation, with the passing of time and with processes that
  end at any point. With \<open>redis-cli\<close> answering \<open>SET ... NX EX\<close> as documented: the producer has been
  handed exactly the dispatched jobs, in order; every dispatch and every handled result used a
  grant of its own key by the store, and no grant was used twice; two grants of one key are at
  least the first one's time-to-live apart; and, unless a process crashed, every grant is either
  used or in the hand of the one process that got it. So a grant is lost only to
  a crash between the claim and the work, the gap \<open>docs/known-limitations.md\<close> names for workers; a
  publication that fails and a handler that raises count as its use.
\<close>

theorem processes_share_store_safely:
  assumes "redis_cli_documented run host port present deadline"
    and "wc_claim cfg = redis_try_claim namespace (cli_set run host port)"
    and "\<forall>t k. \<not> present s t (namespace @ '':'' @ k)"
    and "world_run cfg (world_init t s now k) as w"
  shows "wd_producer w = publish_all (wc_publish cfg) (dispatches as) k \<and>
    distinct (map fst (work_done cfg as)) \<and>
    (\<forall>(n, key, ttl) \<in> set (work_done cfg as). n < length (wd_grants w) \<and> (\<exists>time. wd_grants w ! n = (key, ttl, time))) \<and>
    (\<forall>m n key ttl time ttl' time'. m < n \<longrightarrow> n < length (wd_grants w) \<longrightarrow>
       wd_grants w ! m = (key, ttl, time) \<longrightarrow> wd_grants w ! n = (key, ttl', time') \<longrightarrow> deadline time ttl \<le> time') \<and>
    (Crashed \<notin> set as \<longrightarrow> (\<forall>n < length (wd_grants w).
       (\<exists>x \<in> set (work_done cfg as). fst x = n) \<or>
       (\<exists>!h. \<exists>x. in_hand cfg (wd_schedulers w) (wd_consumers w) h = Some x \<and> fst x = n)))"
proof -
  have store: "idempotency_store (wc_claim cfg) (\<lambda>s t k. present s t (namespace @ '':'' @ k)) deadline"
    unfolding assms(2) by (rule redis_store [OF cli_set_documented [OF assms(1)]])
  note inv = world_run_inv [OF store assms(4) refl assms(3), unfolded world_inv_def store_agrees_def]
  let ?hand = "in_hand cfg (wd_schedulers w) (wd_consumers w)"
  have ledger: "ledger_ok (wd_grants w) ?hand (work_done cfg as) (Crashed \<notin> set as)" using inv by blast
  have apart: "deadline time ttl \<le> time'" if "m < n" "n < length (wd_grants w)"
    "wd_grants w ! m = (key, ttl, time)" "wd_grants w ! n = (key, ttl', time')" for m n key ttl time ttl' time'
    using sorted_wrt_nth_less [OF conjunct2 [OF conjunct1 [OF inv]] that(1,2)] that(3,4) by simp
  have used: "n < length (wd_grants w) \<and> (\<exists>time. wd_grants w ! n = (key, ttl, time))"
    if "(n, key, ttl) \<in> set (work_done cfg as)" for n key ttl
    using ledgerD(1) [OF ledger, of "(n, key, ttl)"] that by (simp add: granted_as_def)
  have kept: "(\<exists>x \<in> set (work_done cfg as). fst x = n) \<or> (\<exists>!h. \<exists>x. ?hand h = Some x \<and> fst x = n)"
    if "Crashed \<notin> set as" "n < length (wd_grants w)" for n
    using ledger_kept [OF ledger that] .
  show ?thesis using inv ledgerD(2) [OF ledger] apart used kept by (intro conjI) blast+
qed

text \<open>The settings of the witness: one job, claimed and dispatched by scheduler 0 through the command-line client.\<close>

definition demo_world :: "(string \<rightharpoonup> int, int, string list) world_config" where
  "demo_world = \<lparr>wc_frepr = (\<lambda>_. []), wc_wide = (\<lambda>_. []), wc_claim = redis_try_claim ''ns'' (cli_set demo_redis_cli ''localhost'' 6379),
     wc_publish = demo_publish, wc_dispatch_ttl = 10, wc_result_ttl = 10\<rparr>"

lemma demo_world_grants:
  assumes "dispatchable job"
  shows "\<exists>s. take_dispatch_key (wc_claim demo_world) (wc_dispatch_ttl demo_world) 0 job Map.empty = (Inr True, s)"
proof -
  have k: "dispatch_key (ArgStr (jr_job_id job)) (ArgInt (PyInt (jr_retry_count job))) = Inr (job_key job)"
    using assms by (simp add: dispatch_key_job)
  show ?thesis
    using idempotency_store.claim_valid [OF redis_store [OF cli_set_documented [OF demo_redis_cli_documented]] job_key_valid [OF assms],
        where s = Map.empty and now = 0 and ttl = 10]
    by (fastforce simp: take_dispatch_key_def demo_world_def k)
qed

lemma demo_world_run:
  "\<exists>w job. world_run demo_world (world_init [demo_row ''a'' 1 QUEUED 0 None] Map.empty 0 []) [ClaimedRows 0 (demo_pg 7 []) 5, TookDispatchKey 0 job, Dispatched 0 job] w \<and>
     jr_job_id job = ''a'' \<and> length (wd_grants w) = 1"
proof -
  let ?job = "row_to_record (dispatch_update (demo_pg 7 []) (demo_row ''a'' 1 QUEUED 0 None))"
  let ?t = "[dispatch_update (demo_pg 7 []) (demo_row ''a'' 1 QUEUED 0 None)]"
  let ?w = "world_init [demo_row ''a'' 1 QUEUED 0 None] (Map.empty :: string \<rightharpoonup> int) (0 :: int) ([] :: string list)"
  let ?w1 = "?w\<lparr>wd_table := ?t, wd_schedulers := (wd_schedulers ?w)(0 := \<lparr>sp_pending = [?job], sp_holding = None\<rparr>)\<rparr>"
  have "dispatchable ?job" by (simp add: dispatchable_def demo_row_def is_blank_iff py_isspace_def)
  from demo_world_grants [OF this] obtain s where
    s: "take_dispatch_key (wc_claim demo_world) (wc_dispatch_ttl demo_world) (wd_now ?w1) ?job (wd_store ?w1) = (Inr True, s)"
    by (auto simp: world_init_def)
  have s1: "world_step demo_world ?w (ClaimedRows 0 (demo_pg 7 []) 5) ?w1"
    by (rule world_step.claim_rows [of _ _ "demo_pg 7 []" 5]) (simp_all add: world_init_def demo_claim)
  have i: "wd_schedulers ?w1 0 = \<lparr>sp_pending = ?job # [], sp_holding = None\<rparr>" by simp
  let ?w2 = "log_grant (job_key ?job) (wc_dispatch_ttl demo_world) (?w1\<lparr>wd_store := s, wd_schedulers := (wd_schedulers ?w1)(0 :=
         \<lparr>sp_pending = [], sp_holding = Some (length (wd_grants ?w1), ?job)\<rparr>)\<rparr>)"
  have h: "wd_schedulers ?w2 0 = \<lparr>sp_pending = [], sp_holding = Some (0, ?job)\<rparr>" by (simp add: log_grant_def world_init_def)
  note run = world_run_Cons [OF s1 world_run_Cons [OF world_step.dispatch_granted [OF i s] world_run_Cons [OF world_step.produce [OF h] world_run.stop]]]
  show ?thesis by (intro exI conjI, rule run) (simp_all add: log_grant_def world_init_def demo_row_def)
qed

theorem processes_share_store_safely_witness:
  "\<exists>w job. world_run demo_world (world_init [demo_row ''a'' 1 QUEUED 0 None] Map.empty 0 []) [ClaimedRows 0 (demo_pg 7 []) 5, TookDispatchKey 0 job, Dispatched 0 job] w \<and>
     wd_producer w = [''a''] \<and> (\<exists>at_time. wd_grants w ! 0 = (job_key job, 10, at_time))"
proof -
  obtain w job where r: "world_run demo_world (world_init [demo_row ''a'' 1 QUEUED 0 None] Map.empty 0 []) [ClaimedRows 0 (demo_pg 7 []) 5, TookDispatchKey 0 job, Dispatched 0 job] w"
    "jr_job_id job = ''a''" using demo_world_run by blast
  have c: "wc_claim demo_world = redis_try_claim ''ns'' (cli_set demo_redis_cli ''localhost'' 6379)" by (simp add: demo_world_def)
  have w: "dispatches [ClaimedRows 0 (demo_pg 7 []) 5, TookDispatchKey 0 job, Dispatched 0 job] = [(0, job)]"
    "work_done demo_world [ClaimedRows 0 (demo_pg 7 []) 5, TookDispatchKey 0 job, Dispatched 0 job] = [(0, job_key job, 10)]"
    by (simp_all add: dispatches_def work_done_def List.map_filter_def dispatch_ticket_def demo_world_def)
  have "de_job_id (event_of_job job) = ''a''" using r(2) by (simp add: event_of_job_def)
  then have p: "publish_all (wc_publish demo_world) [(0, job)] [] = [''a'']" by (simp add: demo_world_def demo_publish_def)
  show ?thesis
    using processes_share_store_safely [OF demo_redis_cli_documented c _ r(1)] r(1) unfolding w p by fastforce
qed

text \<open>
  C28: A scheduler's tick and a consumer's message are runs of exactly their phases. For a scheduler
  with nothing in hand, \<open>SchedulerTickRunner.run_once\<close> is a run whose calls are, in order, its one
  claim of rows and then the dispatch keys of the claimed jobs, all of them unless the call
  raises, none when the claim raised; it ends in the table, store and producer of the call. For a
  consumer with nothing in hand, \<open>ResultConsumerRunner.process_message\<close> with the job result handler
  is a run with the one call that takes the key of that message; the events handled in the run
  are those the code called the handler on, and it ends in the same table and store. No other
  process, operation or crash takes part. So what holds of all interleavings of the phases holds
  of all sequences of calls.
\<close>

theorem calls_run_in_phases:
  assumes "mono clock" "wd_now w \<le> clock (tk_reads st)" "wd_store w = tk_store st" "wd_producer w = tk_producer st"
    and "wd_store w = rn_store rn" "rn_handler rn = (wd_table w, [])" "wd_schedulers w i = idle" "wd_consumers w j = None" "wd_now w \<le> now"
    and "tick_run_once frepr ext (wc_claim cfg) (wc_dispatch_ttl cfg) (Some (wc_publish cfg)) clock p limit (wd_table w, st) = (r, t1, st1)"
    and "process_message (wc_frepr cfg) (wc_wide cfg) (wc_claim cfg) (wc_result_ttl cfg)
      (Some (recording (handle_result True q wall))) now v rn = (e, rn1)"
  shows "(\<exists>as w1. world_run cfg w as w1 \<and>
      (case fst (claim_schedulable_jobs p limit (wd_table w)) of
         Inl x \<Rightarrow> as = []
       | Inr jobs \<Rightarrow> \<exists>n \<le> length jobs. calls_in as = ClaimedRows i p limit # map (TookDispatchKey i) (take n jobs) \<and>
           (\<forall>res. r = Inr res \<longrightarrow> n = length jobs)) \<and>
      handled_in as = [] \<and> wd_now w1 \<le> clock (tk_reads st1) \<and> wd_table w1 = t1 \<and> wd_store w1 = tk_store st1 \<and>
      wd_producer w1 = tk_producer st1 \<and> wd_schedulers w1 = wd_schedulers w \<and> wd_consumers w1 = wd_consumers w) \<and>
    (\<exists>as w1. world_run cfg w as w1 \<and> calls_in as = [TookResultKey j v] \<and> dispatches as = [] \<and>
      rn_handler rn1 = (wd_table w1, handled_in as) \<and> wd_store w1 = rn_store rn1 \<and> wd_now w1 = now \<and>
      wd_producer w1 = wd_producer w \<and> wd_schedulers w1 = wd_schedulers w \<and> wd_consumers w1 = wd_consumers w)"
proof (rule conjI, goal_cases)
  case 1
  show ?case using tick_steps [OF assms(1,7,2,3,4,10)] by blast
next
  case 2
  show ?case using message_steps [OF assms(8,9,5,6,11)] by blast
qed

lemma demo_world_publishes:
  assumes "dispatchable job"
  shows "\<exists>s. publish_one (\<lambda>_. []) (\<lambda>_. []) (wc_claim demo_world) 10 demo_publish int job no_counts (tick_state_init Map.empty []) =
    (None, \<lparr>tc_published = 1, tc_duplicates = 0, tc_publish_errors = []\<rparr>,
     (tick_state_init Map.empty [])\<lparr>tk_store := s, tk_reads := 1, tk_producer := [jr_job_id job]\<rparr>)"
proof -
  have k: "dispatch_key (ArgStr (jr_job_id job)) (ArgInt (PyInt (jr_retry_count job))) = Inr (job_key job)"
    using assms by (simp add: dispatch_key_job)
  obtain s where g: "take_dispatch_key (wc_claim demo_world) (wc_dispatch_ttl demo_world) 0 job Map.empty = (Inr True, s)"
    using demo_world_grants [OF assms] by blast
  have "wc_dispatch_ttl demo_world = 10" by (simp add: demo_world_def)
  then show ?thesis
    using take_dispatch_key_Inr [OF g] k by (simp add: publish_one_def tick_state_init_def demo_publish_def no_counts_def event_of_job_def)
qed

lemma demo_world_message:
  "\<exists>v e rn1. process_message (wc_frepr demo_world) (wc_wide demo_world) (wc_claim demo_world) (wc_result_ttl demo_world)
     (Some (recording (handle_result True (demo_pg 8 []) 0))) 0 v (runner_init Map.empty (t, [])) = (e, rn1) \<and>
     snd (rn_handler rn1) = [demo_result ''succeeded'']"
proof -
  let ?h = "recording (handle_result True (demo_pg 8 []) 0)" and ?ev = "demo_result ''succeeded''" and ?key = "''worker-result:a:0''"
  let ?rn = "runner_init (Map.empty :: string \<rightharpoonup> int) (t, [] :: worker_result list)"
  obtain v where v: "\<And>now (handle :: (jobs_table \<times> worker_result list) handler). accept (\<lambda>_. []) (\<lambda>_. []) (now :: int, v, handle) =
      Some \<lparr>ac_now = now, ac_key = ?key, ac_event = ?ev, ac_handle = handle\<rparr>"
    using demo_accept [of "''succeeded''"] by (auto simp: ALLOWED_STATUSES_def)
  have key: "validate_claim_inputs ?key 10 = None" by (simp add: validate_claim_inputs_None is_blank_iff py_isspace_def)
  obtain s where c: "wc_claim demo_world Map.empty 0 ?key 10 = (Inr True, s)"
    using idempotency_store.claim_valid [OF redis_store [OF cli_set_documented [OF demo_redis_cli_documented]] key, where s = Map.empty and now = 0]
    by (fastforce simp: demo_world_def)
  obtain e t1 where h: "handle_result True (demo_pg 8 []) 0 ?ev t = (e, t1)" by fastforce
  have "process_message (\<lambda>_. []) (\<lambda>_. []) (wc_claim demo_world) 10 (Some ?h) 0 v ?rn =
      (e, ?rn\<lparr>rn_store := s, rn_handler := (t1, [?ev]), rn_processed := rn_processed ?rn + (if e = None then 1 else 0)\<rparr>)"
    by (rule process_granted [OF v]) (use c h in \<open>simp_all add: runner_init_def recording_def\<close>)
  then show ?thesis by (intro exI conjI) (auto simp: demo_world_def)
qed

theorem calls_run_in_phases_witness:
  "\<exists>as w1 job bs w2 v. world_run demo_world (world_init [demo_row ''a'' 1 QUEUED 0 None] Map.empty 0 []) as w1 \<and>
     calls_in as = [ClaimedRows 0 (demo_pg 7 []) 5, TookDispatchKey 0 job] \<and> jr_job_id job = ''a'' \<and> wd_producer w1 = [''a''] \<and>
     world_run demo_world (world_init [demo_row ''a'' 1 QUEUED 0 None] Map.empty 0 []) bs w2 \<and>
     calls_in bs = [TookResultKey 0 v] \<and> handled_in bs = [demo_result ''succeeded'']"
proof -
  let ?job = "row_to_record (dispatch_update (demo_pg 7 []) (demo_row ''a'' 1 QUEUED 0 None))"
  let ?t = "[demo_row ''a'' 1 QUEUED 0 None]"
  let ?w = "world_init ?t (Map.empty :: string \<rightharpoonup> int) (0 :: int) ([] :: string list)"
  let ?st = "tick_state_init (Map.empty :: string \<rightharpoonup> int) ([] :: string list)"
  let ?rn = "runner_init (Map.empty :: string \<rightharpoonup> int) (?t, [] :: worker_result list)"
  have d: "dispatchable ?job" "jr_job_id ?job = ''a''" by (simp_all add: dispatchable_def demo_row_def is_blank_iff py_isspace_def)
  obtain s where o: "publish_one (\<lambda>_. []) (\<lambda>_. []) (wc_claim demo_world) 10 demo_publish int ?job no_counts ?st =
      (None, \<lparr>tc_published = 1, tc_duplicates = 0, tc_publish_errors = []\<rparr>, ?st\<lparr>tk_store := s, tk_reads := 1, tk_producer := [''a'']\<rparr>)"
    using demo_world_publishes [OF d(1)] unfolding d(2) by blast
  have tick: "tick_run_once (\<lambda>_. []) (\<lambda>_. []) (wc_claim demo_world) (wc_dispatch_ttl demo_world) (Some (wc_publish demo_world)) int (demo_pg 7 []) 5
      (wd_table ?w, ?st) = (Inr (tick_result_of [?job] \<lparr>tc_published = 1, tc_duplicates = 0, tc_publish_errors = []\<rparr>),
        [dispatch_update (demo_pg 7 []) (demo_row ''a'' 1 QUEUED 0 None)], ?st\<lparr>tk_store := s, tk_reads := 1, tk_producer := [''a'']\<rparr>)"
    using o by (simp add: tick_run_once_def demo_claim demo_world_def world_init_def)
  obtain v e rn1 where msg: "process_message (wc_frepr demo_world) (wc_wide demo_world) (wc_claim demo_world) (wc_result_ttl demo_world)
      (Some (recording (handle_result True (demo_pg 8 []) 0))) 0 v ?rn = (e, rn1)" "snd (rn_handler rn1) = [demo_result ''succeeded'']"
    using demo_world_message [of ?t] by blast
  have m: "mono (int :: nat \<Rightarrow> int)" by (simp add: mono_def)
  have w: "wd_now ?w \<le> int (tk_reads ?st)" "wd_store ?w = tk_store ?st" "wd_producer ?w = tk_producer ?st" "wd_store ?w = rn_store ?rn"
    "rn_handler ?rn = (wd_table ?w, [])" "wd_schedulers ?w 0 = idle" "wd_consumers ?w 0 = None" "wd_now ?w \<le> 0"
    by (simp_all add: world_init_def tick_state_init_def runner_init_def)
  have claim: "fst (claim_schedulable_jobs (demo_pg 7 []) 5 (wd_table ?w)) = Inr [?job]" by (simp add: world_init_def demo_claim)
  note runs = calls_run_in_phases [OF m w tick msg(1), unfolded claim sum.case]
  from conjunct1 [OF runs] obtain as w1 where "world_run demo_world ?w as w1"
    "calls_in as = [ClaimedRows 0 (demo_pg 7 []) 5, TookDispatchKey 0 ?job]" "wd_producer w1 = [''a'']" by auto
  moreover from conjunct2 [OF runs] obtain bs w2 where "world_run demo_world ?w bs w2" "calls_in bs = [TookResultKey 0 v]"
    "handled_in bs = [demo_result ''succeeded'']" using msg(2) by auto
  ultimately show ?thesis using d(2) by blast
qed

end
