(* ===== verification/Spec2Isabelle.thy ===== *)
theory Spec2Isabelle
  imports Scheduler_Fifo Bounded_Queue Scheduler_Priority Scheduler_Weighted_RR Scheduler_Composed
    Idempotency_Config Repository_Steps Result_Consumer Scheduler_Tick Retry_Scanner Dispatch_Pipeline
    Control_Plane_Api Control_Plane_System Logging_Context Scheduler_Comparison Scheduler_Simulation
    Benchmark_Scripts Operator_Scripts Smoke_Checks Redis_Errors Job_Lifecycle
    Retry_Budget Concurrent_Processes
begin

text \<open>
  A verification of the Python control plane of KernelQ (\<open>src/control_plane\<close>).

  \<^bold>\<open>The program.\<close> Clients enqueue, cancel and retry jobs through an HTTP API (\<open>api.py\<close>), which
  keeps them as rows of a Postgres table behind \<open>JobRepository\<close>. A scheduler tick claims queued
  rows, takes a dispatch key in an idempotency store and hands an event per job to a Kafka
  producer. Workers (a Go program outside this development) answer with result events; a consumer
  parses each one, takes its key in a store and lets a handler move the row, possibly to a later
  retry, which a retry scanner puts back into the queue. Beside this durable path there are four
  in-memory schedulers (FIFO, priority, weighted round-robin and their composition) and the
  metrics and log lines of all parts.

  \<^bold>\<open>Theories and sources\<close> (names under \<open>src/control_plane/kernelq\<close> unless said otherwise).
    \<^item> \<open>Prelude\<close>: the named collections, exceptions (\<open>exc\<close>) and results (\<open>exc + 'a\<close>), dictionaries
      in insertion order, Python strings and integers and their printing.
    \<^item> \<open>Job_State\<close> (\<open>job_state.py\<close>), \<open>Enqueue_Result\<close> (\<open>enqueue_result.py\<close>).
    \<^item> In-memory schedulers: \<open>Queue_Interface\<close> (the locale of a queue), \<open>Scheduler_Fifo\<close>,
      \<open>Bounded_Queue\<close>; \<open>Heapq\<close> (the standard library's binary heap), \<open>Priority_Interface\<close>,
      \<open>Scheduler_Priority\<close>; \<open>Turn_Interface\<close> (the locale of a cyclic turn over tenants),
      \<open>Weight_Cycle\<close>, \<open>Tenant_Queues\<close>, \<open>Scheduler_Weighted_RR\<close>, \<open>Scheduler_Composed\<close>.
    \<^item> Idempotency: \<open>Idempotency_Keys\<close>, \<open>Py_Float\<close> (binary64 addition), \<open>Idempotency_Store\<close> (the
      locale of a claim store, the in-memory and the Redis store), \<open>Idempotency_Config\<close> (the
      environment and the \<open>redis-cli\<close> client), \<open>Db_Connection\<close> (\<open>db.py\<close>).
    \<^item> Durable state: \<open>Job_Repository\<close> (\<open>job_repository.py\<close>, each method one atomic step on the
      table), \<open>Repository_Claim\<close>, \<open>Repository_Retry\<close> and \<open>Repository_Steps\<close> (its properties).
    \<^item> Results: \<open>Json\<close>, \<open>Json_Roundtrip\<close> (the part of the json module the code uses),
      \<open>Result_Event\<close>, \<open>Result_Handler\<close>, \<open>Result_Consumer\<close> (with \<open>kafka_result_consumer.py\<close>).
    \<^item> Dispatch: \<open>Kafka_Producer\<close>, \<open>Scheduler_Tick\<close>, \<open>Retry_Scanner\<close>, \<open>Dispatch_Pipeline\<close> (ticks,
      scans and results together), \<open>Retry_Budget\<close> (a job that fails every time), \<open>Redis_Errors\<close> (tick and consumer while Redis answers with errors).
    \<^item> Observation: \<open>Scheduler_Metrics\<close>, \<open>Job_Metrics\<close>, \<open>Prometheus_Metrics\<close>, \<open>Logging_Utils\<close>,
      \<open>Logging_Context\<close> (\<open>app/core/logging_context.py\<close>).
    \<^item> Scripts (\<open>src/control_plane/scripts\<close>): \<open>Scheduler_Comparison\<close> (\<open>compare_schedulers.py\<close>, with
      the locale of a scheduler that can be filled and drained), \<open>Scheduler_Simulation\<close>
      (\<open>simulate_composed_scheduler.py\<close>), \<open>Load_Benchmark\<close> (the inserts of \<open>generate_load_jobs.py\<close>
      and one trial of \<open>benchmark_scheduler_throughput.py\<close>), \<open>Benchmark_Scripts\<close> (options, trials and
      summaries of the two), \<open>Operator_Scripts\<close> (the one-shot tick, scan, poll, dead-letter,
      snapshot and seeding scripts), \<open>Smoke_Checks\<close> (the three \<open>smoke_*.py\<close>).
    \<^item> \<open>Control_Plane_Api\<close> (\<open>api.py\<close>) and \<open>Control_Plane_System\<close>: the whole control plane as a step
      relation, one step per request, tick, scan or delivery, in any order, a delivery labelled with
      the events its handler was called on; \<open>Job_Lifecycle\<close>: one
      job from its request to its success through all parts.
    \<^item> \<open>Concurrent_Processes\<close>: any number of scheduler and consumer processes on one table and one
      store, as a step relation finer than the calls: \<open>run_once\<close> is cut after the claim of rows, after
      each \<open>try_claim\<close> and after each publication, \<open>process_message\<close> after its \<open>try_claim\<close>, and a
      process may end at any cut. Its actions name the call and its arguments, so that the run of a
      call is determined by them.

  \<^bold>\<open>What the theorems show.\<close> The schedulers: no job is lost or duplicated, capacities hold, each
  policy serves in its documented order, a tenant with work is served within a lap and a lap is
  proportional to the weights. The stores: both implement one specification of claims with
  expiry, and the keys of a stage are injective. The repository: its invariant, the exact effect
  of every operation, disjoint claims under row locks, the retry policy. The pipeline: every
  parsed event is well formed, encoding and parsing are inverse, a result is applied and a job
  attempt published at most once per time-to-live, a failed attempt with budget left is
  dispatched again and one without is dead-lettered for good, a dispatched job whose worker
  succeeds is read back as succeeded. Concurrent processes: a grant of the shared store is used
  at most once and is lost only to a crash between the claim and the work (the gap
  \<open>docs/known-limitations.md\<close> names for workers); the calls are runs of the phases. The API: an enqueue creates one
  row or answers 409, cancel and retry follow the lifecycle when nothing interferes. The system: the repository's invariant and duplicate
  suppression in every reachable state. The scripts: the comparison admits the same jobs and has
  the same average wait under all four policies, every trial of a benchmark dispatches all its
  jobs in the least number of ticks, the simulation prints a dispatch order that is the
  scheduler's, the smoke checks decide whether a documented Redis suppresses duplicates. The properties of kind error state where the code does
  less than its comments say; the manifest lists them as findings.

  \<^bold>\<open>Parameters and bounds.\<close>
    \<^item> Strings are lists of code points below 256; \<open>wide\<close> gives the result of decoding a larger
      one. \<open>frepr\<close> is the printing of a float.
    \<^item> Floats are rationals rounded to 53 bits after each operation (\<open>fl\<close>) with an unbounded
      exponent; infinities and NaN do not occur in the code that uses them. The \<open>OverflowError\<close> of
      \<open>int / int\<close> for a quotient beyond about 1e308 (\<open>int_truediv\<close>) is outside this model, and so is
      CPython's limit of 4300 digits in the JSON encoding of an integer (\<open>json_dumps\<close>).
    \<^item> The database is a record \<open>pg\<close> of what a server chooses during a statement: the order in
      which it scans and returns rows, the rows locked by others, a fault, the time. What
      Postgres documents of them is \<open>pg_documented\<close>. A \<open>LIMIT\<close> beyond the range of \<open>bigint\<close>, which the
      server would refuse, counts as one that takes every row. \<open>repo_op\<close> writes lifecycle states
      only, as every caller in the program does, although \<open>create_job\<close> and \<open>update_job_state\<close> take any
      string.
    \<^item> A clock is a function of the number of readings, monotone where a theorem needs it.
    \<^item> Kafka's producer, the Redis client, the process runner of \<open>redis-cli\<close> and the OpenTelemetry
      span are arguments; what is assumed of one is a named hypothesis with a witness.
    \<^item> The dequeue loops of the comparison and the simulation are partial functions with values in \<open>option\<close>, proved to
      return; the benchmark's loop ends because of its iteration cap.
    \<^item> The JSON parser has fuel \<open>2 * length + 2\<close>, which \<open>Json_Roundtrip\<close> proves enough for
      every text the encoder prints.
    \<^item> An operation of several transactions takes as arguments the changes that other
      transactions make between them, so that races are part of the model.

  \<^bold>\<open>Not modelled.\<close> What the Postgres driver, the Kafka client, \<open>subprocess\<close>, FastAPI and pydantic do
  beyond the calls the code makes: opening a connection is an argument (the driver's \<open>connect\<close>, a
  client's constructor), closing one has no effect on the model's state. \<open>argparse\<close> is modelled
  from the list of options and values on; how it takes the command line apart, its abbreviations
  and its messages are not. The sum of floats is written for both algorithms CPython has used.
  Abstract base classes and protocols without a body (\<open>IdempotencyStore\<close>, \<open>ResultHandler\<close>) are the
  parameters of the definitions that use them. The Go worker, deployment files, SQL migrations and
  tests: other languages or not part of the program.
\<close>

end
